(* ===== verification/Prelude.thy ===== *)
theory Prelude
  imports Main "HOL-Library.Word"
begin

text \<open>
  Vocabulary shared by the component theories: the types that stand for Go's
  values, the pieces of the Go standard library the program calls (string
  trimming and case mapping, decimal and hexadecimal printing, joining), the
  combinators in which guard sequences are written, and the facts about them
  that the component proofs use through the collections \<open>guard_simps\<close> and
  \<open>step_simps\<close>.

  A Go string and a Go byte slice are both sequences of bytes, and both are a
  \<^typ>\<open>string\<close> here: HOL's characters are the 256 byte values. A \<open>time.Time\<close> or
  \<open>time.Duration\<close> is an \<^typ>\<open>int\<close> of nanoseconds. A nil \<open>error\<close> is \<^term>\<open>None\<close>.
\<close>

section \<open>Types\<close>

type_synonym u32 = "32 word"
type_synonym u64 = "64 word"
type_synonym i64 = "64 word"
type_synonym bytes = string
type_synonym time = int
type_synonym duration = int

type_synonym 'e err = "'e option"
type_synonym ('e, 'a) result = "'e + 'a"

text \<open>The two errors a Go \<open>context.Context\<close> reports.\<close>

datatype ctx_err = Canceled | DeadlineExceeded

text \<open>
  The fields of \<open>protocol.Frame\<close> (package mpc-core) that the program reads or
  writes, with the widths at which it uses them.
\<close>

record frame =
  f_SessionID :: string
  f_MessageID :: string
  f_Stage :: string
  f_Protocol :: string
  f_Seq :: u64
  f_Round :: u32
  f_RoundHint :: u32
  f_Broadcast :: bool
  f_FromParty :: string
  f_ToParty :: string
  f_MessageType :: string
  f_PayloadHash :: string
  f_DerivationContextHash :: string
  f_Payload :: bytes

named_theorems guard_simps \<open>what a passed guard sequence says\<close>
named_theorems step_simps \<open>unfolding of the operations of a component\<close>

section \<open>Guard sequences\<close>

text \<open>
  \<open>if cond { return err }\<close> followed by the rest of a function that returns only
  an error is \<open>fail_if cond err\<close> chained by \<open>or_err\<close>: the first error wins.
\<close>

definition fail_if :: "bool \<Rightarrow> 'e \<Rightarrow> 'e err" where
  "fail_if c e = (if c then Some e else None)"

definition or_err :: "'e err \<Rightarrow> 'e err \<Rightarrow> 'e err" where
  "or_err a b = (case a of Some e \<Rightarrow> Some e | None \<Rightarrow> b)"

definition bind_res :: "('e, 'a) result \<Rightarrow> ('a \<Rightarrow> ('e, 'b) result) \<Rightarrow> ('e, 'b) result" where
  "bind_res r f = (case r of Inl e \<Rightarrow> Inl e | Inr x \<Rightarrow> f x)"

definition check_res :: "'e err \<Rightarrow> ('e, 'a) result \<Rightarrow> ('e, 'a) result" where
  "check_res g r = (case g of Some e \<Rightarrow> Inl e | None \<Rightarrow> r)"

section \<open>Strings\<close>

definition byte_of_nat :: "nat \<Rightarrow> char" where
  "byte_of_nat n = char_of n"

definition byte_val :: "char \<Rightarrow> nat" where
  "byte_val c = of_char c"

text \<open>
  \<open>strings.ToLower\<close>, \<open>strings.ToUpper\<close> and \<open>strings.EqualFold\<close> work on runes.
  The program only compares their results with ASCII text, so what matters of a
  non-ASCII rune is whether it is mapped to an ASCII letter; the runes that are
  (U+0130 and U+212A to lower case, U+0131 and U+017F to upper case, U+017F and
  U+212A under simple folding) are written out by their UTF-8 encodings, and
  every other byte outside ASCII is kept.
\<close>

definition lower_char :: "char \<Rightarrow> char" where
  "lower_char c = (if 65 \<le> byte_val c \<and> byte_val c \<le> 90 then byte_of_nat (byte_val c + 32) else c)"

definition upper_char :: "char \<Rightarrow> char" where
  "upper_char c = (if 97 \<le> byte_val c \<and> byte_val c \<le> 122 then byte_of_nat (byte_val c - 32) else c)"

fun strip_prefix :: "string \<Rightarrow> string \<Rightarrow> string option" where
  "strip_prefix [] s = Some s"
| "strip_prefix (p # ps) [] = None"
| "strip_prefix (p # ps) (c # s) = (if p = c then strip_prefix ps s else None)"

definition has_prefix :: "string \<Rightarrow> string \<Rightarrow> bool" where
  "has_prefix p s = (strip_prefix p s \<noteq> None)"

lemma strip_prefix_Some [simp]: "strip_prefix p s = Some r \<longleftrightarrow> s = p @ r"
  by (induction p s rule: strip_prefix.induct) auto

lemma strip_prefix_append [simp]: "strip_prefix p (p @ r) = Some r"
  by simp

lemma has_prefix_iff: "has_prefix p s \<longleftrightarrow> (\<exists>r. s = p @ r)"
  unfolding has_prefix_def by (metis not_Some_eq strip_prefix_Some)

text \<open>One rune replacement per entry, applied before the ASCII mapping.\<close>

fun rewrite_runes :: "(string \<times> char) list \<Rightarrow> nat \<Rightarrow> string \<Rightarrow> string" where
  "rewrite_runes tbl (Suc k) (c # s) =
     (case find (\<lambda>e. has_prefix (fst e) (c # s)) tbl of
        Some e \<Rightarrow> snd e # rewrite_runes tbl k (drop (length (fst e)) (c # s))
      | None \<Rightarrow> c # rewrite_runes tbl k s)"
| "rewrite_runes tbl k s = s"

definition lower_runes :: "(string \<times> char) list" where
  "lower_runes = [([CHR 0xC4, CHR 0xB0], CHR ''i''), ([CHR 0xE2, CHR 0x84, CHR 0xAA], CHR ''k'')]"

definition upper_runes :: "(string \<times> char) list" where
  "upper_runes = [([CHR 0xC4, CHR 0xB1], CHR ''I''), ([CHR 0xC5, CHR 0xBF], CHR ''S'')]"

definition fold_runes :: "(string \<times> char) list" where
  "fold_runes = [([CHR 0xC5, CHR 0xBF], CHR ''s''), ([CHR 0xE2, CHR 0x84, CHR 0xAA], CHR ''k'')]"

definition ToLower :: "string \<Rightarrow> string" where
  "ToLower s = map lower_char (rewrite_runes lower_runes (length s) s)"

definition ToUpper :: "string \<Rightarrow> string" where
  "ToUpper s = map upper_char (rewrite_runes upper_runes (length s) s)"

definition EqualFold :: "string \<Rightarrow> string \<Rightarrow> bool" where
  "EqualFold s t = (map lower_char (rewrite_runes fold_runes (length s) s)
     = map lower_char (rewrite_runes fold_runes (length t) t))"

text \<open>\<open>strings.TrimSpace\<close>: the Unicode white space runes by their encodings.\<close>

definition space_runes :: "string list" where
  "space_runes =
     [[CHR 0x09], [CHR 0x0A], [CHR 0x0B], [CHR 0x0C], [CHR 0x0D], [CHR 0x20],
      [CHR 0xC2, CHR 0x85], [CHR 0xC2, CHR 0xA0], [CHR 0xE1, CHR 0x9A, CHR 0x80],
      [CHR 0xE2, CHR 0x80, CHR 0x80], [CHR 0xE2, CHR 0x80, CHR 0x81], [CHR 0xE2, CHR 0x80, CHR 0x82],
      [CHR 0xE2, CHR 0x80, CHR 0x83], [CHR 0xE2, CHR 0x80, CHR 0x84], [CHR 0xE2, CHR 0x80, CHR 0x85],
      [CHR 0xE2, CHR 0x80, CHR 0x86], [CHR 0xE2, CHR 0x80, CHR 0x87], [CHR 0xE2, CHR 0x80, CHR 0x88],
      [CHR 0xE2, CHR 0x80, CHR 0x89], [CHR 0xE2, CHR 0x80, CHR 0x8A], [CHR 0xE2, CHR 0x80, CHR 0xA8],
      [CHR 0xE2, CHR 0x80, CHR 0xA9], [CHR 0xE2, CHR 0x80, CHR 0xAF], [CHR 0xE2, CHR 0x81, CHR 0x9F],
      [CHR 0xE3, CHR 0x80, CHR 0x80]]"

fun drop_runes :: "string list \<Rightarrow> nat \<Rightarrow> string \<Rightarrow> string" where
  "drop_runes tbl (Suc k) s =
     (case find (\<lambda>p. has_prefix p s) tbl of
        Some p \<Rightarrow> drop_runes tbl k (drop (length p) s)
      | None \<Rightarrow> s)"
| "drop_runes tbl 0 s = s"

definition TrimSpace :: "string \<Rightarrow> string" where
  "TrimSpace s =
     (let l = drop_runes space_runes (length s) s
      in rev (drop_runes (map rev space_runes) (length l) (rev l)))"

text \<open>\<open>strconv.FormatUint(n, 10)\<close>, \<open>%d\<close>, \<open>%x\<close> of a byte slice and \<open>%t\<close>.\<close>

definition digit_char :: "nat \<Rightarrow> char" where
  "digit_char n = byte_of_nat (48 + n)"

fun show_nat :: "nat \<Rightarrow> string" where
  "show_nat n = (if n < 10 then [digit_char n] else show_nat (n div 10) @ [digit_char (n mod 10)])"

declare show_nat.simps [simp del]

definition hex_char :: "nat \<Rightarrow> char" where
  "hex_char n = (if n < 10 then byte_of_nat (48 + n) else byte_of_nat (87 + n))"

definition hex_encode :: "bytes \<Rightarrow> string" where
  "hex_encode b = concat (map (\<lambda>c. [hex_char (byte_val c div 16), hex_char (byte_val c mod 16)]) b)"

definition show_bool :: "bool \<Rightarrow> string" where
  "show_bool b = (if b then ''true'' else ''false'')"

fun Join :: "string list \<Rightarrow> string \<Rightarrow> string" where
  "Join [] sep = []"
| "Join [s] sep = s"
| "Join (s # t # ss) sep = s @ sep @ Join (t # ss) sep"

section \<open>Facts\<close>

lemma guard_eval:
  "fail_if False e = None" "fail_if True e = Some e" "or_err None b = b" "or_err (Some e) b = Some e"
  "check_res None r = r" "check_res (Some e) r = Inl e" "bind_res (Inr x) f = f x" "bind_res (Inl e) f = Inl e"
  by (simp_all add: fail_if_def or_err_def check_res_def bind_res_def)

lemma fail_if_None [simp, guard_simps]: "fail_if c e = None \<longleftrightarrow> \<not> c"
  by (simp add: fail_if_def)

lemma fail_if_Some [simp, guard_simps]: "fail_if c e = Some e' \<longleftrightarrow> c \<and> e' = e"
  by (auto simp: fail_if_def)

lemma or_err_None [simp, guard_simps]: "or_err a b = None \<longleftrightarrow> a = None \<and> b = None"
  by (cases a) (simp_all add: or_err_def)

lemma or_err_Some: "or_err a b = Some e \<longleftrightarrow> a = Some e \<or> (a = None \<and> b = Some e)"
  by (cases a) (auto simp: or_err_def)

lemma bind_res_Inr [simp, guard_simps]:
  "bind_res r f = Inr y \<longleftrightarrow> (\<exists>x. r = Inr x \<and> f x = Inr y)"
  by (cases r) (simp_all add: bind_res_def)

lemma bind_res_Inl: "bind_res r f = Inl e \<longleftrightarrow> r = Inl e \<or> (\<exists>x. r = Inr x \<and> f x = Inl e)"
  by (cases r) (simp_all add: bind_res_def)

lemma check_res_Inr [simp, guard_simps]: "check_res g r = Inr y \<longleftrightarrow> g = None \<and> r = Inr y"
  by (cases g) (simp_all add: check_res_def)

lemma check_res_Inl: "check_res g r = Inl e \<longleftrightarrow> g = Some e \<or> (g = None \<and> r = Inl e)"
  by (cases g) (auto simp: check_res_def)

lemma byte_val_less [simp]: "byte_val c < 256"
  unfolding byte_val_def by (rule nat_of_char_less_256)

lemma byte_val_of_nat [simp]: "n < 256 \<Longrightarrow> byte_val (byte_of_nat n) = n"
  by (simp add: byte_val_def byte_of_nat_def)

lemma byte_of_nat_val [simp]: "byte_of_nat (byte_val c) = c"
  by (simp add: byte_val_def byte_of_nat_def)

lemma byte_val_eq_iff: "byte_val c = byte_val d \<longleftrightarrow> c = d"
  by (metis byte_of_nat_val)

lemma byte_val_digit_char: "n < 10 \<Longrightarrow> byte_val (digit_char n) = 48 + n"
  unfolding digit_char_def by (rule byte_val_of_nat) linarith

lemma digit_char_inj: "m < 10 \<Longrightarrow> n < 10 \<Longrightarrow> digit_char m = digit_char n \<longleftrightarrow> m = n"
  by (metis byte_val_digit_char add_left_cancel)

lemma length_hex_encode [simp]: "length (hex_encode b) = 2 * length b"
  by (induction b) (simp_all add: hex_encode_def)

text \<open>Decimal printing is injective: the numbers in frame keys and digests are recoverable.\<close>

lemma show_nat_not_Nil [simp]: "show_nat n \<noteq> []" "[] \<noteq> show_nat n"
  by (subst show_nat.simps; simp)+

lemma show_nat_less_10: "n < 10 \<Longrightarrow> show_nat n = [digit_char n]"
  by (subst show_nat.simps) simp

lemma show_nat_ge_10: "\<not> n < 10 \<Longrightarrow> show_nat n = show_nat (n div 10) @ [digit_char (n mod 10)]"
  by (subst show_nat.simps) simp

lemma show_nat_inj [simp]: "show_nat m = show_nat n \<longleftrightarrow> m = n"
proof (induction m arbitrary: n rule: less_induct)
  case (less m)
  consider "m < 10" "n < 10" | "m < 10" "\<not> n < 10" | "\<not> m < 10" "n < 10"
    | "\<not> m < 10" "\<not> n < 10" by blast
  then show ?case
  proof cases
    case 4
    then have "m div 10 < m" by simp
    then have "show_nat (m div 10) = show_nat (n div 10) \<longleftrightarrow> m div 10 = n div 10"
      by (rule less.IH)
    moreover have "m = n \<longleftrightarrow> m div 10 = n div 10 \<and> m mod 10 = n mod 10"
      by (metis div_mult_mod_eq)
    ultimately show ?thesis
      using 4 by (simp add: show_nat_ge_10 digit_char_inj)
  qed (auto simp: show_nat_less_10 show_nat_ge_10 digit_char_inj)
qed

section \<open>Reading numbers and bytes\<close>

definition is_digit :: "char \<Rightarrow> bool" where
  "is_digit c \<longleftrightarrow> 48 \<le> byte_val c \<and> byte_val c \<le> 57"

definition digit_val :: "char \<Rightarrow> nat" where
  "digit_val c = byte_val c - 48"

definition digits_val :: "string \<Rightarrow> nat" where
  "digits_val s = foldl (\<lambda>n c. 10 * n + digit_val c) 0 s"

text \<open>\<open>new(big.Int).SetString(s, 10)\<close>: an optional sign and at least one digit.\<close>

definition parse_bigint :: "string \<Rightarrow> int option" where
  "parse_bigint s =
     (let neg = (s \<noteq> [] \<and> hd s = CHR ''-'');
          body = (if s \<noteq> [] \<and> (hd s = CHR ''-'' \<or> hd s = CHR ''+'') then tl s else s)
      in if body \<noteq> [] \<and> list_all is_digit body
         then Some (if neg then - int (digits_val body) else int (digits_val body)) else None)"

text \<open>\<open>big.Int.String\<close>.\<close>

definition show_int :: "int \<Rightarrow> string" where
  "show_int i = (if i < 0 then CHR ''-'' # show_nat (nat (- i)) else show_nat (nat i))"

text \<open>\<open>hex.DecodeString\<close> (either case) and big-endian \<open>FillBytes\<close>.\<close>

definition hex_val :: "char \<Rightarrow> nat option" where
  "hex_val c =
     (let n = byte_val c in
      if 48 \<le> n \<and> n \<le> 57 then Some (n - 48)
      else if 97 \<le> n \<and> n \<le> 102 then Some (n - 87)
      else if 65 \<le> n \<and> n \<le> 70 then Some (n - 55)
      else None)"

fun hex_decode :: "string \<Rightarrow> bytes option" where
  "hex_decode [] = Some []"
| "hex_decode [c] = None"
| "hex_decode (a # b # s) =
     (case (hex_val a, hex_val b, hex_decode s) of
        (Some x, Some y, Some r) \<Rightarrow> Some (byte_of_nat (16 * x + y) # r)
      | _ \<Rightarrow> None)"

fun be_bytes :: "nat \<Rightarrow> nat \<Rightarrow> bytes" where
  "be_bytes 0 n = []"
| "be_bytes (Suc k) n = be_bytes k (n div 256) @ [byte_of_nat (n mod 256)]"

definition be_val :: "bytes \<Rightarrow> nat" where
  "be_val b = foldl (\<lambda>n c. 256 * n + byte_val c) 0 b"

definition is_lower_hex :: "char \<Rightarrow> bool" where
  "is_lower_hex c \<longleftrightarrow> (48 \<le> byte_val c \<and> byte_val c \<le> 57) \<or> (97 \<le> byte_val c \<and> byte_val c \<le> 102)"

lemma length_be_bytes [simp]: "length (be_bytes k n) = k"
  by (induction k arbitrary: n) simp_all

lemma be_val_be_bytes: "n < 256 ^ k \<Longrightarrow> be_val (be_bytes k n) = n"
proof (induction k arbitrary: n)
  case (Suc k)
  then have "n div 256 < 256 ^ k" by (simp add: less_mult_imp_div_less mult.commute)
  with Suc.IH [OF this] show ?case by (simp add: be_val_def)
qed (simp add: be_val_def)

lemma hex_char_val:
  assumes "n < 16"
  shows "hex_val (hex_char n) = Some n" "is_lower_hex (hex_char n)"
proof -
  have "byte_val (hex_char n) = (if n < 10 then 48 + n else 87 + n)"
    using assms unfolding hex_char_def by (auto intro: byte_val_of_nat)
  then show "hex_val (hex_char n) = Some n" "is_lower_hex (hex_char n)"
    using assms by (auto simp: hex_val_def is_lower_hex_def Let_def split: if_splits)
qed

lemma hex_val_lower:
  assumes "is_lower_hex c"
  shows "\<exists>n<16. hex_val c = Some n \<and> hex_char n = c"
proof -
  define n where "n = (if byte_val c \<le> 57 then byte_val c - 48 else byte_val c - 87)"
  have "n < 16" "hex_val c = Some n"
    using assms by (auto simp: is_lower_hex_def hex_val_def n_def Let_def)
  moreover have "byte_val (hex_char n) = byte_val c"
  proof -
    have "byte_val (hex_char n) = (if n < 10 then 48 + n else 87 + n)"
      using \<open>n < 16\<close> unfolding hex_char_def by (auto intro: byte_val_of_nat)
    then show ?thesis using assms by (auto simp: is_lower_hex_def n_def)
  qed
  ultimately show ?thesis by (metis byte_val_eq_iff)
qed

lemma hex_decode_encode [simp]: "hex_decode (hex_encode b) = Some b"
proof (induction b)
  case (Cons c b)
  have "byte_val c div 16 < 16" using byte_val_less [of c] by linarith
  then show ?case using Cons by (simp add: hex_encode_def hex_char_val)
qed (simp add: hex_encode_def)

lemma hex_encode_decode:
  assumes "list_all is_lower_hex s" "hex_decode s = Some b"
  shows "hex_encode b = s"
  using assms
proof (induction s arbitrary: b rule: hex_decode.induct)
  case (3 a c s)
  obtain x y where xy: "x < 16" "hex_val a = Some x" "hex_char x = a"
      "y < 16" "hex_val c = Some y" "hex_char y = c"
    using 3(2) hex_val_lower [of a] hex_val_lower [of c] by auto
  moreover obtain r where r: "hex_decode s = Some r" "b = byte_of_nat (16 * x + y) # r"
    using 3(3) xy by (auto split: option.splits)
  moreover have "byte_val (byte_of_nat (16 * x + y)) = 16 * x + y"
    using xy by (intro byte_val_of_nat) linarith
  ultimately show ?case
    using 3 by (simp add: hex_encode_def)
qed (auto simp: hex_encode_def)

lemma length_hex_decode: "hex_decode s = Some b \<Longrightarrow> length s = 2 * length b"
  by (induction s arbitrary: b rule: hex_decode.induct) (auto split: option.splits)

text \<open>Arithmetic on \<open>int64\<close> wraps around.\<close>

definition wrap64 :: "int \<Rightarrow> int" where
  "wrap64 x = (x + 2 ^ 63) mod 2 ^ 64 - 2 ^ 63"

lemma wrap64_id: "- (2 ^ 63) \<le> x \<Longrightarrow> x < 2 ^ 63 \<Longrightarrow> wrap64 x = x"
  by (simp add: wrap64_def)

text \<open>Strings compare bytewise, as the operators of the language do.\<close>

fun str_less :: "string \<Rightarrow> string \<Rightarrow> bool" where
  "str_less _ [] = False"
| "str_less [] (_ # _) = True"
| "str_less (a # x) (b # y) = (byte_val a < byte_val b \<or> (a = b \<and> str_less x y))"

lemma str_less_irrefl [simp]: "\<not> str_less s s"
  by (induction s) auto

lemma str_less_trans: "str_less x y \<Longrightarrow> str_less y z \<Longrightarrow> str_less x z"
proof (induction x y arbitrary: z rule: str_less.induct)
  case (3 a x b y)
  then show ?case by (cases z) auto
next
  case (2 a x)
  then show ?case by (cases z) auto
qed simp

lemma str_less_linear: "str_less x y \<or> x = y \<or> str_less y x"
proof (induction x y rule: str_less.induct)
  case (1 x)
  then show ?case by (cases x) auto
next
  case (3 a x b y)
  have "byte_val a < byte_val b \<or> a = b \<or> byte_val b < byte_val a"
    unfolding byte_val_def using linorder_less_linear [of "of_char a :: nat" "of_char b"] by auto
  with 3 show ?case by auto
qed simp

text \<open>
  The decimal strings without redundant zeros are exactly the printed naturals.
  \<open>canonical_digits\<close> is the shape both \<open>canonicalUint\<close> and the pattern
  \<open>^(0|[1-9][0-9]*)$\<close> of the program test.
\<close>

definition canonical_digits :: "string \<Rightarrow> bool" where
  "canonical_digits s \<longleftrightarrow> s = ''0'' \<or>
     (s \<noteq> [] \<and> 49 \<le> byte_val (hd s) \<and> byte_val (hd s) \<le> 57 \<and> list_all is_digit (tl s))"

lemma is_digit_digit_char: "n < 10 \<Longrightarrow> is_digit (digit_char n)"
  by (simp add: is_digit_def byte_val_digit_char)

lemma digit_val_digit_char: "n < 10 \<Longrightarrow> digit_val (digit_char n) = n"
  by (simp add: digit_val_def byte_val_digit_char)

lemma digit_char_digit_val: "is_digit c \<Longrightarrow> digit_char (digit_val c) = c"
  unfolding is_digit_def digit_val_def digit_char_def by simp

lemma digit_char_0: "digit_char 0 = CHR ''0''"
  by code_simp

lemma digits_val_snoc [simp]: "digits_val (s @ [c]) = 10 * digits_val s + digit_val c"
  by (simp add: digits_val_def)

lemma digits_val_show_nat [simp]: "digits_val (show_nat n) = n"
proof (induction n rule: less_induct)
  case (less n)
  show ?case
  proof (cases "n < 10")
    case True
    then show ?thesis by (simp add: show_nat_less_10 digits_val_def digit_val_digit_char)
  next
    case False
    then have "n div 10 < n" by simp
    with less.IH [OF this] False show ?thesis by (simp add: show_nat_ge_10 digit_val_digit_char)
  qed
qed

lemma canonical_show_nat: "canonical_digits (show_nat n)"
proof (induction n rule: less_induct)
  case (less n)
  show ?case
  proof (cases "n < 10")
    case True
    have "n = 0 \<or> byte_val (digit_char n) = 48 + n \<and> 0 < n"
      using byte_val_digit_char [OF True] by auto
    then show ?thesis
      using True by (auto simp: show_nat_less_10 canonical_digits_def digit_char_0)
  next
    case False
    have "show_nat (n div 10) \<noteq> ''0''"
      using False show_nat_inj [of "n div 10" 0] by (simp add: show_nat_less_10 digit_char_0)
    moreover have "canonical_digits (show_nat (n div 10))" using less False by simp
    ultimately show ?thesis
      using False by (auto simp: show_nat_ge_10 canonical_digits_def is_digit_digit_char)
  qed
qed

lemma digits_val_pos:
  assumes "s \<noteq> []" "49 \<le> byte_val (hd s)"
  shows "0 < digits_val s"
  using assms
proof (induction s rule: rev_induct)
  case (snoc c s)
  then show ?case by (cases s) (auto simp: digits_val_def digit_val_def)
qed simp

lemma canonical_digits_show:
  assumes "canonical_digits s"
  shows "s = show_nat (digits_val s)"
proof (cases "s = ''0''")
  case True
  then show ?thesis by (simp add: digits_val_def digit_val_def byte_val_def show_nat_less_10 digit_char_0)
next
  case False
  with assms have s: "s \<noteq> []" "49 \<le> byte_val (hd s)" "byte_val (hd s) \<le> 57" "list_all is_digit (tl s)"
    by (simp_all add: canonical_digits_def)
  from s show ?thesis
  proof (induction s rule: rev_induct)
    case (snoc c s)
    show ?case
    proof (cases "s = []")
      case True
      then have c: "is_digit c" "digit_val c < 10" using snoc.prems by (auto simp: is_digit_def digit_val_def)
      have "digits_val [c] = digit_val c" by (simp add: digits_val_def)
      with True c show ?thesis by (simp add: show_nat_less_10 digit_char_digit_val)
    next
      case False
      then have c: "is_digit c" "digit_val c < 10" and ih: "s = show_nat (digits_val s)"
        using snoc by (auto simp: digit_val_def is_digit_def)
      have "0 < digits_val s" using digits_val_pos [of s] False snoc.prems by simp
      then have "show_nat (10 * digits_val s + digit_val c) = show_nat (digits_val s) @ [digit_char (digit_val c)]"
        using c by (subst show_nat_ge_10) auto
      with ih c show ?thesis by (simp add: digit_char_digit_val)
    qed
  qed simp
qed

lemma canonical_digits_iff: "canonical_digits s \<longleftrightarrow> (\<exists>n. s = show_nat n)"
  using canonical_digits_show canonical_show_nat by blast

lemma canonical_digits_digits:
  assumes "canonical_digits s"
  shows "s \<noteq> [] \<and> list_all is_digit s"
proof (cases "s = ''0''")
  case True
  then show ?thesis by (simp add: is_digit_def byte_val_def)
next
  case False
  with assms obtain c t where "s = c # t" "49 \<le> byte_val c" "byte_val c \<le> 57" "list_all is_digit t"
    by (cases s) (auto simp: canonical_digits_def)
  then show ?thesis by (simp add: is_digit_def)
qed

lemma is_digit_sign: "\<not> is_digit (CHR ''-'')" "\<not> is_digit (CHR ''+'')"
  by (simp_all add: is_digit_def byte_val_def)

lemma parse_bigint_canonical:
  assumes "canonical_digits s"
  shows "parse_bigint s = Some (int (digits_val s))"
proof -
  obtain c t where "s = c # t" "is_digit c" "list_all is_digit s"
    using canonical_digits_digits [OF assms] by (cases s) auto
  moreover from this have "c \<noteq> CHR ''-''" "c \<noteq> CHR ''+''" using is_digit_sign by auto
  ultimately show ?thesis by (simp add: parse_bigint_def Let_def)
qed

lemma parse_bigint_show_nat [simp]: "parse_bigint (show_nat n) = Some (int n)"
  using parse_bigint_canonical [OF canonical_show_nat] by simp

section \<open>Separated texts\<close>

lemma split_first:
  "c \<notin> set a \<Longrightarrow> c \<notin> set b \<Longrightarrow> a @ c # r = b @ c # r' \<longleftrightarrow> a = b \<and> r = r'"
proof (induction a arbitrary: b)
  case Nil
  then show ?case by (cases b) auto
next
  case (Cons x a)
  then show ?case by (cases b) auto
qed

lemma split_last:
  assumes "c \<notin> set n" "c \<notin> set n'"
  shows "m @ c # n = m' @ c # n' \<longleftrightarrow> m = m' \<and> n = n'"
proof -
  have "m @ c # n = m' @ c # n' \<longleftrightarrow> rev n @ c # rev m = rev n' @ c # rev m'"
    by (metis (no_types) append.assoc append_Cons append_Nil rev.simps(2) rev_append rev_rev_ident)
  then show ?thesis
    using split_first [of c "rev n" "rev n'" "rev m" "rev m'"] assms by auto
qed

lemma show_nat_digits: "c \<in> set (show_nat n) \<Longrightarrow> is_digit c"
  using canonical_digits_digits [OF canonical_show_nat [of n]] by (auto simp: list_all_iff)

lemma show_int_chars: "c \<in> set (show_int i) \<Longrightarrow> is_digit c \<or> c = CHR ''-''"
  by (auto simp: show_int_def dest: show_nat_digits split: if_splits)

lemma hex_encode_chars: "c \<in> set (hex_encode b) \<Longrightarrow> is_lower_hex c"
proof -
  have "is_lower_hex (hex_char n)" if "n < 16" for n
    using that by (auto simp: is_lower_hex_def hex_char_def)
  moreover have "byte_val x div 16 < 16" for x using byte_val_less [of x] by (simp add: div_less_iff_less_mult)
  ultimately show "c \<in> set (hex_encode b) \<Longrightarrow> is_lower_hex c" by (auto simp: hex_encode_def)
qed

text \<open>Evaluation of repeated characters.\<close>

lemma list_all_replicate: "list_all P (replicate n x) \<longleftrightarrow> n = 0 \<or> P x"
  by (auto simp: list_all_iff)

lemma hex_encode_replicate: "hex_encode (replicate n c) = concat (replicate n (hex_encode [c]))"
  by (induction n) (simp_all add: hex_encode_def)

end
