(* ===== verification/LocalRouter.thy ===== *)
theory LocalRouter
  imports Prelude
begin

text \<open>
  The in-process frame router (\<open>src/internal/localrouter\<close>). The first part is
  the frame validator of \<open>validation.go\<close> and its refinement of a log of accepted
  frames; the second part is the router of \<open>router.go\<close>, its operations at the
  granularity of its mutex and channel operations, and the step relation that
  interleaves them. SHA-256 is the parameter \<open>sha\<close>; relay metrics are left out.
\<close>

section \<open>Configuration, errors and validator state\<close>

record router_config =
  c_SessionID :: string
  c_PlatformPartyID :: string
  c_PrimaryPartyID :: string
  c_RecoveryPartyID :: string
  c_Stage :: string
  c_Protocol :: string

text \<open>
  An error returned by the network transport is \<^term>\<open>ErrNetwork\<close> with its text
  and the context error it wraps, if any; \<open>errors.Is\<close> looks through the wrapping.
\<close>

datatype router_err =
    ErrInvalidFrame
  | ErrDuplicateFrame
  | ErrFrameConflict
  | ErrUnsupportedParty
  | ErrRouterClosed
  | ErrQueueOverflow
  | ErrCtx ctx_err
  | ErrNetwork string "ctx_err option"
  | ErrNoNetwork
  | ErrIncompleteContext
  | ErrPartiesNotDistinct

record sequenceRecord =
  sr_messageID :: string
  sr_digest :: bytes

record frameValidator =
  v_config :: router_config
  v_seen :: "string \<rightharpoonup> bytes"
  v_maxSequence :: "string \<rightharpoonup> u64"
  v_sequenceOwner :: "string \<rightharpoonup> (u64 \<rightharpoonup> sequenceRecord)"

definition newFrameValidator :: "router_config \<Rightarrow> frameValidator" where
  "newFrameValidator config =
     \<lparr>v_config = config, v_seen = Map.empty, v_maxSequence = Map.empty,
      v_sequenceOwner = Map.empty\<rparr>"

section \<open>Validation of one frame\<close>

definition payloadHash :: "(bytes \<Rightarrow> bytes) \<Rightarrow> bytes \<Rightarrow> string" where
  "payloadHash sha payload = hex_encode (take 8 (sha payload))"

definition frameKey :: "frame \<Rightarrow> string" where
  "frameKey f =
     (let recipient = (if f_Broadcast f then ''*'' else f_ToParty f)
      in Join [f_SessionID f, f_FromParty f, recipient, f_MessageID f,
               show_nat (unat (f_Seq f))] ''|'')"

definition NUL :: string where
  "NUL = [CHR 0x00]"

definition frameDigest :: "(bytes \<Rightarrow> bytes) \<Rightarrow> frame \<Rightarrow> bytes" where
  "frameDigest sha f = sha (Join
     [f_SessionID f, f_Stage f, f_Protocol f, show_nat (unat (f_Seq f)),
      show_nat (unat (f_Round f)), show_nat (unat (f_RoundHint f)), show_bool (f_Broadcast f),
      f_FromParty f, f_ToParty f, f_MessageType f, f_PayloadHash f,
      f_DerivationContextHash f, hex_encode (f_Payload f)] NUL)"

definition frameSequenceDigest :: "(bytes \<Rightarrow> bytes) \<Rightarrow> frame \<Rightarrow> bytes" where
  "frameSequenceDigest sha f = sha (Join
     [f_SessionID f, f_Stage f, f_Protocol f, show_nat (unat (f_Seq f)),
      show_nat (unat (f_Round f)), show_nat (unat (f_RoundHint f)), show_bool (f_Broadcast f),
      f_FromParty f, f_MessageType f, f_PayloadHash f,
      f_DerivationContextHash f, hex_encode (f_Payload f)] NUL)"

definition validateRecipient :: "router_config \<Rightarrow> frame \<Rightarrow> router_err err" where
  "validateRecipient config f =
     (if f_Broadcast f then
        (if f_ToParty f \<noteq> '''' then Some ErrInvalidFrame else None)
      else if f_ToParty f = '''' \<or> f_ToParty f = f_FromParty f then Some ErrInvalidFrame
      else if f_ToParty f \<noteq> c_PlatformPartyID config \<and>
              f_ToParty f \<noteq> c_PrimaryPartyID config \<and>
              f_ToParty f \<noteq> c_RecoveryPartyID config then Some ErrInvalidFrame
      else None)"

text \<open>The checks of \<open>validateAndRecord\<close> that read nothing but the configuration.\<close>

definition frame_shape :: "(bytes \<Rightarrow> bytes) \<Rightarrow> router_config \<Rightarrow> frame \<Rightarrow> string \<Rightarrow> router_err err" where
  "frame_shape sha config f authenticatedSender =
     or_err (fail_if
       (f_SessionID f \<noteq> c_SessionID config \<or>
        f_Stage f \<noteq> c_Stage config \<or>
        \<not> EqualFold (f_Protocol f) (c_Protocol config) \<or>
        f_FromParty f \<noteq> authenticatedSender \<or>
        f_MessageID f = '''' \<or>
        f_Seq f = 0 \<or>
        (f_Round f = 0 \<and> f_RoundHint f = 0) \<or>
        length (f_Payload f) = 0) ErrInvalidFrame)
     (or_err (fail_if
       (f_Round f \<noteq> 0 \<and> f_RoundHint f \<noteq> 0 \<and> f_Round f \<noteq> f_RoundHint f) ErrInvalidFrame)
     (or_err (fail_if
       (f_PayloadHash f \<noteq> '''' \<and> f_PayloadHash f \<noteq> payloadHash sha (f_Payload f)) ErrInvalidFrame)
     (validateRecipient config f)))"

text \<open>Reading a Go map of \<open>uint64\<close>: a missing key is 0.\<close>

definition max_seq :: "frameValidator \<Rightarrow> string \<Rightarrow> u64" where
  "max_seq v p = (case v_maxSequence v p of None \<Rightarrow> 0 | Some s \<Rightarrow> s)"

definition validateAndRecord ::
  "(bytes \<Rightarrow> bytes) \<Rightarrow> frameValidator \<Rightarrow> frame \<Rightarrow> string \<Rightarrow> router_err err \<times> frameValidator" where
  "validateAndRecord sha v f authenticatedSender =
     (case frame_shape sha (v_config v) f authenticatedSender of
        Some e \<Rightarrow> (Some e, v)
      | None \<Rightarrow>
        (let from = f_FromParty f;
             owners = (case v_sequenceOwner v from of None \<Rightarrow> Map.empty | Some m \<Rightarrow> m);
             v1 = v\<lparr>v_sequenceOwner := (v_sequenceOwner v)(from \<mapsto> owners)\<rparr>;
             sequenceDigest = frameSequenceDigest sha f;
             key = frameKey f;
             digest = frameDigest sha f
         in if f_Seq f < max_seq v1 from then (Some ErrInvalidFrame, v1)
            else if (case owners (f_Seq f) of
                       None \<Rightarrow> False
                     | Some owner \<Rightarrow> sr_messageID owner \<noteq> f_MessageID f \<or>
                                     sr_digest owner \<noteq> sequenceDigest)
            then (Some ErrFrameConflict, v1)
            else (case v_seen v1 key of
                    Some previous \<Rightarrow>
                      (if previous \<noteq> digest then (Some ErrFrameConflict, v1)
                       else (Some ErrDuplicateFrame, v1))
                  | None \<Rightarrow>
                      (None, v1\<lparr>
                         v_seen := (v_seen v1)(key \<mapsto> digest),
                         v_sequenceOwner := (v_sequenceOwner v1)(from \<mapsto>
                           owners(f_Seq f \<mapsto> \<lparr>sr_messageID = f_MessageID f, sr_digest = sequenceDigest\<rparr>)),
                         v_maxSequence :=
                           (if f_Seq f > max_seq v1 from
                            then (v_maxSequence v1)(from \<mapsto> f_Seq f)
                            else v_maxSequence v1)\<rparr>))))"

text \<open>A sequence of frames, each with its authenticated sender, put through one validator.\<close>

fun validate_all ::
  "(bytes \<Rightarrow> bytes) \<Rightarrow> frameValidator \<Rightarrow> (frame \<times> string) list \<Rightarrow> router_err err list \<times> frameValidator" where
  "validate_all sha v [] = ([], v)"
| "validate_all sha v ((f, s) # fs) =
     (let (e, v1) = validateAndRecord sha v f s; (es, v2) = validate_all sha v1 fs
      in (e # es, v2))"

text \<open>The frames of such a sequence that were accepted, in order.\<close>

definition accepted_frames ::
  "(bytes \<Rightarrow> bytes) \<Rightarrow> frameValidator \<Rightarrow> (frame \<times> string) list \<Rightarrow> frame list" where
  "accepted_frames sha v fs =
     map (\<lambda>x. fst (fst x)) (filter (\<lambda>x. snd x = None) (zip fs (fst (validate_all sha v fs))))"

section \<open>Specification: a log of accepted frames\<close>

text \<open>
  What the validator's three maps are for, said over the list of the frames
  accepted so far (newest first).
\<close>

definition log_verdict ::
  "(bytes \<Rightarrow> bytes) \<Rightarrow> router_config \<Rightarrow> frame list \<Rightarrow> frame \<Rightarrow> string \<Rightarrow> router_err err" where
  "log_verdict sha config log f s =
     or_err (frame_shape sha config f s)
     (or_err (fail_if (\<exists>g\<in>set log. f_FromParty g = f_FromParty f \<and> f_Seq f < f_Seq g) ErrInvalidFrame)
     (or_err (fail_if (\<exists>g\<in>set log. f_FromParty g = f_FromParty f \<and> f_Seq g = f_Seq f \<and>
                (f_MessageID g \<noteq> f_MessageID f \<or>
                 frameSequenceDigest sha g \<noteq> frameSequenceDigest sha f)) ErrFrameConflict)
     (or_err (fail_if (\<exists>g\<in>set log. frameKey g = frameKey f \<and>
                frameDigest sha g \<noteq> frameDigest sha f) ErrFrameConflict)
     (fail_if (\<exists>g\<in>set log. frameKey g = frameKey f) ErrDuplicateFrame))))"

definition log_step ::
  "(bytes \<Rightarrow> bytes) \<Rightarrow> router_config \<Rightarrow> frame list \<Rightarrow> frame \<Rightarrow> string \<Rightarrow> frame list" where
  "log_step sha config log f s = (if log_verdict sha config log f s = None then f # log else log)"

fun log_all ::
  "(bytes \<Rightarrow> bytes) \<Rightarrow> router_config \<Rightarrow> frame list \<Rightarrow> (frame \<times> string) list \<Rightarrow> router_err err list \<times> frame list" where
  "log_all sha config log [] = ([], log)"
| "log_all sha config log ((f, s) # fs) =
     (let (es, log') = log_all sha config (log_step sha config log f s) fs
      in (log_verdict sha config log f s # es, log'))"

text \<open>What acceptance guarantees about the log itself.\<close>

fun log_ok :: "(bytes \<Rightarrow> bytes) \<Rightarrow> frame list \<Rightarrow> bool" where
  "log_ok sha [] = True"
| "log_ok sha (f # log) =
     ((\<forall>g\<in>set log. frameKey g \<noteq> frameKey f \<and>
        (f_FromParty g = f_FromParty f \<longrightarrow>
           f_Seq g \<le> f_Seq f \<and>
           (f_Seq g = f_Seq f \<longrightarrow> f_MessageID g = f_MessageID f \<and>
              frameSequenceDigest sha g = frameSequenceDigest sha f)))
      \<and> log_ok sha log)"

definition owner_of :: "frameValidator \<Rightarrow> string \<Rightarrow> u64 \<Rightarrow> sequenceRecord option" where
  "owner_of v p s = (case v_sequenceOwner v p of None \<Rightarrow> None | Some m \<Rightarrow> m s)"

definition validator_abs :: "(bytes \<Rightarrow> bytes) \<Rightarrow> frameValidator \<Rightarrow> frame list \<Rightarrow> bool" where
  "validator_abs sha v log \<longleftrightarrow>
     log_ok sha log \<and>
     v_seen v = map_of (map (\<lambda>g. (frameKey g, frameDigest sha g)) log) \<and>
     (\<forall>g\<in>set log. f_Seq g \<le> max_seq v (f_FromParty g)) \<and>
     (\<forall>p. max_seq v p = 0 \<or> (\<exists>g\<in>set log. f_FromParty g = p \<and> f_Seq g = max_seq v p)) \<and>
     (\<forall>p s. owner_of v p s =
        map_option (\<lambda>g. \<lparr>sr_messageID = f_MessageID g, sr_digest = frameSequenceDigest sha g\<rparr>)
          (find (\<lambda>g. f_FromParty g = p \<and> f_Seq g = s) log))"

section \<open>The validator refines the log\<close>

lemma find_cong_member:
  assumes "\<forall>x\<in>set xs. P x \<longrightarrow> f x = a" "\<exists>x\<in>set xs. P x"
  shows "map_option f (find P xs) = Some a"
  using assms by (induction xs) auto

lemma find_none_iff: "find P xs = None \<longleftrightarrow> (\<forall>x\<in>set xs. \<not> P x)"
  by (induction xs) auto

lemma find_some_member: "find P xs = Some x \<Longrightarrow> x \<in> set xs \<and> P x"
  by (induction xs) (auto split: if_splits)

lemma log_ok_same_seq:
  assumes "log_ok sha log" "g \<in> set log" "h \<in> set log"
    and "f_FromParty g = f_FromParty h" "f_Seq g = f_Seq h"
  shows "f_MessageID g = f_MessageID h \<and> frameSequenceDigest sha g = frameSequenceDigest sha h"
  using assms by (induction log) auto

lemma log_ok_keys: "log_ok sha log \<Longrightarrow> distinct (map frameKey log)"
  by (induction log) (auto simp: image_iff)

lemma log_ok_step: "log_ok sha log \<Longrightarrow> log_ok sha (log_step sha config log f s)"
  by (auto simp: log_step_def log_verdict_def not_less)

lemma validator_abs_new [simp]: "validator_abs sha (newFrameValidator config) []"
  by (simp add: validator_abs_def newFrameValidator_def max_seq_def owner_of_def)

lemma validator_absD:
  assumes "validator_abs sha v log"
  shows abs_log_ok: "log_ok sha log"
    and abs_seen_map: "v_seen v = map_of (map (\<lambda>g. (frameKey g, frameDigest sha g)) log)"
    and abs_max_bound: "g \<in> set log \<Longrightarrow> f_Seq g \<le> max_seq v (f_FromParty g)"
    and abs_max_hit: "max_seq v p \<noteq> 0 \<Longrightarrow> \<exists>g\<in>set log. f_FromParty g = p \<and> f_Seq g = max_seq v p"
    and abs_owner: "owner_of v p x =
        map_option (\<lambda>g. \<lparr>sr_messageID = f_MessageID g, sr_digest = frameSequenceDigest sha g\<rparr>)
          (find (\<lambda>g. f_FromParty g = p \<and> f_Seq g = x) log)"
  using assms unfolding validator_abs_def by blast+

lemma abs_below_max:
  assumes "validator_abs sha v log"
  shows "x < max_seq v p \<longleftrightarrow> (\<exists>g\<in>set log. f_FromParty g = p \<and> x < f_Seq g)"
proof
  assume x: "x < max_seq v p"
  then have "max_seq v p \<noteq> 0" by auto
  from abs_max_hit [OF assms this] x show "\<exists>g\<in>set log. f_FromParty g = p \<and> x < f_Seq g" by auto
next
  assume "\<exists>g\<in>set log. f_FromParty g = p \<and> x < f_Seq g"
  then obtain g where "g \<in> set log" "f_FromParty g = p" "x < f_Seq g" by blast
  with abs_max_bound [OF assms, of g] show "x < max_seq v p" by simp
qed

lemma abs_owner_conflict:
  assumes "validator_abs sha v log"
  shows "(case owner_of v p x of None \<Rightarrow> False
          | Some owner \<Rightarrow> sr_messageID owner \<noteq> m \<or> sr_digest owner \<noteq> d) \<longleftrightarrow>
     (\<exists>g\<in>set log. f_FromParty g = p \<and> f_Seq g = x \<and>
        (f_MessageID g \<noteq> m \<or> frameSequenceDigest sha g \<noteq> d))"
proof (cases "find (\<lambda>g. f_FromParty g = p \<and> f_Seq g = x) log")
  case None
  then have "\<forall>g\<in>set log. \<not> (f_FromParty g = p \<and> f_Seq g = x)"
    by (simp only: find_none_iff)
  with None show ?thesis
    unfolding abs_owner [OF assms] by auto
next
  case (Some h)
  then have h: "h \<in> set log" "f_FromParty h = p" "f_Seq h = x"
    by (auto dest: find_some_member)
  have same: "f_MessageID g = f_MessageID h \<and> frameSequenceDigest sha g = frameSequenceDigest sha h"
    if "g \<in> set log" "f_FromParty g = p" "f_Seq g = x" for g
    using log_ok_same_seq [OF abs_log_ok [OF assms], of g h] that h by simp
  have o: "owner_of v p x = Some \<lparr>sr_messageID = f_MessageID h, sr_digest = frameSequenceDigest sha h\<rparr>"
    unfolding abs_owner [OF assms] Some by simp
  show ?thesis
  proof
    assume "case owner_of v p x of None \<Rightarrow> False
      | Some owner \<Rightarrow> sr_messageID owner \<noteq> m \<or> sr_digest owner \<noteq> d"
    with h show "\<exists>g\<in>set log. f_FromParty g = p \<and> f_Seq g = x \<and>
        (f_MessageID g \<noteq> m \<or> frameSequenceDigest sha g \<noteq> d)"
      by (intro bexI [of _ h]) (simp_all add: o)
  next
    assume "\<exists>g\<in>set log. f_FromParty g = p \<and> f_Seq g = x \<and>
        (f_MessageID g \<noteq> m \<or> frameSequenceDigest sha g \<noteq> d)"
    then obtain g where g: "g \<in> set log" "f_FromParty g = p" "f_Seq g = x"
      "f_MessageID g \<noteq> m \<or> frameSequenceDigest sha g \<noteq> d" by blast
    from same [OF g(1-3)] g(4) show "case owner_of v p x of None \<Rightarrow> False
      | Some owner \<Rightarrow> sr_messageID owner \<noteq> m \<or> sr_digest owner \<noteq> d"
      by (simp add: o)
  qed
qed

lemma abs_seen:
  assumes "validator_abs sha v log"
  shows "v_seen v k = None \<longleftrightarrow> (\<forall>g\<in>set log. frameKey g \<noteq> k)"
    and "v_seen v k = Some d \<longleftrightarrow> (\<exists>g\<in>set log. frameKey g = k \<and> frameDigest sha g = d)"
proof -
  let ?l = "map (\<lambda>g. (frameKey g, frameDigest sha g)) log"
  have dist: "distinct (map fst ?l)"
    using log_ok_keys [OF abs_log_ok [OF assms]] by (simp add: comp_def)
  show "v_seen v k = None \<longleftrightarrow> (\<forall>g\<in>set log. frameKey g \<noteq> k)"
    unfolding abs_seen_map [OF assms] map_of_eq_None_iff by (auto simp: image_image)
  show "v_seen v k = Some d \<longleftrightarrow> (\<exists>g\<in>set log. frameKey g = k \<and> frameDigest sha g = d)"
    unfolding abs_seen_map [OF assms] map_of_eq_Some_iff [OF dist] by auto
qed

text \<open>A rejected frame leaves every observation of the validator as it was.\<close>

definition same_observations :: "frameValidator \<Rightarrow> frameValidator \<Rightarrow> bool" where
  "same_observations v w \<longleftrightarrow> v_config w = v_config v \<and> v_seen w = v_seen v \<and>
     (\<forall>p. max_seq w p = max_seq v p) \<and> (\<forall>p s. owner_of w p s = owner_of v p s)"

lemma same_observations_refl [simp]: "same_observations v v"
  by (simp add: same_observations_def)

lemma same_observations_touch:
  "same_observations v (v\<lparr>v_sequenceOwner := (v_sequenceOwner v)(p \<mapsto>
     (case v_sequenceOwner v p of None \<Rightarrow> Map.empty | Some m \<Rightarrow> m))\<rparr>)"
  by (auto simp: same_observations_def max_seq_def owner_of_def split: option.splits)

lemma same_observations_abs:
  "same_observations v w \<Longrightarrow> validator_abs sha w log \<longleftrightarrow> validator_abs sha v log"
  by (simp add: same_observations_def validator_abs_def)

lemma owners_lookup:
  "(case v_sequenceOwner v p of None \<Rightarrow> Map.empty | Some m \<Rightarrow> m) x = owner_of v p x"
  by (simp add: owner_of_def split: option.splits)

lemma validateAndRecord_fst:
  "fst (validateAndRecord sha v f s) =
     or_err (frame_shape sha (v_config v) f s)
     (or_err (fail_if (f_Seq f < max_seq v (f_FromParty f)) ErrInvalidFrame)
     (or_err (fail_if (case owner_of v (f_FromParty f) (f_Seq f) of None \<Rightarrow> False
                | Some owner \<Rightarrow> sr_messageID owner \<noteq> f_MessageID f \<or>
                    sr_digest owner \<noteq> frameSequenceDigest sha f) ErrFrameConflict)
     (case v_seen v (frameKey f) of None \<Rightarrow> None
      | Some d \<Rightarrow> Some (if d \<noteq> frameDigest sha f then ErrFrameConflict else ErrDuplicateFrame))))"
proof -
  have mx: "max_seq (v\<lparr>v_sequenceOwner := m\<rparr>) p = max_seq v p" for m p
    by (simp add: max_seq_def)
  show ?thesis
    unfolding validateAndRecord_def Let_def owners_lookup mx
    by (simp add: or_err_def fail_if_def split: option.split)
qed

lemma seen_verdict:
  assumes "validator_abs sha v log"
  shows "or_err (fail_if (\<exists>g\<in>set log. frameKey g = frameKey f \<and> frameDigest sha g \<noteq> frameDigest sha f) ErrFrameConflict)
       (fail_if (\<exists>g\<in>set log. frameKey g = frameKey f) ErrDuplicateFrame) =
     (case v_seen v (frameKey f) of None \<Rightarrow> None
      | Some d \<Rightarrow> Some (if d \<noteq> frameDigest sha f then ErrFrameConflict else ErrDuplicateFrame))"
proof (cases "v_seen v (frameKey f)")
  case None
  then show ?thesis
    using abs_seen(1) [OF assms, of "frameKey f"] by (auto simp: or_err_def fail_if_def)
next
  case (Some d)
  then obtain g where "g \<in> set log" "frameKey g = frameKey f"
    using abs_seen(2) [OF assms] by blast
  moreover have "frameDigest sha h = d" if "h \<in> set log" "frameKey h = frameKey f" for h
    using abs_seen(2) [OF assms, of "frameKey f" "frameDigest sha h"] Some that by auto
  ultimately show ?thesis
    using Some by (auto simp: or_err_def fail_if_def)
qed

lemma validate_verdict:
  assumes "validator_abs sha v log"
  shows "fst (validateAndRecord sha v f s) = log_verdict sha (v_config v) log f s"
  unfolding validateAndRecord_fst log_verdict_def seen_verdict [OF assms]
    abs_below_max [OF assms] abs_owner_conflict [OF assms] ..

lemma validate_rejects_unchanged:
  assumes "validateAndRecord sha v f s = (Some e, v')"
  shows "same_observations v v'"
  using assms same_observations_touch [of v "f_FromParty f"]
  by (auto simp: validateAndRecord_def Let_def split: option.splits if_splits)

lemma validate_accepts_state:
  assumes "fst (validateAndRecord sha v f s) = None"
  shows "snd (validateAndRecord sha v f s) =
    v\<lparr>v_seen := (v_seen v)(frameKey f \<mapsto> frameDigest sha f),
      v_sequenceOwner := (v_sequenceOwner v)(f_FromParty f \<mapsto>
        (case v_sequenceOwner v (f_FromParty f) of None \<Rightarrow> Map.empty | Some m \<Rightarrow> m)
          (f_Seq f \<mapsto> \<lparr>sr_messageID = f_MessageID f, sr_digest = frameSequenceDigest sha f\<rparr>)),
      v_maxSequence := (if f_Seq f > max_seq v (f_FromParty f)
        then (v_maxSequence v)(f_FromParty f \<mapsto> f_Seq f) else v_maxSequence v)\<rparr>"
proof -
  have mx: "max_seq (v\<lparr>v_sequenceOwner := m\<rparr>) p = max_seq v p" for m p
    by (simp add: max_seq_def)
  show ?thesis
    using assms unfolding validateAndRecord_def Let_def mx
    by (simp split: option.splits if_splits)
qed

lemma accept_observations:
  assumes "validateAndRecord sha v f s = (None, v')"
  shows "v_config v' = v_config v"
    and "v_seen v' = (v_seen v)(frameKey f \<mapsto> frameDigest sha f)"
    and "max_seq v' p = (if p = f_FromParty f then f_Seq f else max_seq v p)"
    and "owner_of v' p x = (if p = f_FromParty f \<and> x = f_Seq f
           then Some \<lparr>sr_messageID = f_MessageID f, sr_digest = frameSequenceDigest sha f\<rparr>
           else owner_of v p x)"
proof -
  have st: "v' = snd (validateAndRecord sha v f s)" and ok: "fst (validateAndRecord sha v f s) = None"
    using assms by simp_all
  have ge: "max_seq v (f_FromParty f) \<le> f_Seq f"
    using ok unfolding validateAndRecord_fst by (simp add: not_less)
  note st [unfolded validate_accepts_state [OF ok]]
  then show "v_config v' = v_config v"
    and "v_seen v' = (v_seen v)(frameKey f \<mapsto> frameDigest sha f)"
    and "max_seq v' p = (if p = f_FromParty f then f_Seq f else max_seq v p)"
    and "owner_of v' p x = (if p = f_FromParty f \<and> x = f_Seq f
           then Some \<lparr>sr_messageID = f_MessageID f, sr_digest = frameSequenceDigest sha f\<rparr>
           else owner_of v p x)"
    using ge by (auto simp: max_seq_def owner_of_def split: option.splits)
qed

lemma accept_abs:
  assumes abs: "validator_abs sha v log" and acc: "validateAndRecord sha v f s = (None, v')"
  shows "validator_abs sha v' (f # log)"
proof -
  have verdict: "log_verdict sha (v_config v) log f s = None"
    using validate_verdict [OF abs, of f s] acc by simp
  then have ok: "log_ok sha (f # log)"
    using log_ok_step [OF abs_log_ok [OF abs], of "v_config v" f s] by (simp add: log_step_def)
  have "f_Seq g \<le> max_seq v' (f_FromParty g)" if "g \<in> set (f # log)" for g
    using that ok abs_max_bound [OF abs, of g] by (auto simp: accept_observations(3) [OF acc])
  moreover have "max_seq v' p = 0 \<or> (\<exists>g\<in>set (f # log). f_FromParty g = p \<and> f_Seq g = max_seq v' p)" for p
    using abs_max_hit [OF abs, of p] by (auto simp: accept_observations(3) [OF acc])
  ultimately show ?thesis
    using ok unfolding validator_abs_def accept_observations(2,4) [OF acc] abs_seen_map [OF abs]
    by (auto simp: abs_owner [OF abs])
qed

lemma validateAndRecord_config: "v_config (snd (validateAndRecord sha v f s)) = v_config v"
proof (cases "validateAndRecord sha v f s")
  case (Pair e v')
  then show ?thesis
    using validate_rejects_unchanged [of sha v f s _ v'] accept_observations(1) [of sha v f s v']
    by (cases e) (auto simp: same_observations_def)
qed

lemma validate_step_abs:
  assumes "validator_abs sha v log"
  shows "validator_abs sha (snd (validateAndRecord sha v f s)) (log_step sha (v_config v) log f s)"
proof (cases "validateAndRecord sha v f s")
  case (Pair e v')
  then show ?thesis
    using validate_verdict [OF assms, of f s] accept_abs [OF assms, of f s v']
      same_observations_abs [OF validate_rejects_unchanged, of sha v f s _ v' sha log] assms
    by (cases e) (auto simp: log_step_def)
qed

lemma validate_all_log:
  assumes "validator_abs sha v log"
  shows "fst (validate_all sha v fs) = fst (log_all sha (v_config v) log fs) \<and>
    validator_abs sha (snd (validate_all sha v fs)) (snd (log_all sha (v_config v) log fs))"
  using assms
proof (induction fs arbitrary: v log)
  case (Cons x fs)
  obtain f s where x: "x = (f, s)" by (cases x)
  show ?case
    using Cons.IH [OF validate_step_abs [OF Cons.prems, of f s]] validate_verdict [OF Cons.prems, of f s]
    by (simp add: x validateAndRecord_config split: prod.split) (metis fst_conv snd_conv)
qed simp

lemma length_log_all [simp]: "length (fst (log_all sha config log fs)) = length fs"
  by (induction fs arbitrary: log) (auto simp: case_prod_unfold Let_def)

lemma accepted_log_all:
  "map (\<lambda>x. fst (fst x)) (filter (\<lambda>x. snd x = None) (zip fs (fst (log_all sha config log fs)))) =
     rev (take (length (snd (log_all sha config log fs)) - length log) (snd (log_all sha config log fs)))
   \<and> (\<exists>new. snd (log_all sha config log fs) = new @ log)"
proof (induction fs arbitrary: log)
  case (Cons x fs)
  obtain f s where x: "x = (f, s)" by (cases x)
  obtain es log' where r: "log_all sha config (log_step sha config log f s) fs = (es, log')"
    by fastforce
  from Cons.IH [of "log_step sha config log f s"] obtain new
    where new: "log' = new @ log_step sha config log f s"
      and acc: "map (\<lambda>x. fst (fst x)) (filter (\<lambda>x. snd x = None) (zip fs es)) = rev new"
    by (auto simp: r)
  show ?case
  proof (cases "log_verdict sha config log f s")
    case None
    then have "log' = (new @ [f]) @ log" using new by (simp add: log_step_def)
    then show ?thesis using None acc by (simp add: x r)
  next
    case (Some e)
    then have "log' = new @ log" using new by (simp add: log_step_def)
    then show ?thesis using Some acc r by (simp add: x log_step_def)
  qed
qed simp

lemma accepted_frames_log:
  "accepted_frames sha (newFrameValidator config) fs = rev (snd (log_all sha config [] fs))"
  using validate_all_log [OF validator_abs_new, of sha config fs] accepted_log_all [of fs sha config "[]"]
  by (auto simp: accepted_frames_def newFrameValidator_def)

lemma log_all_ok: "log_ok sha log \<Longrightarrow> log_ok sha (snd (log_all sha config log fs))"
proof (induction fs arbitrary: log)
  case (Cons x fs)
  then show ?case
    using log_ok_step [OF Cons.prems, of config "fst x" "snd x"]
    by (cases x) (simp add: case_prod_unfold Let_def)
qed simp

lemma log_ok_nth:
  assumes "log_ok sha log" "i < j" "j < length log"
  shows "frameKey (log ! j) \<noteq> frameKey (log ! i)"
    and "f_FromParty (log ! j) = f_FromParty (log ! i) \<Longrightarrow> f_Seq (log ! j) \<le> f_Seq (log ! i)"
    and "f_FromParty (log ! j) = f_FromParty (log ! i) \<Longrightarrow> f_Seq (log ! j) = f_Seq (log ! i) \<Longrightarrow>
      f_MessageID (log ! j) = f_MessageID (log ! i) \<and>
      frameSequenceDigest sha (log ! j) = frameSequenceDigest sha (log ! i)"
  using assms by (induction log arbitrary: i j; force simp: less_Suc_eq_0_disj nth_Cons')+

section \<open>Frame keys\<close>

text \<open>
  \<open>frameKey\<close> joins its parts with a separator that none of them escapes. Within
  one session the key still determines sender, recipient, message id and
  sequence as long as no party id contains the separator, whatever the message
  id contains.
\<close>

definition recipient_of :: "frame \<Rightarrow> string" where
  "recipient_of f = (if f_Broadcast f then ''*'' else f_ToParty f)"

definition no_pipe :: "string \<Rightarrow> bool" where
  "no_pipe s \<longleftrightarrow> CHR ''|'' \<notin> set s"

lemma digit_char_range: "n < 10 \<Longrightarrow> digit_char n \<noteq> CHR ''|''"
proof
  assume "n < 10" "digit_char n = CHR ''|''"
  then have "byte_val (CHR ''|'') = 48 + n" using byte_val_digit_char by metis
  then show False using \<open>n < 10\<close> by (simp add: byte_val_def)
qed

lemma no_pipe_show_nat [simp]: "CHR ''|'' \<notin> set (show_nat n)"
proof (induction n rule: less_induct)
  case (less n)
  then show ?case
    using digit_char_range [of n] digit_char_range [of "n mod 10"]
    by (cases "n < 10") (auto simp: show_nat_less_10 show_nat_ge_10)
qed

lemma frameKey_inj:
  assumes "frameKey f = frameKey g" "f_SessionID f = f_SessionID g"
    and "no_pipe (f_FromParty f)" "no_pipe (f_FromParty g)"
    and "no_pipe (recipient_of f)" "no_pipe (recipient_of g)"
  shows "f_FromParty f = f_FromParty g \<and> recipient_of f = recipient_of g \<and>
    f_MessageID f = f_MessageID g \<and> f_Seq f = f_Seq g"
  using assms
  by (simp add: frameKey_def Let_def no_pipe_def split_first split_last word_unat_eq_iff
      flip: recipient_of_def)

lemma log_verdict_shape: "log_verdict sha config log f s = None \<Longrightarrow> frame_shape sha config f s = None"
  by (simp add: log_verdict_def)

lemma log_all_shaped:
  assumes "\<forall>g\<in>set log. \<exists>s\<in>S. frame_shape sha config g s = None" "snd ` set fs \<subseteq> S"
  shows "\<forall>g\<in>set (snd (log_all sha config log fs)). \<exists>s\<in>S. frame_shape sha config g s = None"
  using assms
proof (induction fs arbitrary: log)
  case (Cons x fs)
  have "\<forall>g\<in>set (log_step sha config log (fst x) (snd x)). \<exists>s\<in>S. frame_shape sha config g s = None"
    using Cons.prems log_verdict_shape [of sha config log "fst x" "snd x"] by (auto simp: log_step_def)
  with Cons.IH [OF this] Cons.prems show ?case
    by (cases x) (simp add: case_prod_unfold Let_def)
qed simp

lemma frame_shape_route:
  assumes "frame_shape sha config f s = None"
  shows "f_SessionID f = c_SessionID config" "f_FromParty f = s"
    and "recipient_of f \<in> {''*'', c_PlatformPartyID config, c_PrimaryPartyID config, c_RecoveryPartyID config}"
    and "f_Broadcast f \<Longrightarrow> f_ToParty f = ''''"
    and "\<not> f_Broadcast f \<Longrightarrow> f_ToParty f \<noteq> s"
  using assms by (auto simp: frame_shape_def validateRecipient_def recipient_of_def split: if_splits)

definition pipe_free_config :: "router_config \<Rightarrow> bool" where
  "pipe_free_config config \<longleftrightarrow> no_pipe (c_PlatformPartyID config) \<and>
     no_pipe (c_PrimaryPartyID config) \<and> no_pipe (c_RecoveryPartyID config)"

lemma shaped_no_pipe:
  "frame_shape sha config f s = None \<Longrightarrow> pipe_free_config config \<Longrightarrow> no_pipe (recipient_of f)"
  using frame_shape_route(3) [of sha config f s] by (auto simp: pipe_free_config_def no_pipe_def)

lemma log_frame_properties:
  assumes "g \<in> set (snd (log_all sha config [] fs))" "pipe_free_config config"
    and "\<forall>p\<in>set fs. no_pipe (snd p)"
  shows "f_SessionID g = c_SessionID config \<and> no_pipe (f_FromParty g) \<and> no_pipe (recipient_of g)"
proof -
  from log_all_shaped [of "[]" "snd ` set fs" sha config fs] assms(1)
  obtain p where "p \<in> set fs" and s: "frame_shape sha config g (snd p) = None" by auto
  with assms frame_shape_route(1,2) [OF s] shaped_no_pipe [OF s] show ?thesis by auto
qed

section \<open>Properties of the validator\<close>

text \<open>
  C7. For every configuration and every sequence of frames with their
  authenticated senders, the verdicts of the validator with its three hash maps
  are exactly those of the specification that looks at the list of all frames
  accepted so far: stale sequence, sequence reuse with other content, key reuse
  with another digest, exact repetition.
\<close>

theorem validator_refines_log:
  "fst (validate_all sha (newFrameValidator config) fs) = fst (log_all sha config [] fs)"
  using validate_all_log [OF validator_abs_new, of sha config fs]
  by (simp add: newFrameValidator_def)

text \<open>
  C8. Of two frames accepted in one session, the later one has another frame
  key; when both come from one sender its sequence number is not smaller, and
  when the sequence numbers are equal the message id and the digest of
  everything but the recipient are equal too (a sender cannot equivocate).
\<close>

theorem accepted_frames_ordered:
  assumes "i < j" "j < length (accepted_frames sha (newFrameValidator config) fs)"
  shows "let acc = accepted_frames sha (newFrameValidator config) fs; f = acc ! i; g = acc ! j
    in frameKey f \<noteq> frameKey g \<and>
      (f_FromParty f = f_FromParty g \<longrightarrow> f_Seq f \<le> f_Seq g \<and>
        (f_Seq f = f_Seq g \<longrightarrow> f_MessageID f = f_MessageID g \<and>
          frameSequenceDigest sha f = frameSequenceDigest sha g))"
proof -
  let ?log = "snd (log_all sha config [] fs)" and ?n = "length (snd (log_all sha config [] fs))"
  have ok: "log_ok sha ?log" by (rule log_all_ok) simp
  have idx: "?n - Suc j < ?n - Suc i" "?n - Suc i < ?n"
    using assms by (simp_all add: accepted_frames_log)
  then show ?thesis
    using log_ok_nth [OF ok idx] assms by (auto simp: accepted_frames_log rev_nth Let_def)
qed

text \<open>
  No false rejection: when no party id contains the key separator, a
  well-shaped frame whose sequence number is above every sequence number
  accepted from its sender is accepted, whatever else was received before.
\<close>

theorem fresh_frame_accepted:
  assumes "pipe_free_config config" "\<forall>p\<in>set fs. no_pipe (snd p)" "no_pipe s"
    and "frame_shape sha config f s = None"
    and "\<forall>g\<in>set (accepted_frames sha (newFrameValidator config) fs).
      f_FromParty g = f_FromParty f \<longrightarrow> f_Seq g < f_Seq f"
  shows "fst (validateAndRecord sha (snd (validate_all sha (newFrameValidator config) fs)) f s) = None"
proof -
  let ?log = "snd (log_all sha config [] fs)"
  have abs: "validator_abs sha (snd (validate_all sha (newFrameValidator config) fs)) ?log"
    using validate_all_log [OF validator_abs_new, of sha config fs] by (simp add: newFrameValidator_def)
  have cfg: "v_config (snd (validate_all sha v fs)) = v_config v" for v
    by (induction fs arbitrary: v) (auto simp: case_prod_unfold Let_def validateAndRecord_config)
  have seqs: "\<forall>g\<in>set ?log. f_FromParty g = f_FromParty f \<longrightarrow> f_Seq g < f_Seq f"
    using assms(5) by (simp add: accepted_frames_log)
  have "frameKey g \<noteq> frameKey f" if "g \<in> set ?log" for g
    using frameKey_inj [of g f] log_frame_properties [OF that assms(1,2)] seqs that assms(3)
      frame_shape_route(1,2) [OF assms(4)] shaped_no_pipe [OF assms(4,1)] by auto
  then show ?thesis
    using seqs assms(4) unfolding validate_verdict [OF abs] cfg
    by (auto simp: log_verdict_def newFrameValidator_def not_less)
qed

text \<open>A concrete session for the witnesses: one frame to the platform, one broadcast, one replay.\<close>

definition ex_config :: router_config where
  "ex_config = \<lparr>c_SessionID = ''s1'', c_PlatformPartyID = ''mpc-signer'',
     c_PrimaryPartyID = ''p1'', c_RecoveryPartyID = ''p2'', c_Stage = ''dkg'', c_Protocol = ''ecdsa''\<rparr>"

definition ex_frame :: "string \<Rightarrow> u64 \<Rightarrow> string \<Rightarrow> string \<Rightarrow> frame" where
  "ex_frame mid seq from to = \<lparr>f_SessionID = ''s1'', f_MessageID = mid, f_Stage = ''dkg'',
     f_Protocol = ''ECDSA'', f_Seq = seq, f_Round = 1, f_RoundHint = 0, f_Broadcast = (to = ''''),
     f_FromParty = from, f_ToParty = to, f_MessageType = ''m'', f_PayloadHash = '''',
     f_DerivationContextHash = '''', f_Payload = ''x''\<rparr>"

definition ex_run :: "(frame \<times> string) list" where
  "ex_run = [(ex_frame ''a'' 1 ''p1'' ''mpc-signer'', ''p1''),
             (ex_frame ''b'' 2 ''p1'' '''', ''p1''),
             (ex_frame ''b'' 2 ''p1'' '''', ''p1'')]"

theorem accepted_frames_ordered_witness:
  "fst (validate_all id (newFrameValidator ex_config) ex_run) = [None, None, Some ErrDuplicateFrame] \<and>
   (let acc = accepted_frames id (newFrameValidator ex_config) ex_run; f = acc ! 0; g = acc ! 1
    in frameKey f \<noteq> frameKey g \<and>
      (f_FromParty f = f_FromParty g \<longrightarrow> f_Seq f \<le> f_Seq g \<and>
        (f_Seq f = f_Seq g \<longrightarrow> f_MessageID f = f_MessageID g \<and>
          frameSequenceDigest id f = frameSequenceDigest id g)))"
proof (rule conjI)
  show run: "fst (validate_all id (newFrameValidator ex_config) ex_run) = [None, None, Some ErrDuplicateFrame]"
    by code_simp
  have "length (accepted_frames id (newFrameValidator ex_config) ex_run) = 2"
    by (simp add: accepted_frames_def run) (simp add: ex_run_def)
  then show "let acc = accepted_frames id (newFrameValidator ex_config) ex_run; f = acc ! 0; g = acc ! 1
    in frameKey f \<noteq> frameKey g \<and>
      (f_FromParty f = f_FromParty g \<longrightarrow> f_Seq f \<le> f_Seq g \<and>
        (f_Seq f = f_Seq g \<longrightarrow> f_MessageID f = f_MessageID g \<and>
          frameSequenceDigest id f = frameSequenceDigest id g))"
    by (intro accepted_frames_ordered) simp_all
qed


section \<open>The contract the router relies on\<close>

text \<open>
  A router keeps a ledger of the deliveries it owes or has made: pairs of a
  destination and an admitted frame, no destination twice for one frame key.
  The locale names what it needs of admission control for that; the laws are
  discharged for the validator below.
\<close>

definition ledger_ok :: "(frame \<Rightarrow> bool) \<Rightarrow> (string \<times> frame) list \<Rightarrow> bool" where
  "ledger_ok ok L \<longleftrightarrow> (\<forall>x\<in>set L. ok (snd x)) \<and> distinct (map (\<lambda>x. (fst x, frameKey (snd x))) L)"

locale frame_admission =
  fixes admit :: "'v \<Rightarrow> frame \<Rightarrow> string \<Rightarrow> router_err err \<times> 'v"
    and admitted :: "'v \<Rightarrow> frame \<Rightarrow> bool"
    and taken :: "'v \<Rightarrow> string \<Rightarrow> bool"
    and shaped :: "'v \<Rightarrow> frame \<Rightarrow> string \<Rightarrow> bool"
  assumes admit_fresh: "admit v f s = (None, v') \<Longrightarrow> shaped v f s \<and> \<not> taken v (frameKey f) \<and> admitted v' f"
    and admit_keeps: "admit v f s = (e, v') \<Longrightarrow> admitted v g \<Longrightarrow> admitted v' g"
    and admitted_taken: "admitted v f \<Longrightarrow> taken v (frameKey f)"
    and shaped_keeps: "admit v f s = (e, v') \<Longrightarrow> shaped v' g t = shaped v g t"
begin

lemma ledger_keep:
  "ledger_ok (admitted v) L \<Longrightarrow> admit v f s = (e, v') \<Longrightarrow> ledger_ok (admitted v') L"
  using admit_keeps by (auto simp: ledger_ok_def)

lemma ledger_admit:
  assumes "ledger_ok (admitted v) L" "admit v f s = (None, v')" "distinct ps"
  shows "ledger_ok (admitted v') (map (\<lambda>p. (p, f)) ps @ L)"
proof -
  have "\<forall>x\<in>set L. frameKey f \<noteq> frameKey (snd x)"
    using assms(1) admit_fresh [OF assms(2)] admitted_taken [of v]
    by (metis ledger_ok_def)
  then show ?thesis
    using ledger_keep [OF assms(1,2)] admit_fresh [OF assms(2)] assms(3)
    by (fastforce simp: ledger_ok_def comp_def distinct_map inj_on_def)
qed

end

definition admitted_by :: "(bytes \<Rightarrow> bytes) \<Rightarrow> frameValidator \<Rightarrow> frame \<Rightarrow> bool" where
  "admitted_by sha v f \<longleftrightarrow> v_seen v (frameKey f) = Some (frameDigest sha f)"

definition key_taken :: "frameValidator \<Rightarrow> string \<Rightarrow> bool" where
  "key_taken v k \<longleftrightarrow> v_seen v k \<noteq> None"

lemma accepted_key_fresh:
  assumes "validateAndRecord sha v f s = (None, v')"
  shows "frame_shape sha (v_config v) f s = None \<and> v_seen v (frameKey f) = None"
proof -
  have "fst (validateAndRecord sha v f s) = None" using assms by simp
  then show ?thesis unfolding validateAndRecord_fst by (simp split: option.splits)
qed

lemma validateAndRecord_seen:
  assumes "validateAndRecord sha v f s = (e, v')"
  shows "v_seen v' = (if e = None then (v_seen v)(frameKey f \<mapsto> frameDigest sha f) else v_seen v)"
    and "v_config v' = v_config v"
  using accept_observations(1,2) [of sha v f s v'] validate_rejects_unchanged [of sha v f s _ v'] assms
  by (cases e; simp add: same_observations_def)+

interpretation fv: frame_admission "validateAndRecord sha" "admitted_by sha" key_taken
  "\<lambda>v f s. frame_shape sha (v_config v) f s = None" for sha
proof (unfold_locales, goal_cases)
  case (1 v f s v')
  then show ?case
    using accepted_key_fresh [OF 1] validateAndRecord_seen [OF 1] by (simp add: admitted_by_def key_taken_def)
next
  case (2 v f s e v' g)
  then show ?case
    using accepted_key_fresh [of sha v f s v'] validateAndRecord_seen [OF 2(1)]
    by (auto simp: admitted_by_def)
next
  case (3 v f)
  then show ?case by (simp add: admitted_by_def key_taken_def)
next
  case (4 v f s e v' g t)
  then show ?case using validateAndRecord_seen(2) [OF 4] by simp
qed

end
