(* ===== verification/Router.thy ===== *)
theory Router
  imports LocalRouter "HOL-Library.Multiset"
begin

text \<open>
  The router of \<open>src/internal/localrouter/router.go\<close>. Its operations are cut
  where the code takes its mutex or touches a channel, and \<open>router_step\<close>
  interleaves them: outbound calls of the two local parties, the receiver
  goroutine, the parties' own receives, \<open>Start\<close> and \<open>Finish\<close>. A \<open>select\<close> with
  several ready cases is the list of its possible outcomes. \<open>sync.Once\<close> fields
  are Boolean flags; \<open>cloneFrame\<close> is the identity on values.
\<close>

section \<open>State\<close>

record router =
  r_config :: router_config
  r_validator :: frameValidator
  r_endpoints :: "string \<rightharpoonup> frame list"
  r_terminalErr :: "router_err err"
  r_finishing :: bool
  r_receiveCancel :: "bool option"
  r_startOnce :: bool
  r_finishOnce :: bool
  r_receiveDone :: bool
  r_finishErr :: "router_err err"
  r_done :: bool

definition partyQueueCapacity :: nat where
  "partyQueueCapacity = 256"

definition cloneFrame :: "frame \<Rightarrow> frame" where
  "cloneFrame f = f\<lparr>f_Payload := [] @ f_Payload f\<rparr>"

section \<open>Operations\<close>

definition router_New :: "bool \<Rightarrow> router_config \<Rightarrow> (router_err, router) result" where
  "router_New network_is_nil config =
     (if network_is_nil then Inl ErrNoNetwork
      else if c_SessionID config = '''' \<or> c_Stage config = '''' \<or> c_Protocol config = '''' \<or>
              c_PlatformPartyID config = '''' \<or> c_PrimaryPartyID config = '''' \<or>
              c_RecoveryPartyID config = '''' then Inl ErrIncompleteContext
      else if c_PlatformPartyID config = c_PrimaryPartyID config \<or>
              c_PlatformPartyID config = c_RecoveryPartyID config \<or>
              c_PrimaryPartyID config = c_RecoveryPartyID config then Inl ErrPartiesNotDistinct
      else Inr \<lparr>r_config = config, r_validator = newFrameValidator config,
                r_endpoints = [c_PrimaryPartyID config \<mapsto> [], c_RecoveryPartyID config \<mapsto> []],
                r_terminalErr = None, r_finishing = False, r_receiveCancel = None,
                r_startOnce = False, r_finishOnce = False, r_receiveDone = False,
                r_finishErr = None, r_done = False\<rparr>)"

definition markReceiverDone :: "router \<Rightarrow> router" where
  "markReceiverDone r = r\<lparr>r_receiveDone := True\<rparr>"

text \<open>\<open>Start\<close>: the Boolean says whether the receiver goroutine is launched.\<close>

definition router_Start :: "router \<Rightarrow> bool \<times> router" where
  "router_Start r =
     (if r_startOnce r then (False, r)
      else if r_finishing r \<or> r_terminalErr r \<noteq> None
      then (False, markReceiverDone (r\<lparr>r_startOnce := True\<rparr>))
      else (True, r\<lparr>r_startOnce := True, r_receiveCancel := Some False\<rparr>))"

definition router_Transport :: "router \<Rightarrow> string \<Rightarrow> (router_err, string) result" where
  "router_Transport r partyID =
     (case r_endpoints r partyID of None \<Rightarrow> Inl ErrUnsupportedParty | Some q \<Rightarrow> Inr partyID)"

definition currentError :: "router \<Rightarrow> router_err err" where
  "currentError r =
     (if r_done r then (case r_terminalErr r of Some e \<Rightarrow> Some e | None \<Rightarrow> Some ErrRouterClosed)
      else None)"

definition cancel_receive :: "router \<Rightarrow> router" where
  "cancel_receive r = r\<lparr>r_receiveCancel := map_option (\<lambda>_. True) (r_receiveCancel r)\<rparr>"

definition router_fail :: "router \<Rightarrow> router_err \<Rightarrow> router" where
  "router_fail r e =
     (if r_done r then r else (cancel_receive r)\<lparr>r_terminalErr := Some e, r_done := True\<rparr>)"

definition closeNormally :: "router \<Rightarrow> router" where
  "closeNormally r =
     (if r_done r then r
      else (cancel_receive r)\<lparr>
        r_terminalErr := (case r_terminalErr r of None \<Rightarrow> Some ErrRouterClosed | Some e \<Rightarrow> Some e),
        r_done := True\<rparr>)"

text \<open>\<open>Finish\<close> up to the wait on \<open>receiveDone\<close>, and from there on.\<close>

definition Finish_enter :: "router \<Rightarrow> router" where
  "Finish_enter r =
     (if r_finishOnce r then r
      else let r1 = r\<lparr>r_finishOnce := True, r_finishing := True\<rparr>;
               r2 = (if r_startOnce r1 then r1 else markReceiverDone (r1\<lparr>r_startOnce := True\<rparr>))
           in cancel_receive r2)"

definition Finish_leave :: "router \<Rightarrow> router" where
  "Finish_leave r =
     (let r1 = r\<lparr>r_finishErr := r_terminalErr r\<rparr>
      in if r_finishErr r1 = None then closeNormally r1 else r1)"

text \<open>\<open>deliver\<close>: the ready cases of its \<open>select\<close>; the default only when none is.\<close>

definition deliver :: "router \<Rightarrow> ctx_err option \<Rightarrow> string \<Rightarrow> frame \<Rightarrow> (router_err err \<times> router) list" where
  "deliver r ctx partyID f =
     (case r_endpoints r partyID of
        None \<Rightarrow> [(Some ErrUnsupportedParty, r)]
      | Some q \<Rightarrow>
          (let ready =
             (if length q < partyQueueCapacity
              then [(None, r\<lparr>r_endpoints := (r_endpoints r)(partyID \<mapsto> q @ [cloneFrame f])\<rparr>)] else []) @
             (if r_done r then [(currentError r, r)] else []) @
             (case ctx of None \<Rightarrow> [] | Some e \<Rightarrow> [(Some (ErrCtx e), r)])
           in if ready = [] then [(Some ErrQueueOverflow, r)] else ready))"

text \<open>\<open>routeOutbound\<close>: the critical section, and what is left to do when it accepts.\<close>

definition outbound_validate ::
  "(bytes \<Rightarrow> bytes) \<Rightarrow> router \<Rightarrow> string \<Rightarrow> frame \<Rightarrow> router_err err \<times> router" where
  "outbound_validate sha r authenticatedSender f =
     (if r_finishing r then (Some ErrRouterClosed, r)
      else let (e, v) = validateAndRecord sha (r_validator r) f authenticatedSender
           in (e, r\<lparr>r_validator := v\<rparr>))"

datatype ob_call = OB_Deliver string frame bool | OB_Network frame

definition outbound_plan :: "router_config \<Rightarrow> string \<Rightarrow> frame \<Rightarrow> ob_call" where
  "outbound_plan config authenticatedSender f =
     (if f_Broadcast f then
        OB_Deliver (if authenticatedSender = c_PrimaryPartyID config
                    then c_RecoveryPartyID config else c_PrimaryPartyID config) f True
      else if f_ToParty f = c_PlatformPartyID config then OB_Network f
      else OB_Deliver (f_ToParty f) f False)"

text \<open>The receiver goroutine: where it stands, and one frame or error read from the network.\<close>

datatype rx_pc = RX_Idle | RX_Recv | RX_Deliver frame "string list" | RX_Exit

fun errors_is_canceled :: "router_err \<Rightarrow> bool" where
  "errors_is_canceled (ErrCtx c) = (c = Canceled)"
| "errors_is_canceled (ErrNetwork _ (Some c)) = (c = Canceled)"
| "errors_is_canceled _ = False"

definition receive_error :: "router \<Rightarrow> router_err \<Rightarrow> rx_pc \<times> router" where
  "receive_error r e =
     (if errors_is_canceled e \<and> r_finishing r then (RX_Exit, r) else (RX_Exit, router_fail r e))"

definition receive_frame :: "(bytes \<Rightarrow> bytes) \<Rightarrow> router \<Rightarrow> frame \<Rightarrow> rx_pc \<times> router" where
  "receive_frame sha r f =
     (if r_finishing r then (RX_Exit, r)
      else let config = r_config r;
               (e, v) = validateAndRecord sha (r_validator r) f (c_PlatformPartyID config);
               r1 = r\<lparr>r_validator := v\<rparr>
           in (case e of
                 Some err \<Rightarrow> (RX_Exit, router_fail r1 err)
               | None \<Rightarrow>
                   if f_Broadcast f
                   then (RX_Deliver f [c_PrimaryPartyID config, c_RecoveryPartyID config], r1)
                   else if f_ToParty f \<noteq> c_PrimaryPartyID config \<and> f_ToParty f \<noteq> c_RecoveryPartyID config
                   then (RX_Exit, router_fail r1 ErrInvalidFrame)
                   else (RX_Deliver f [f_ToParty f], r1)))"

text \<open>
  \<open>RecvFrame\<close> of a party: the \<open>select\<close> (its ready cases; empty while it
  blocks) after the first look at the terminal error.
\<close>

definition recv_select :: "router \<Rightarrow> ctx_err option \<Rightarrow> string \<Rightarrow> ((router_err, frame) result \<times> router) list" where
  "recv_select r ctx partyID =
     (case r_endpoints r partyID of
        Some (f # q) \<Rightarrow>
          [(case currentError r of Some e \<Rightarrow> Inl e | None \<Rightarrow> Inr f,
            r\<lparr>r_endpoints := (r_endpoints r)(partyID \<mapsto> q)\<rparr>)]
      | _ \<Rightarrow> []) @
     (case currentError r of Some e \<Rightarrow> [(Inl e, r)] | None \<Rightarrow> []) @
     (case ctx of
        None \<Rightarrow> []
      | Some c \<Rightarrow> [(Inl (case currentError r of Some e \<Rightarrow> e | None \<Rightarrow> ErrCtx c), r)])"

definition RecvFrame :: "router \<Rightarrow> ctx_err option \<Rightarrow> string \<Rightarrow> ((router_err, frame) result \<times> router) list" where
  "RecvFrame r ctx partyID =
     (case currentError r of Some e \<Rightarrow> [(Inl e, r)] | None \<Rightarrow> recv_select r ctx partyID)"

section \<open>Interleaving\<close>

text \<open>
  The whole system: the router, the accepted outbound calls that still have
  deliveries to make, the receiver's position, and every hand-off made so far
  (to a party's queue, or to the network under the platform's id). An outbound
  call looks at the terminal error before it takes the lock, so its validation
  may run after the router closed: the rule has no guard on \<open>r_done\<close>.
\<close>

record router_sys =
  s_router :: router
  s_calls :: "ob_call list"
  s_rx :: rx_pc
  s_handoff :: "(string \<times> frame) list"
  s_inFinish :: bool

definition router_init :: "router \<Rightarrow> router_sys" where
  "router_init r = \<lparr>s_router = r, s_calls = [], s_rx = RX_Idle, s_handoff = [],
     s_inFinish = False\<rparr>"

fun after_deliver :: "ob_call \<Rightarrow> ob_call list" where
  "after_deliver (OB_Deliver p f True) = [OB_Network f]"
| "after_deliver _ = []"

inductive router_step :: "(bytes \<Rightarrow> bytes) \<Rightarrow> router_sys \<Rightarrow> router_sys \<Rightarrow> bool" for sha where
  StartS: "router_Start (s_router s) = (launch, r') \<Longrightarrow>
    router_step sha s (s\<lparr>s_router := r', s_rx := (if launch then RX_Recv else s_rx s)\<rparr>)"
| OutReject: "\<lbrakk>p \<in> dom (r_endpoints (s_router s)); outbound_validate sha (s_router s) p f = (Some e, r')\<rbrakk> \<Longrightarrow>
    router_step sha s (s\<lparr>s_router := r'\<rparr>)"
| OutAccept: "\<lbrakk>p \<in> dom (r_endpoints (s_router s)); outbound_validate sha (s_router s) p f = (None, r')\<rbrakk> \<Longrightarrow>
    router_step sha s (s\<lparr>s_router := r', s_calls := outbound_plan (r_config r') p f # s_calls s\<rparr>)"
| OutDeliver: "\<lbrakk>s_calls s = pre @ OB_Deliver p f net # post; (None, r') \<in> set (deliver (s_router s) ctx p f)\<rbrakk> \<Longrightarrow>
    router_step sha s (s\<lparr>s_router := r', s_calls := pre @ after_deliver (OB_Deliver p f net) @ post,
      s_handoff := (p, f) # s_handoff s\<rparr>)"
| OutDeliverErr: "\<lbrakk>s_calls s = pre @ OB_Deliver p f net # post; (Some e, r') \<in> set (deliver (s_router s) ctx p f)\<rbrakk> \<Longrightarrow>
    router_step sha s (s\<lparr>s_router := r', s_calls := pre @ post\<rparr>)"
| OutSend: "s_calls s = pre @ OB_Network f # post \<Longrightarrow>
    router_step sha s (s\<lparr>s_calls := pre @ post,
      s_handoff := (c_PlatformPartyID (r_config (s_router s)), cloneFrame f) # s_handoff s\<rparr>)"
| RxError: "\<lbrakk>s_rx s = RX_Recv; receive_error (s_router s) e = (pc, r')\<rbrakk> \<Longrightarrow>
    router_step sha s (s\<lparr>s_router := r', s_rx := pc\<rparr>)"
| RxFrame: "\<lbrakk>s_rx s = RX_Recv; receive_frame sha (s_router s) f = (pc, r')\<rbrakk> \<Longrightarrow>
    router_step sha s (s\<lparr>s_router := r', s_rx := pc\<rparr>)"
| RxDeliver: "\<lbrakk>s_rx s = RX_Deliver f (p # ps); (None, r') \<in> set (deliver (s_router s) ctx p f)\<rbrakk> \<Longrightarrow>
    router_step sha s (s\<lparr>s_router := r', s_rx := (if ps = [] then RX_Recv else RX_Deliver f ps),
      s_handoff := (p, f) # s_handoff s\<rparr>)"
| RxDeliverErr: "\<lbrakk>s_rx s = RX_Deliver f (p # ps); (Some e, r') \<in> set (deliver (s_router s) ctx p f);
      receive_error r' e = (pc, r'')\<rbrakk> \<Longrightarrow>
    router_step sha s (s\<lparr>s_router := r'', s_rx := pc\<rparr>)"
| RxDone: "s_rx s = RX_Exit \<Longrightarrow>
    router_step sha s (s\<lparr>s_router := markReceiverDone (s_router s), s_rx := RX_Idle\<rparr>)"
| PartyRecv: "\<lbrakk>p \<in> dom (r_endpoints (s_router s)); (res, r') \<in> set (recv_select (s_router s) ctx p)\<rbrakk> \<Longrightarrow>
    router_step sha s (s\<lparr>s_router := r'\<rparr>)"
| FinishEnter: "\<not> r_finishOnce (s_router s) \<Longrightarrow>
    router_step sha s (s\<lparr>s_router := Finish_enter (s_router s), s_inFinish := True\<rparr>)"
| FinishLeave: "\<lbrakk>s_inFinish s; r_receiveDone (s_router s)\<rbrakk> \<Longrightarrow>
    router_step sha s (s\<lparr>s_router := Finish_leave (s_router s), s_inFinish := False\<rparr>)"

inductive router_reach :: "(bytes \<Rightarrow> bytes) \<Rightarrow> router_config \<Rightarrow> router_sys \<Rightarrow> bool" for sha config where
  reach_init: "router_New False config = Inr r \<Longrightarrow> router_reach sha config (router_init r)"
| reach_step: "router_reach sha config s \<Longrightarrow> router_step sha s s' \<Longrightarrow> router_reach sha config s'"

section \<open>Invariant\<close>

text \<open>
  What is still owed (\<open>todo\<close>) and what has been handed off form one ledger.
\<close>

fun call_dests :: "router_config \<Rightarrow> ob_call \<Rightarrow> (string \<times> frame) list" where
  "call_dests config (OB_Deliver p f net) = (p, f) # (if net then [(c_PlatformPartyID config, f)] else [])"
| "call_dests config (OB_Network f) = [(c_PlatformPartyID config, f)]"

fun rx_dests :: "rx_pc \<Rightarrow> (string \<times> frame) list" where
  "rx_dests (RX_Deliver f ps) = map (\<lambda>p. (p, f)) ps"
| "rx_dests _ = []"

definition router_ledger :: "router_sys \<Rightarrow> (string \<times> frame) list" where
  "router_ledger s =
     concat (map (call_dests (r_config (s_router s))) (s_calls s)) @ rx_dests (s_rx s) @ s_handoff s"

definition config_parties :: "router_config \<Rightarrow> string set" where
  "config_parties config = {c_PlatformPartyID config, c_PrimaryPartyID config, c_RecoveryPartyID config}"

definition route_ok :: "(bytes \<Rightarrow> bytes) \<Rightarrow> router_config \<Rightarrow> string \<Rightarrow> frame \<Rightarrow> bool" where
  "route_ok sha config p f \<longleftrightarrow>
     (\<exists>s\<in>config_parties config. frame_shape sha config f s = None) \<and>
     p \<in> config_parties config \<and> f_FromParty f \<noteq> p \<and> (f_Broadcast f \<or> f_ToParty f = p)"

definition parties_distinct :: "router_config \<Rightarrow> bool" where
  "parties_distinct config \<longleftrightarrow>
     distinct [c_PlatformPartyID config, c_PrimaryPartyID config, c_RecoveryPartyID config]"

definition queues_ok :: "router_sys \<Rightarrow> bool" where
  "queues_ok s \<longleftrightarrow> (\<forall>p q. r_endpoints (s_router s) p = Some q \<longrightarrow>
     length q \<le> partyQueueCapacity \<and> (\<forall>f\<in>set q. (p, f) \<in> set (s_handoff s)) \<and> distinct (map frameKey q))"

definition router_core :: "router_config \<Rightarrow> router \<Rightarrow> bool" where
  "router_core config r \<longleftrightarrow> r_config r = config \<and> v_config (r_validator r) = config \<and>
     dom (r_endpoints r) = {c_PrimaryPartyID config, c_RecoveryPartyID config}"

definition router_inv :: "(bytes \<Rightarrow> bytes) \<Rightarrow> router_config \<Rightarrow> router_sys \<Rightarrow> bool" where
  "router_inv sha config s \<longleftrightarrow>
     parties_distinct config \<and> router_core config (s_router s) \<and>
     ledger_ok (admitted_by sha (r_validator (s_router s))) (router_ledger s) \<and>
     (\<forall>x\<in>set (router_ledger s). route_ok sha config (fst x) (snd x)) \<and>
     queues_ok s"

lemma cloneFrame_id [simp]: "cloneFrame f = f"
  by (simp add: cloneFrame_def)

text \<open>The operations that only touch flags keep configuration, validator and queues.\<close>

definition same_core :: "router \<Rightarrow> router \<Rightarrow> bool" where
  "same_core r r' \<longleftrightarrow> r_config r' = r_config r \<and> r_validator r' = r_validator r \<and>
     r_endpoints r' = r_endpoints r"

lemma same_core_ops [simp]:
  "same_core r (markReceiverDone r)"
  "same_core r (snd (router_Start r))"
  "same_core r (router_fail r e)"
  "same_core r (Finish_enter r)"
  "same_core r (Finish_leave r)"
  "same_core r (snd (receive_error r e))"
  by (auto simp: same_core_def markReceiverDone_def router_Start_def router_fail_def cancel_receive_def
      Finish_enter_def Finish_leave_def closeNormally_def receive_error_def Let_def)

lemma router_fail_config [simp]: "r_config (router_fail r e) = r_config r"
  using same_core_ops(3) [of r e] by (simp add: same_core_def)

lemma distinct_submset:
  assumes "distinct xs" "mset ys \<subseteq># mset xs"
  shows "distinct ys"
proof -
  have "count (mset ys) a = (if a \<in> set ys then 1 else 0)" for a
  proof -
    have "count (mset ys) a \<le> count (mset xs) a" using assms(2) by (rule mset_subset_eq_count)
    also have "\<dots> \<le> 1" using assms(1) by (simp add: distinct_count_atmost_1)
    finally show ?thesis by (cases "a \<in> set ys") (auto simp: count_eq_zero_iff le_Suc_eq)
  qed
  then show ?thesis by (simp add: distinct_count_atmost_1)
qed

lemma ledger_ok_mono:
  assumes "ledger_ok ok L" "mset L' \<subseteq># mset L"
  shows "ledger_ok ok L'"
proof -
  have "mset (map (\<lambda>x. (fst x, frameKey (snd x))) L') \<subseteq># mset (map (\<lambda>x. (fst x, frameKey (snd x))) L)"
    using assms(2) by (simp add: image_mset_subseteq_mono)
  moreover have "set L' \<subseteq> set L" using assms(2) by (metis set_mset_mono set_mset_mset)
  ultimately show ?thesis
    using assms(1) distinct_submset by (auto simp: ledger_ok_def)
qed

lemma inv_same_core:
  assumes "router_inv sha config s" "same_core (s_router s) (s_router s')"
    and "mset (router_ledger s') \<subseteq># mset (router_ledger s)" "s_handoff s' = s_handoff s"
  shows "router_inv sha config s'"
proof -
  have "set (router_ledger s') \<subseteq> set (router_ledger s)"
    using assms(3) by (metis set_mset_mono set_mset_mset)
  then show ?thesis
    using assms ledger_ok_mono [OF _ assms(3)]
    by (auto simp: router_inv_def same_core_def router_core_def queues_ok_def)
qed

lemma inv_validated:
  assumes inv: "router_inv sha config s"
    and val: "validateAndRecord sha (r_validator (s_router s)) f p = (e, v)"
    and s': "s_router s' = (s_router s)\<lparr>r_validator := v\<rparr>" "s_handoff s' = s_handoff s"
    and led: "mset (router_ledger s') = mset (map (\<lambda>d. (d, f)) ds @ router_ledger s)"
    and ds: "ds \<noteq> [] \<Longrightarrow> e = None" "distinct ds" "\<And>d. d \<in> set ds \<Longrightarrow> route_ok sha config d f"
  shows "router_inv sha config s'"
proof -
  let ?L = "map (\<lambda>d. (d, f)) ds @ router_ledger s"
  have old: "ledger_ok (admitted_by sha (r_validator (s_router s))) (router_ledger s)"
    using inv by (simp add: router_inv_def)
  have "ledger_ok (admitted_by sha v) ?L"
    using fv.ledger_admit [OF old, of f p v ds] fv.ledger_keep [OF old val] val ds(1,2)
    by (cases "ds = []") auto
  then have "ledger_ok (admitted_by sha v) (router_ledger s')"
    by (rule ledger_ok_mono) (simp add: led)
  moreover have "set (router_ledger s') = set ?L"
    using led by (metis set_mset_mset)
  ultimately show ?thesis
    using inv s' ds(3) validateAndRecord_seen(2) [OF val]
    by (auto simp: router_inv_def router_core_def queues_ok_def)
qed

lemma deliver_ok:
  assumes "(None, r') \<in> set (deliver r ctx p f)"
  shows "\<exists>q. r_endpoints r p = Some q \<and> length q < partyQueueCapacity \<and>
    r' = r\<lparr>r_endpoints := (r_endpoints r)(p \<mapsto> q @ [f])\<rparr>"
  using assms
  by (auto simp: deliver_def currentError_def Let_def split: option.splits if_splits)

lemma deliver_error:
  "(Some e, r') \<in> set (deliver r ctx p f) \<Longrightarrow> r' = r"
  by (auto simp: deliver_def Let_def split: option.splits if_splits)

lemma inv_delivered:
  assumes inv: "router_inv sha config s"
    and del: "(None, r') \<in> set (deliver (s_router s) ctx p f)"
    and s': "s_router s' = r'" "s_handoff s' = (p, f) # s_handoff s"
    and led: "mset (router_ledger s') = mset (router_ledger s)" "(p, f) \<in> set (router_ledger s)"
      "(p, frameKey f) \<notin> (\<lambda>x. (fst x, frameKey (snd x))) ` set (s_handoff s)"
  shows "router_inv sha config s'"
proof -
  from deliver_ok [OF del] obtain q where q: "r_endpoints (s_router s) p = Some q"
      "length q < partyQueueCapacity"
      "r' = (s_router s)\<lparr>r_endpoints := (r_endpoints (s_router s))(p \<mapsto> q @ [f])\<rparr>" by blast
  have qs: "queues_ok s" and old: "ledger_ok (admitted_by sha (r_validator (s_router s))) (router_ledger s)"
    using inv by (simp_all add: router_inv_def)
  have "frameKey f \<notin> frameKey ` set q"
    using qs q(1) led(3) by (auto simp: queues_ok_def image_iff) (metis fst_conv snd_conv)
  then have "queues_ok s'"
    using qs q s' by (auto simp: queues_ok_def)
  moreover have "ledger_ok (admitted_by sha (r_validator (s_router s'))) (router_ledger s')"
    using ledger_ok_mono [OF old] led(1) s' q by simp
  moreover have "set (router_ledger s') = set (router_ledger s)"
    using led(1) by (metis set_mset_mset)
  ultimately show ?thesis
    using inv s' q by (auto simp: router_inv_def router_core_def)
qed

lemma ledger_fresh_handoff:
  assumes "ledger_ok ok L" "mset L = mset ((p, f) # M)" "set H \<subseteq> set M"
  shows "(p, frameKey f) \<notin> (\<lambda>x. (fst x, frameKey (snd x))) ` set H"
proof -
  have "ledger_ok ok ((p, f) # M)" using ledger_ok_mono [OF assms(1)] assms(2) by simp
  then show ?thesis using assms(3) by (auto simp: ledger_ok_def)
qed

lemma plan_routes:
  assumes shape: "frame_shape sha config f p = None" and dist: "parties_distinct config"
    and p: "p \<in> {c_PrimaryPartyID config, c_RecoveryPartyID config}"
  shows "\<exists>ds. call_dests config (outbound_plan config p f) = map (\<lambda>d. (d, f)) ds \<and> distinct ds \<and>
    (\<forall>d\<in>set ds. route_ok sha config d f)"
proof -
  have pp: "p \<in> config_parties config" using p by (auto simp: config_parties_def)
  have from_p: "f_FromParty f = p" using frame_shape_route(2) [OF shape] .
  show ?thesis
  proof (cases "f_Broadcast f")
    case True
    then show ?thesis
      using dist p shape pp from_p
      by (intro exI [of _ "[if p = c_PrimaryPartyID config then c_RecoveryPartyID config
            else c_PrimaryPartyID config, c_PlatformPartyID config]"])
        (auto simp: outbound_plan_def route_ok_def parties_distinct_def config_parties_def)
  next
    case False
    have "f_ToParty f \<in> config_parties config" "f_ToParty f \<noteq> p"
      using shape False frame_shape_route(5) [OF shape False]
      by (auto simp: frame_shape_def validateRecipient_def config_parties_def split: if_splits)
    with False shape pp from_p show ?thesis
      by (intro exI [of _ "[f_ToParty f]"]) (auto simp: outbound_plan_def route_ok_def)
  qed
qed

lemma receive_routes:
  assumes shape: "frame_shape sha config f (c_PlatformPartyID config) = None"
    and dist: "parties_distinct config"
  shows "f_Broadcast f \<Longrightarrow> d \<in> {c_PrimaryPartyID config, c_RecoveryPartyID config} \<Longrightarrow> route_ok sha config d f"
    and "\<not> f_Broadcast f \<Longrightarrow> f_ToParty f \<in> {c_PrimaryPartyID config, c_RecoveryPartyID config} \<Longrightarrow>
      route_ok sha config (f_ToParty f) f"
  using assms frame_shape_route(2,5) [OF shape]
  by (auto simp: route_ok_def config_parties_def parties_distinct_def)

lemma recv_select_cases:
  assumes "(res, r') \<in> set (recv_select r ctx p)"
  shows "r' = r \<or> (\<exists>f q. r_endpoints r p = Some (f # q) \<and>
    r' = r\<lparr>r_endpoints := (r_endpoints r)(p \<mapsto> q)\<rparr>)"
proof (cases "\<exists>f q. r_endpoints r p = Some (f # q)")
  case True
  then obtain f q where "r_endpoints r p = Some (f # q)" by blast
  with assms show ?thesis by (auto simp: recv_select_def split: option.splits)
next
  case False
  then have "r_endpoints r p = None \<or> r_endpoints r p = Some []"
    by (metis list.exhaust option.exhaust)
  with assms show ?thesis by (auto simp: recv_select_def split: option.splits)
qed

lemma queues_okD:
  "queues_ok s \<Longrightarrow> r_endpoints (s_router s) p = Some q \<Longrightarrow>
     length q \<le> partyQueueCapacity \<and> (\<forall>f\<in>set q. (p, f) \<in> set (s_handoff s)) \<and> distinct (map frameKey q)"
  by (simp add: queues_ok_def)

lemma inv_received:
  assumes inv: "router_inv sha config s" and rcv: "(res, r') \<in> set (recv_select (s_router s) ctx p)"
  shows "router_inv sha config (s\<lparr>s_router := r'\<rparr>)"
  using recv_select_cases [OF rcv]
proof
  assume "r' = s_router s"
  then show ?thesis using inv by simp
next
  assume "\<exists>f q. r_endpoints (s_router s) p = Some (f # q) \<and>
    r' = (s_router s)\<lparr>r_endpoints := (r_endpoints (s_router s))(p \<mapsto> q)\<rparr>"
  then obtain f q where fq: "r_endpoints (s_router s) p = Some (f # q)"
    "r' = (s_router s)\<lparr>r_endpoints := (r_endpoints (s_router s))(p \<mapsto> q)\<rparr>" by blast
  have "queues_ok s" using inv by (simp add: router_inv_def)
  with queues_okD [OF this fq(1)] have "queues_ok (s\<lparr>s_router := r'\<rparr>)"
    using fq by (auto simp: queues_ok_def)
  then show ?thesis
    using inv fq by (auto simp: router_inv_def router_core_def router_ledger_def)
qed

lemma inv_receive_frame:
  assumes inv: "router_inv sha config s" and rx: "s_rx s = RX_Recv"
    and rf: "receive_frame sha (s_router s) f = (pc, r')"
  shows "router_inv sha config (s\<lparr>s_router := r', s_rx := pc\<rparr>)"
proof (cases "r_finishing (s_router s)")
  case True
  then show ?thesis
    using rf rx by (intro inv_same_core [OF inv])
      (auto simp: receive_frame_def same_core_def router_ledger_def)
next
  case False
  have cfg: "r_config (s_router s) = config" "v_config (r_validator (s_router s)) = config"
    and dist: "parties_distinct config"
    using inv by (auto simp: router_inv_def router_core_def)
  obtain e v where val: "validateAndRecord sha (r_validator (s_router s)) f (c_PlatformPartyID config) = (e, v)"
    by fastforce
  let ?s1 = "s\<lparr>s_router := (s_router s)\<lparr>r_validator := v\<rparr>\<rparr>"
  have "router_inv sha config ?s1"
    by (rule inv_validated [OF inv val, where ds = "[]"]) (auto simp: router_ledger_def)
  then have failed: "router_inv sha config (s\<lparr>s_router := router_fail ((s_router s)\<lparr>r_validator := v\<rparr>) err, s_rx := RX_Exit\<rparr>)" for err
    by (rule inv_same_core) (auto simp: router_ledger_def router_fail_def cancel_receive_def same_core_def rx)
  show ?thesis
  proof (cases e)
    case (Some err)
    with rf False val cfg have "pc = RX_Exit" "r' = router_fail ((s_router s)\<lparr>r_validator := v\<rparr>) err"
      by (auto simp: receive_frame_def Let_def)
    with failed show ?thesis by simp
  next
    case None
    then have shape: "frame_shape sha config f (c_PlatformPartyID config) = None"
      using accepted_key_fresh [of sha "r_validator (s_router s)" f "c_PlatformPartyID config" v] val cfg
      by simp
    define ds where "ds = (if f_Broadcast f then [c_PrimaryPartyID config, c_RecoveryPartyID config] else [f_ToParty f])"
    consider "pc = RX_Exit" "r' = router_fail ((s_router s)\<lparr>r_validator := v\<rparr>) ErrInvalidFrame"
      | "pc = RX_Deliver f ds" "r' = (s_router s)\<lparr>r_validator := v\<rparr>"
        "\<forall>d\<in>set ds. route_ok sha config d f" "distinct ds"
      using rf False val cfg None receive_routes [OF shape dist] dist
      by (auto simp: receive_frame_def Let_def ds_def parties_distinct_def split: if_splits)
    then show ?thesis
    proof cases
      case 1
      then show ?thesis using failed by simp
    next
      case 2
      then show ?thesis
        using None by (intro inv_validated [OF inv val, where ds = ds]) (auto simp: router_ledger_def rx)
    qed
  qed
qed

lemma inv_out_accept:
  assumes inv: "router_inv sha config s" and p: "p \<in> dom (r_endpoints (s_router s))"
    and val: "outbound_validate sha (s_router s) p f = (None, r')"
  shows "router_inv sha config (s\<lparr>s_router := r', s_calls := outbound_plan (r_config r') p f # s_calls s\<rparr>)"
proof -
  from val obtain v where v: "validateAndRecord sha (r_validator (s_router s)) f p = (None, v)"
    and r': "r' = (s_router s)\<lparr>r_validator := v\<rparr>"
    by (auto simp: outbound_validate_def split: if_splits prod.splits)
  have cfg: "r_config (s_router s) = config" "v_config (r_validator (s_router s)) = config"
    "parties_distinct config" "p \<in> {c_PrimaryPartyID config, c_RecoveryPartyID config}"
    using inv p by (auto simp: router_inv_def router_core_def)
  have "frame_shape sha config f p = None" using accepted_key_fresh [OF v] cfg by simp
  from plan_routes [OF this cfg(3,4)] obtain ds
    where ds: "call_dests config (outbound_plan config p f) = map (\<lambda>d. (d, f)) ds" "distinct ds"
      "\<forall>d\<in>set ds. route_ok sha config d f" by blast
  then show ?thesis
    by (intro inv_validated [OF inv v, where ds = ds]) (auto simp: router_ledger_def r' cfg)
qed

lemma router_inv_step:
  assumes "router_inv sha config s" "router_step sha s s'"
  shows "router_inv sha config s'"
  using assms(2,1)
proof (induction rule: router_step.induct)
  case (StartS s launch r')
  then show ?case
    using same_core_ops(2) [of "s_router s"]
    by - (rule inv_same_core [OF StartS.prems], auto simp: router_ledger_def same_core_def)
next
  case (OutReject p s f e r')
  show ?case
  proof (cases "r_finishing (s_router s)")
    case True
    then show ?thesis using OutReject by (auto simp: outbound_validate_def)
  next
    case False
    then obtain v where "validateAndRecord sha (r_validator (s_router s)) f p = (Some e, v)"
      "r' = (s_router s)\<lparr>r_validator := v\<rparr>"
      using OutReject.hyps by (auto simp: outbound_validate_def split: prod.splits)
    then show ?thesis
      by - (rule inv_validated [OF OutReject.prems, where ds = "[]"], auto simp: router_ledger_def)
  qed
next
  case (OutAccept p s f r')
  then show ?case by (simp add: inv_out_accept)
next
  case (OutDeliver s pre p f net post r' ctx)
  have cfg: "r_config r' = r_config (s_router s)" using deliver_ok [OF OutDeliver.hyps(2)] by auto
  have led: "mset (router_ledger s) = mset ((p, f) # concat (map (call_dests (r_config (s_router s)))
      (pre @ after_deliver (OB_Deliver p f net) @ post)) @ rx_dests (s_rx s) @ s_handoff s)"
    using OutDeliver.hyps(1) by (cases net) (simp_all add: router_ledger_def)
  have old: "ledger_ok (admitted_by sha (r_validator (s_router s))) (router_ledger s)"
    using OutDeliver by (simp add: router_inv_def)
  show ?case
    using OutDeliver led ledger_fresh_handoff [OF old led, of "s_handoff s"]
    by - (rule inv_delivered [OF OutDeliver.prems OutDeliver.hyps(2)], auto simp: router_ledger_def cfg)
next
  case (OutDeliverErr s pre p f net post e r' ctx)
  then show ?case
    using deliver_error [of e r' "s_router s" ctx p f]
    by - (rule inv_same_core [OF OutDeliverErr.prems], auto simp: router_ledger_def same_core_def)
next
  case (OutSend s pre f post)
  have cfg: "r_config (s_router s) = config" using OutSend by (simp add: router_inv_def router_core_def)
  have led: "mset (router_ledger (s\<lparr>s_calls := pre @ post,
      s_handoff := (c_PlatformPartyID config, f) # s_handoff s\<rparr>)) = mset (router_ledger s)"
    using OutSend.hyps by (simp add: router_ledger_def cfg)
  have "set (router_ledger (s\<lparr>s_calls := pre @ post,
      s_handoff := (c_PlatformPartyID config, f) # s_handoff s\<rparr>)) = set (router_ledger s)"
    using led by (metis set_mset_mset)
  then show ?case
    using OutSend ledger_ok_mono led
    by (auto simp: router_inv_def queues_ok_def cfg)
next
  case (RxError s e pc r')
  then show ?case
    using same_core_ops(6) [of "s_router s" e]
    by - (rule inv_same_core [OF RxError.prems],
      auto simp: router_ledger_def receive_error_def split: if_splits)
next
  case (RxFrame s f pc r')
  then show ?case by (simp add: inv_receive_frame)
next
  case (RxDeliver s f p ps r' ctx)
  have cfg: "r_config r' = r_config (s_router s)" using deliver_ok [OF RxDeliver.hyps(2)] by auto
  have led: "mset (router_ledger s) = mset ((p, f) # concat (map (call_dests (r_config (s_router s)))
      (s_calls s)) @ map (\<lambda>p. (p, f)) ps @ s_handoff s)"
    using RxDeliver.hyps(1) by (simp add: router_ledger_def)
  have old: "ledger_ok (admitted_by sha (r_validator (s_router s))) (router_ledger s)"
    using RxDeliver by (simp add: router_inv_def)
  show ?case
    using RxDeliver led ledger_fresh_handoff [OF old led, of "s_handoff s"]
    by - (rule inv_delivered [OF RxDeliver.prems RxDeliver.hyps(2)], auto simp: router_ledger_def cfg)
next
  case (RxDeliverErr s f p ps e r' ctx pc r'')
  then show ?case
    using deliver_error [of e r' "s_router s" ctx p f] same_core_ops(6) [of r' e]
    by - (rule inv_same_core [OF RxDeliverErr.prems],
      auto simp: router_ledger_def receive_error_def split: if_splits)
next
  case (RxDone s)
  then show ?case
    by - (rule inv_same_core [OF RxDone.prems], auto simp: router_ledger_def same_core_def markReceiverDone_def)
next
  case (PartyRecv p s res r' ctx)
  then show ?case using inv_received by simp
next
  case (FinishEnter s)
  then show ?case
    using same_core_ops(4) [of "s_router s"]
    by - (rule inv_same_core [OF FinishEnter.prems], auto simp: router_ledger_def same_core_def)
next
  case (FinishLeave s)
  then show ?case
    using same_core_ops(5) [of "s_router s"]
    by - (rule inv_same_core [OF FinishLeave.prems], auto simp: router_ledger_def same_core_def)
qed

lemma router_inv_init:
  assumes "router_New False config = Inr r"
  shows "router_inv sha config (router_init r)"
  using assms
  by (auto simp: router_New_def router_init_def router_inv_def router_core_def parties_distinct_def
      router_ledger_def ledger_ok_def queues_ok_def newFrameValidator_def split: if_splits)

lemma router_reach_inv: "router_reach sha config s \<Longrightarrow> router_inv sha config s"
  by (induction rule: router_reach.induct) (auto intro: router_inv_init router_inv_step)

text \<open>The life cycle: closing happens once, and \<open>Finish\<close> returns after the receiver is gone.\<close>

definition finish_outcome :: "router \<Rightarrow> bool" where
  "finish_outcome r \<longleftrightarrow> r_done r \<and>
     (if r_finishErr r = None then r_terminalErr r = Some ErrRouterClosed
      else r_finishErr r = r_terminalErr r)"

definition cycle_inv :: "router_sys \<Rightarrow> bool" where
  "cycle_inv s \<longleftrightarrow> (let r = s_router s in
     (r_done r \<longleftrightarrow> r_terminalErr r \<noteq> None) \<and>
     (r_receiveDone r \<longrightarrow> s_rx s = RX_Idle \<and> r_startOnce r) \<and>
     (\<not> r_startOnce r \<longrightarrow> s_rx s = RX_Idle) \<and>
     (s_inFinish s \<longrightarrow> r_finishOnce r) \<and>
     (r_finishOnce r \<longrightarrow> r_startOnce r) \<and>
     (r_finishOnce r \<and> \<not> s_inFinish s \<longrightarrow> r_receiveDone r \<and> finish_outcome r))"

lemmas cycle_defs = cycle_inv_def finish_outcome_def Let_def router_Start_def markReceiverDone_def
  outbound_validate_def receive_error_def receive_frame_def router_fail_def cancel_receive_def
  Finish_enter_def Finish_leave_def closeNormally_def

definition same_cycle :: "router \<Rightarrow> router \<Rightarrow> bool" where
  "same_cycle r r' \<longleftrightarrow> r_done r' = r_done r \<and> r_terminalErr r' = r_terminalErr r \<and>
     r_receiveDone r' = r_receiveDone r \<and> r_startOnce r' = r_startOnce r \<and>
     r_finishOnce r' = r_finishOnce r \<and> r_finishErr r' = r_finishErr r"

lemma same_cycle_deliver: "(e, r') \<in> set (deliver r ctx p f) \<Longrightarrow> same_cycle r r'"
  by (cases e) (auto simp: same_cycle_def dest!: deliver_ok deliver_error)

lemma same_cycle_recv: "(res, r') \<in> set (recv_select r ctx p) \<Longrightarrow> same_cycle r r'"
  using recv_select_cases [of res r' r ctx p] by (auto simp: same_cycle_def)

lemma same_cycle_out: "outbound_validate sha r p f = (e, r') \<Longrightarrow> same_cycle r r'"
  by (auto simp: outbound_validate_def same_cycle_def split: if_splits prod.splits)

lemma cycle_same:
  "cycle_inv s \<Longrightarrow> same_cycle (s_router s) (s_router s') \<Longrightarrow> s_inFinish s' = s_inFinish s \<Longrightarrow>
     s_rx s' = s_rx s \<or> (s_rx s \<noteq> RX_Idle \<and> s_rx s' \<noteq> RX_Idle) \<Longrightarrow> cycle_inv s'"
  by (auto simp: cycle_inv_def finish_outcome_def same_cycle_def Let_def)

lemma cycle_rx:
  assumes "cycle_inv s" "s_rx s \<noteq> RX_Idle" "s_inFinish s' = s_inFinish s"
    and "s_router s' = r \<or> s_router s' = router_fail r e" "same_cycle (s_router s) r"
  shows "cycle_inv s'"
  using assms by (auto simp: cycle_defs same_cycle_def)

lemma cycle_inv_step:
  assumes "cycle_inv s" "router_step sha s s'"
  shows "cycle_inv s'"
  using assms(2,1)
proof (induction rule: router_step.induct)
  case (StartS s launch r')
  then show ?case by (auto simp: cycle_defs split: if_splits)
next
  case (OutReject p s f e r')
  then show ?case using same_cycle_out by - (rule cycle_same [OF OutReject.prems], auto)
next
  case (OutAccept p s f r')
  then show ?case using same_cycle_out by - (rule cycle_same [OF OutAccept.prems], auto)
next
  case (OutDeliver s pre p f net post r' ctx)
  then show ?case using same_cycle_deliver by - (rule cycle_same [OF OutDeliver.prems], auto)
next
  case (OutDeliverErr s pre p f net post e r' ctx)
  then show ?case using same_cycle_deliver by - (rule cycle_same [OF OutDeliverErr.prems], auto)
next
  case (OutSend s pre f post)
  then show ?case by - (rule cycle_same [OF OutSend.prems], auto simp: same_cycle_def)
next
  case (RxError s e pc r')
  then show ?case
    by - (rule cycle_rx [OF RxError.prems, of _ "s_router s" e],
        auto simp: receive_error_def same_cycle_def split: if_splits)
next
  case (RxFrame s f pc r')
  obtain err v where v: "validateAndRecord sha (r_validator (s_router s)) f
      (c_PlatformPartyID (r_config (s_router s))) = (err, v)" by fastforce
  define r where "r = (if r_finishing (s_router s) then s_router s else (s_router s)\<lparr>r_validator := v\<rparr>)"
  have "r' = r \<or> r' = router_fail r (case err of Some e \<Rightarrow> e | None \<Rightarrow> ErrInvalidFrame)"
    using RxFrame.hyps(2) v by (auto simp: receive_frame_def r_def Let_def split: if_splits option.splits)
  then show ?case
    using RxFrame.hyps(1)
    by - (rule cycle_rx [OF RxFrame.prems, of _ r "case err of Some e \<Rightarrow> e | None \<Rightarrow> ErrInvalidFrame"],
        auto simp: r_def same_cycle_def)
next
  case (RxDeliver s f p ps r' ctx)
  then show ?case using same_cycle_deliver by - (rule cycle_same [OF RxDeliver.prems], auto)
next
  case (RxDeliverErr s f p ps e r' ctx pc r'')
  then show ?case using same_cycle_deliver [OF RxDeliverErr.hyps(2)]
    by - (rule cycle_rx [OF RxDeliverErr.prems, of _ r' e],
        auto simp: receive_error_def split: if_splits)
next
  case (RxDone s)
  then show ?case by (auto simp: cycle_defs)
next
  case (PartyRecv p s res r' ctx)
  then show ?case using same_cycle_recv by - (rule cycle_same [OF PartyRecv.prems], auto)
next
  case (FinishEnter s)
  then show ?case by (auto simp: cycle_defs)
next
  case (FinishLeave s)
  then show ?case by (auto simp: cycle_defs)
qed

lemma router_reach_cycle: "router_reach sha config s \<Longrightarrow> cycle_inv s"
proof (induction rule: router_reach.induct)
  case (reach_init r)
  then show ?case
    by (auto simp: router_New_def router_init_def cycle_inv_def finish_outcome_def split: if_splits)
next
  case (reach_step s s')
  then show ?case by (auto intro: cycle_inv_step)
qed

section \<open>Properties of the router\<close>

text \<open>
  C6. In every reachable state of the router, under every interleaving: an
  inbound queue never exceeds its capacity, holds no frame twice and holds only
  admitted frames meant for its party and not sent by it; what is handed to the
  network are admitted frames of the two local parties that are broadcast or
  addressed to the platform, so a frame between the two local parties never
  leaves the process; and no frame is handed to one destination twice.
\<close>

theorem router_deliveries_safe:
  assumes "router_reach sha config s"
  shows "(\<forall>p q. r_endpoints (s_router s) p = Some q \<longrightarrow>
       length q \<le> 256 \<and> distinct (map frameKey q) \<and>
       (\<forall>f\<in>set q. admitted_by sha (r_validator (s_router s)) f \<and> f_FromParty f \<noteq> p \<and>
          (f_Broadcast f \<or> f_ToParty f = p))) \<and>
     (\<forall>f. (c_PlatformPartyID config, f) \<in> set (s_handoff s) \<longrightarrow>
       admitted_by sha (r_validator (s_router s)) f \<and>
       f_FromParty f \<in> {c_PrimaryPartyID config, c_RecoveryPartyID config} \<and>
       (f_Broadcast f \<or> f_ToParty f = c_PlatformPartyID config)) \<and>
     distinct (map (\<lambda>x. (fst x, frameKey (snd x))) (s_handoff s))"
proof -
  have inv: "router_inv sha config s" using assms by (rule router_reach_inv)
  then have led: "ledger_ok (admitted_by sha (r_validator (s_router s))) (s_handoff s)"
    unfolding router_inv_def by (auto elim!: ledger_ok_mono simp: router_ledger_def)
  have routed: "route_ok sha config p f" if "(p, f) \<in> set (s_handoff s)" for p f
    using inv that by (force simp: router_inv_def router_ledger_def)
  have adm: "admitted_by sha (r_validator (s_router s)) f" if "(p, f) \<in> set (s_handoff s)" for p f
    using led that by (force simp: ledger_ok_def)
  have "f_FromParty f \<in> config_parties config" if "(p, f) \<in> set (s_handoff s)" for p f
    using routed [OF that] frame_shape_route(2) by (auto simp: route_ok_def)
  then show ?thesis
    using inv adm routed led
    by (auto simp: router_inv_def queues_ok_def partyQueueCapacity_def route_ok_def config_parties_def
        ledger_ok_def) blast+
qed

text \<open>
  C9. Once the router reports a terminal error, every later step leaves that
  error as it is: the first failure (or the normal close) is what every caller
  sees from then on.
\<close>

theorem router_terminal_error_stable:
  assumes "router_step sha s s'" "currentError (s_router s) = Some e"
  shows "currentError (s_router s') = Some e"
proof -
  have keep: "same_cycle r r' \<Longrightarrow> currentError r' = currentError r" for r r'
    by (simp add: same_cycle_def currentError_def)
  have closed: "r_done (s_router s)" using assms(2) by (simp add: currentError_def split: if_splits)
  from assms(1) closed have "currentError (s_router s') = currentError (s_router s)"
  proof (induction rule: router_step.induct)
    case (StartS s launch r')
    then show ?case by (auto simp: router_Start_def markReceiverDone_def currentError_def split: if_splits)
  next
    case (RxError s e pc r')
    then show ?case by (auto simp: receive_error_def router_fail_def split: if_splits)
  next
    case (RxFrame s f pc r')
    then show ?case
      by (auto simp: receive_frame_def router_fail_def currentError_def Let_def
          split: if_splits option.splits prod.splits)
  next
    case (RxDeliverErr s f p ps e r' ctx pc r'')
    then show ?case
      using deliver_error [OF RxDeliverErr.hyps(2)]
      by (auto simp: receive_error_def router_fail_def split: if_splits)
  next
    case (FinishLeave s)
    then show ?case by (simp add: Finish_leave_def closeNormally_def currentError_def Let_def)
  qed (auto simp: markReceiverDone_def Finish_enter_def cancel_receive_def currentError_def Let_def
      dest!: same_cycle_deliver same_cycle_recv same_cycle_out keep)
  then show ?thesis using assms(2) by simp
qed


text \<open>A run for the witnesses: the primary party sends to the platform, then the router finishes.\<close>

definition ex_router :: router where
  "ex_router = projr (router_New False ex_config)"

definition ex_send :: frame where
  "ex_send = ex_frame ''a'' 1 ''p1'' ''mpc-signer''"

definition ex_sent :: router_sys where
  "ex_sent = (let r = snd (outbound_validate id ex_router ''p1'' ex_send)
     in \<lparr>s_router = r, s_calls = [], s_rx = RX_Idle, s_handoff = [(''mpc-signer'', ex_send)],
         s_inFinish = False\<rparr>)"

definition ex_finished :: router_sys where
  "ex_finished = ex_sent\<lparr>s_router := Finish_leave (Finish_enter (s_router ex_sent))\<rparr>"

lemma ex_router_new: "router_New False ex_config = Inr ex_router"
  by (simp add: ex_router_def router_New_def ex_config_def)

lemma ex_sent_reach: "router_reach id ex_config ex_sent"
proof -
  let ?r = "snd (outbound_validate id ex_router ''p1'' ex_send)"
  have "outbound_validate id ex_router ''p1'' ex_send = (None, ?r)"
    by (rule prod_eqI) (simp_all, code_simp)
  moreover have "''p1'' \<in> dom (r_endpoints ex_router)" by code_simp
  ultimately have "router_step id (router_init ex_router)
      ((router_init ex_router)\<lparr>s_router := ?r, s_calls := [outbound_plan (r_config ?r) ''p1'' ex_send]\<rparr>)"
    using router_step.OutAccept [of "''p1''" "router_init ex_router" id ex_send ?r]
    by (simp add: router_init_def)
  moreover have "outbound_plan (r_config ?r) ''p1'' ex_send = OB_Network ex_send" by code_simp
  moreover have "c_PlatformPartyID (r_config ?r) = ''mpc-signer''" by code_simp
  ultimately show ?thesis
    using reach_init [OF ex_router_new, of id]
      router_step.OutSend [of "(router_init ex_router)\<lparr>s_router := ?r, s_calls := [OB_Network ex_send]\<rparr>"
        "[]" ex_send "[]" id]
    by (auto simp: ex_sent_def router_init_def Let_def intro: reach_step)
qed

lemma ex_finished_reach: "router_reach id ex_config ex_finished"
proof -
  let ?s = "ex_sent\<lparr>s_router := Finish_enter (s_router ex_sent), s_inFinish := True\<rparr>"
  have "\<not> r_finishOnce (s_router ex_sent)" by code_simp
  then have "router_reach id ex_config ?s"
    by (intro reach_step [OF ex_sent_reach] router_step.FinishEnter)
  moreover have "r_receiveDone (s_router ?s)" by code_simp
  ultimately have "router_reach id ex_config
      (?s\<lparr>s_router := Finish_leave (s_router ?s), s_inFinish := False\<rparr>)"
    by - (rule reach_step [of id ex_config ?s], assumption, rule router_step.FinishLeave, simp_all)
  moreover have "?s\<lparr>s_router := Finish_leave (s_router ?s), s_inFinish := False\<rparr> = ex_finished"
    by (simp add: ex_finished_def ex_sent_def Let_def)
  ultimately show ?thesis by simp
qed

theorem router_deliveries_safe_witness:
  "(''mpc-signer'', ex_send) \<in> set (s_handoff ex_sent) \<and>
   admitted_by id (r_validator (s_router ex_sent)) ex_send \<and>
   f_FromParty ex_send \<in> {''p1'', ''p2''} \<and>
   distinct (map (\<lambda>x. (fst x, frameKey (snd x))) (s_handoff ex_sent))"
proof -
  have h: "(''mpc-signer'', ex_send) \<in> set (s_handoff ex_sent)" by (simp add: ex_sent_def Let_def)
  show ?thesis
    using router_deliveries_safe [OF ex_sent_reach] h by (simp add: ex_config_def)
qed

theorem router_terminal_error_stable_witness:
  "currentError (s_router (ex_finished\<lparr>s_router := snd (router_Start (s_router ex_finished))\<rparr>)) = Some ErrRouterClosed"
proof (rule router_terminal_error_stable)
  have "\<not> fst (router_Start (s_router ex_finished))" by code_simp
  then show "router_step id ex_finished (ex_finished\<lparr>s_router := snd (router_Start (s_router ex_finished))\<rparr>)"
    using router_step.StartS [of ex_finished False "snd (router_Start (s_router ex_finished))" id]
    by (simp add: prod_eq_iff)
  show "currentError (s_router ex_finished) = Some ErrRouterClosed" by code_simp
qed


end
