(* ===== verification/Base64.thy ===== *)
theory Base64
  imports Prelude
begin

text \<open>
  The base64 codecs of the Go standard library that the program uses:
  \<open>base64.StdEncoding\<close> (padded) and \<open>base64.RawURLEncoding\<close> (unpadded, URL
  alphabet). Decoding skips carriage returns and line feeds and does not reject
  non-zero trailing bits, as the library does; the program re-encodes where it
  wants canonical text.
\<close>

section \<open>Alphabets\<close>

datatype b64_alphabet = StdAlphabet | URLAlphabet

definition b64_char :: "b64_alphabet \<Rightarrow> nat \<Rightarrow> char" where
  "b64_char a n =
     (if n < 26 then byte_of_nat (65 + n)
      else if n < 52 then byte_of_nat (71 + n)
      else if n < 62 then byte_of_nat (n - 4)
      else if n = 62 then (case a of StdAlphabet \<Rightarrow> CHR ''+'' | URLAlphabet \<Rightarrow> CHR ''-'')
      else (case a of StdAlphabet \<Rightarrow> CHR ''/'' | URLAlphabet \<Rightarrow> CHR ''_''))"

definition b64_val :: "b64_alphabet \<Rightarrow> char \<Rightarrow> nat option" where
  "b64_val a c =
     (let n = byte_val c in
      if 65 \<le> n \<and> n \<le> 90 then Some (n - 65)
      else if 97 \<le> n \<and> n \<le> 122 then Some (n - 71)
      else if 48 \<le> n \<and> n \<le> 57 then Some (n + 4)
      else if c = (case a of StdAlphabet \<Rightarrow> CHR ''+'' | URLAlphabet \<Rightarrow> CHR ''-'') then Some 62
      else if c = (case a of StdAlphabet \<Rightarrow> CHR ''/'' | URLAlphabet \<Rightarrow> CHR ''_'') then Some 63
      else None)"

section \<open>Six-bit groups\<close>

fun to_sextets :: "bytes \<Rightarrow> nat list" where
  "to_sextets [] = []"
| "to_sextets [a] = [byte_val a div 4, byte_val a mod 4 * 16]"
| "to_sextets [a, b] =
     [byte_val a div 4, byte_val a mod 4 * 16 + byte_val b div 16, byte_val b mod 16 * 4]"
| "to_sextets (a # b # c # r) =
     byte_val a div 4 # (byte_val a mod 4 * 16 + byte_val b div 16) #
     (byte_val b mod 16 * 4 + byte_val c div 64) # (byte_val c mod 64) # to_sextets r"

fun from_sextets :: "nat list \<Rightarrow> bytes option" where
  "from_sextets [] = Some []"
| "from_sextets [p] = None"
| "from_sextets [p, q] = Some [byte_of_nat (p * 4 + q div 16)]"
| "from_sextets [p, q, s] = Some [byte_of_nat (p * 4 + q div 16), byte_of_nat (q mod 16 * 16 + s div 4)]"
| "from_sextets (p # q # s # t # r) =
     (case from_sextets r of
        None \<Rightarrow> None
      | Some b \<Rightarrow> Some (byte_of_nat (p * 4 + q div 16) # byte_of_nat (q mod 16 * 16 + s div 4) #
                        byte_of_nat (s mod 4 * 64 + t) # b))"

fun all_some :: "'a option list \<Rightarrow> 'a list option" where
  "all_some [] = Some []"
| "all_some (None # xs) = None"
| "all_some (Some x # xs) = map_option (Cons x) (all_some xs)"

section \<open>Encoding and decoding\<close>

definition raw_url_encode :: "bytes \<Rightarrow> string" where
  "raw_url_encode b = map (b64_char URLAlphabet) (to_sextets b)"

definition skip_newlines :: "string \<Rightarrow> string" where
  "skip_newlines s = filter (\<lambda>c. c \<noteq> CHR 0x0A \<and> c \<noteq> CHR 0x0D) s"

definition raw_url_decode :: "string \<Rightarrow> bytes option" where
  "raw_url_decode s =
     Option.bind (all_some (map (b64_val URLAlphabet) (skip_newlines s))) from_sextets"

definition padding :: "nat \<Rightarrow> string" where
  "padding n = (if n mod 3 = 0 then '''' else if n mod 3 = 1 then ''=='' else ''='')"

definition std_encode :: "bytes \<Rightarrow> string" where
  "std_encode b = map (b64_char StdAlphabet) (to_sextets b) @ padding (length b)"

text \<open>Padding must complete the last group of four and stands only at the end.\<close>

definition std_decode :: "string \<Rightarrow> bytes option" where
  "std_decode s =
     (let t = skip_newlines s; body = takeWhile (\<lambda>c. c \<noteq> CHR ''='') t;
          pad = drop (length body) t
      in if length t mod 4 \<noteq> 0 \<or> (pad \<noteq> '''' \<and> pad \<noteq> ''='' \<and> pad \<noteq> ''=='')
         then None
         else Option.bind (all_some (map (b64_val StdAlphabet) body)) from_sextets)"

section \<open>Round trips\<close>

lemma b64_val_char: "n < 64 \<Longrightarrow> b64_val a (b64_char a n) = Some n"
proof -
  assume n: "n < 64"
  consider "n < 26" | "26 \<le> n" "n < 52" | "52 \<le> n" "n < 62" | "n = 62" | "n = 63" using n by linarith
  then show ?thesis
  proof cases
    case 1
    then have "byte_val (byte_of_nat (65 + n)) = 65 + n" by (intro byte_val_of_nat) linarith
    with 1 show ?thesis by (simp add: b64_val_def b64_char_def Let_def)
  next
    case 2
    then have "byte_val (byte_of_nat (71 + n)) = 71 + n" by (intro byte_val_of_nat) linarith
    with 2 show ?thesis by (simp add: b64_val_def b64_char_def Let_def)
  next
    case 3
    then have "byte_val (byte_of_nat (n - 4)) = n - 4" by (intro byte_val_of_nat) linarith
    moreover have "48 \<le> n - 4 \<and> n - 4 \<le> 57" using 3 by linarith
    ultimately show ?thesis using 3 by (simp add: b64_val_def b64_char_def Let_def)
  next
    case 4
    then show ?thesis by (cases a) (simp_all add: b64_val_def b64_char_def Let_def byte_val_def)
  next
    case 5
    then show ?thesis by (cases a) (simp_all add: b64_val_def b64_char_def Let_def byte_val_def)
  qed
qed

lemma byte_split:
  fixes x y :: nat
  assumes "y < 256"
  shows "x mod 4 * 16 + y div 16 < 64" "(x mod 4 * 16 + y div 16) div 16 = x mod 4"
    and "(x mod 4 * 16 + y div 16) mod 16 = y div 16"
    and "x mod 16 * 4 + y div 64 < 64" "(x mod 16 * 4 + y div 64) div 4 = x mod 16"
    and "(x mod 16 * 4 + y div 64) mod 4 = y div 64"
proof -
  have y: "y div 16 < 16" "y div 64 < 4" using assms by (simp_all add: div_less_iff_less_mult)
  have x: "x mod 4 < 4" "x mod 16 < 16" by simp_all
  show "x mod 4 * 16 + y div 16 < 64" "x mod 16 * 4 + y div 64 < 64" using x y by linarith+
  show "(x mod 4 * 16 + y div 16) div 16 = x mod 4" "(x mod 4 * 16 + y div 16) mod 16 = y div 16"
    "(x mod 16 * 4 + y div 64) div 4 = x mod 16" "(x mod 16 * 4 + y div 64) mod 4 = y div 64"
    using y by simp_all
qed

lemma byte_rejoin:
  fixes x :: nat
  shows "x div 4 * 4 + x mod 4 = x" "x div 16 * 16 + x mod 16 = x" "x div 64 * 64 + x mod 64 = x"
  by simp_all

lemma from_to_sextets [simp]: "from_sextets (to_sextets b) = Some b"
proof (induction b rule: to_sextets.induct)
  case (2 a)
  then show ?case by (simp add: byte_rejoin)
next
  case (3 a b)
  have "(byte_val a mod 4 * 16 + byte_val b div 16) div 16 = byte_val a mod 4"
    "(byte_val a mod 4 * 16 + byte_val b div 16) mod 16 = byte_val b div 16"
    by (rule byte_split, simp)+
  then show ?case by (simp add: byte_rejoin)
next
  case (4 a b c r)
  have "(byte_val a mod 4 * 16 + byte_val b div 16) div 16 = byte_val a mod 4"
    "(byte_val a mod 4 * 16 + byte_val b div 16) mod 16 = byte_val b div 16"
    "(byte_val b mod 16 * 4 + byte_val c div 64) div 4 = byte_val b mod 16"
    "(byte_val b mod 16 * 4 + byte_val c div 64) mod 4 = byte_val c div 64"
    by (rule byte_split, simp)+
  with 4 show ?case by (simp add: byte_rejoin)
qed simp

lemma byte_val_div_4: "byte_val c div 4 < 64"
  using byte_val_less [of c] by (simp add: div_less_iff_less_mult)

lemma mod_times_less: "x mod 4 * 16 < (64::nat)" "x mod 16 * 4 < (64::nat)"
  using mod_less_divisor [of 4 x] mod_less_divisor [of 16 x] by linarith+

lemma sextets_small: "list_all (\<lambda>n. n < 64) (to_sextets b)"
  by (induction b rule: to_sextets.induct)
    (simp_all add: byte_val_div_4 mod_times_less byte_split)

lemma all_some_map_Some [simp]: "all_some (map Some xs) = Some xs"
  by (induction xs) simp_all

lemma all_some_length: "all_some xs = Some ys \<Longrightarrow> length ys = length xs"
  by (induction xs arbitrary: ys rule: all_some.induct) auto

lemma b64_vals_chars:
  "list_all (\<lambda>n. n < 64) ns \<Longrightarrow> all_some (map (b64_val a) (map (b64_char a) ns)) = Some ns"
  by (induction ns) (simp_all add: b64_val_char)

lemma b64_char_plain:
  assumes "n < 64"
  shows "b64_char a n \<noteq> CHR 0x0A" "b64_char a n \<noteq> CHR 0x0D" "b64_char a n \<noteq> CHR ''=''"
proof -
  have "b64_val a (CHR 0x0A) = None" "b64_val a (CHR 0x0D) = None" "b64_val a (CHR ''='') = None"
    by (cases a; simp add: b64_val_def byte_val_def)+
  then show "b64_char a n \<noteq> CHR 0x0A" "b64_char a n \<noteq> CHR 0x0D" "b64_char a n \<noteq> CHR ''=''"
    using b64_val_char [OF assms, of a] by (metis option.distinct(1))+
qed

lemma skip_newlines_chars [simp]:
  "list_all (\<lambda>n. n < 64) ns \<Longrightarrow> skip_newlines (map (b64_char a) ns) = map (b64_char a) ns"
  by (induction ns) (simp_all add: skip_newlines_def b64_char_plain)

lemma raw_url_decode_encode [simp]: "raw_url_decode (raw_url_encode b) = Some b"
  by (simp add: raw_url_decode_def raw_url_encode_def sextets_small b64_vals_chars
      del: map_map list.map_comp)

lemma length_to_sextets: "length (to_sextets b) = (length b div 3) * 4 + (if length b mod 3 = 0 then 0 else length b mod 3 + 1)"
proof (induction b rule: to_sextets.induct)
  case (4 a b c r)
  have "(3 + length r) div 3 = Suc (length r div 3)" "(3 + length r) mod 3 = length r mod 3" by simp_all
  with 4 show ?case by (simp add: numeral_3_eq_3 [symmetric] del: div_Suc_eq_div_add3 mod_Suc_eq_mod_add3)
qed simp_all

lemma length_raw_url_encode_32: "length b = 32 \<Longrightarrow> length (raw_url_encode b) = 43"
  by (simp add: raw_url_encode_def length_to_sextets)

lemma takeWhile_chars:
  assumes "list_all (\<lambda>n. n < 64) ns" "p = '''' \<or> p = ''='' \<or> p = ''==''"
  shows "takeWhile (\<lambda>c. c \<noteq> CHR ''='') (map (b64_char a) ns @ p) = map (b64_char a) ns"
  using assms by (induction ns) (auto simp: b64_char_plain)

lemma std_decode_encode [simp]: "std_decode (std_encode b) = Some b"
proof -
  let ?m = "map (b64_char StdAlphabet) (to_sextets b)" and ?p = "padding (length b)"
  have small: "list_all (\<lambda>n. n < 64) (to_sextets b)" by (rule sextets_small)
  have p: "?p = '''' \<or> ?p = ''='' \<or> ?p = ''==''" by (simp add: padding_def)
  have skip: "skip_newlines (?m @ ?p) = ?m @ ?p"
    using skip_newlines_chars [OF small, of StdAlphabet] p by (auto simp: skip_newlines_def)
  have len: "length (?m @ ?p) mod 4 = 0"
    by (simp add: length_to_sextets padding_def) presburger
  show ?thesis
    unfolding std_decode_def std_encode_def skip Let_def takeWhile_chars [OF small p]
    using len p b64_vals_chars [OF small, of StdAlphabet] by auto
qed

end
