(* ===== verification/StrictJson.thy ===== *)
theory StrictJson
  imports Prelude
begin

text \<open>
  Strict JSON decoding: \<open>src/internal/strictjson/decode.go\<close> and the token scan of
  \<open>src/internal/contract/mpc2of3/jcs.go\<close>. Both run over the token stream of a
  \<open>json.Decoder\<close>, which is a list of tokens here: the tokens the decoder delivers
  before it reports end of input or a syntax error, with a flag that says which
  of the two ends the stream. The decoder only delivers well-nested tokens;
  \<open>tokens v\<close> is the stream of the value \<open>v\<close>. Numbers keep their text
  (\<open>UseNumber\<close>).
\<close>

section \<open>Values and tokens\<close>

datatype json =
    JNull
  | JBool bool
  | JNum string
  | JStr string
  | JArr "json list"
  | JObj "(string \<times> json) list"

datatype jtok = TObj | TObjEnd | TArr | TArrEnd | TStr string | TNum string | TBool bool | TNull

fun tokens :: "json \<Rightarrow> jtok list" and tokens_list :: "json list \<Rightarrow> jtok list"
  and tokens_members :: "(string \<times> json) list \<Rightarrow> jtok list" where
  "tokens JNull = [TNull]"
| "tokens (JBool b) = [TBool b]"
| "tokens (JNum s) = [TNum s]"
| "tokens (JStr s) = [TStr s]"
| "tokens (JArr vs) = TArr # tokens_list vs @ [TArrEnd]"
| "tokens (JObj ms) = TObj # tokens_members ms @ [TObjEnd]"
| "tokens_list [] = []"
| "tokens_list (v # vs) = tokens v @ tokens_list vs"
| "tokens_members [] = []"
| "tokens_members ((k, v) # ms) = TStr k # tokens v @ tokens_members ms"

datatype json_err =
    ErrSyntax
  | ErrDelimiter
  | ErrNameNotString
  | ErrDuplicateKey string
  | ErrMultipleValues
  | ErrNumber string
  | ErrFuel

text \<open>\<open>decoder.More\<close>: another element follows in the current array or object.\<close>

definition More :: "jtok list \<Rightarrow> bool" where
  "More s = (case s of [] \<Rightarrow> False | t # _ \<Rightarrow> t \<noteq> TObjEnd \<and> t \<noteq> TArrEnd)"

section \<open>Duplicate keys\<close>

text \<open>
  \<open>walkValue\<close> with its two loops. Every call and every iteration consumes a token
  before it goes on, so fuel above the stream's length is never used up; that is
  part of the lemmas below.
\<close>

fun walkValue :: "nat \<Rightarrow> jtok list \<Rightarrow> (json_err, jtok list) result"
  and walk_members :: "nat \<Rightarrow> string list \<Rightarrow> jtok list \<Rightarrow> (json_err, jtok list) result"
  and walk_items :: "nat \<Rightarrow> jtok list \<Rightarrow> (json_err, jtok list) result" where
  "walkValue 0 s = Inl ErrFuel"
| "walkValue (Suc n) s =
     (case s of
        [] \<Rightarrow> Inl ErrSyntax
      | TObj # r \<Rightarrow> walk_members n [] r
      | TArr # r \<Rightarrow> walk_items n r
      | TObjEnd # r \<Rightarrow> Inl ErrDelimiter
      | TArrEnd # r \<Rightarrow> Inl ErrDelimiter
      | t # r \<Rightarrow> Inr r)"
| "walk_members 0 seen s = Inl ErrFuel"
| "walk_members (Suc n) seen s =
     (if More s then
        (case s of
           TStr name # r \<Rightarrow>
             if name \<in> set seen then Inl (ErrDuplicateKey name)
             else (case walkValue n r of
                     Inl e \<Rightarrow> Inl e
                   | Inr r' \<Rightarrow> walk_members n (name # seen) r')
         | _ \<Rightarrow> Inl ErrNameNotString)
      else (case s of [] \<Rightarrow> Inl ErrSyntax | t # r \<Rightarrow> Inr r))"
| "walk_items 0 s = Inl ErrFuel"
| "walk_items (Suc n) s =
     (if More s then
        (case walkValue n s of Inl e \<Rightarrow> Inl e | Inr r' \<Rightarrow> walk_items n r')
      else (case s of [] \<Rightarrow> Inl ErrSyntax | t # r \<Rightarrow> Inr r))"

definition rejectDuplicateKeys :: "jtok list \<Rightarrow> bool \<Rightarrow> json_err err" where
  "rejectDuplicateKeys s eof =
     (case walkValue (Suc (length s)) s of
        Inl e \<Rightarrow> Some e
      | Inr [] \<Rightarrow> if eof then None else Some ErrSyntax
      | Inr (t # r) \<Rightarrow> Some ErrMultipleValues)"

section \<open>The scan before canonicalisation\<close>

definition maxSafeJSONInteger :: nat where
  "maxSafeJSONInteger = 2 ^ 53 - 1"

text \<open>The pattern, then \<open>strconv.ParseUint(s, 10, 64)\<close>, which fails beyond 64 bits.\<close>

definition scan_number_ok :: "string \<Rightarrow> bool" where
  "scan_number_ok s \<longleftrightarrow> canonical_digits s \<and> digits_val s < 2 ^ 64 \<and> digits_val s \<le> maxSafeJSONInteger"

fun scanJSONValue :: "nat \<Rightarrow> jtok list \<Rightarrow> (json_err, jtok list) result"
  and scan_members :: "nat \<Rightarrow> string list \<Rightarrow> jtok list \<Rightarrow> (json_err, jtok list) result"
  and scan_items :: "nat \<Rightarrow> jtok list \<Rightarrow> (json_err, jtok list) result" where
  "scanJSONValue 0 s = Inl ErrFuel"
| "scanJSONValue (Suc n) s =
     (case s of
        [] \<Rightarrow> Inl ErrSyntax
      | TObj # r \<Rightarrow> scan_members n [] r
      | TArr # r \<Rightarrow> scan_items n r
      | TNum t # r \<Rightarrow> if scan_number_ok t then Inr r else Inl (ErrNumber t)
      | t # r \<Rightarrow> Inr r)"
| "scan_members 0 seen s = Inl ErrFuel"
| "scan_members (Suc n) seen s =
     (if More s then
        (case s of
           TStr key # r \<Rightarrow>
             if key \<in> set seen then Inl (ErrDuplicateKey key)
             else (case scanJSONValue n r of
                     Inl e \<Rightarrow> Inl e
                   | Inr r' \<Rightarrow> scan_members n (key # seen) r')
         | _ \<Rightarrow> Inl ErrNameNotString)
      else (case s of [] \<Rightarrow> Inl ErrSyntax | t # r \<Rightarrow> Inr r))"
| "scan_items 0 s = Inl ErrFuel"
| "scan_items (Suc n) s =
     (if More s then
        (case scanJSONValue n s of Inl e \<Rightarrow> Inl e | Inr r' \<Rightarrow> scan_items n r')
      else (case s of [] \<Rightarrow> Inl ErrSyntax | t # r \<Rightarrow> Inr r))"

definition validateJSONTokens :: "jtok list \<Rightarrow> bool \<Rightarrow> json_err err" where
  "validateJSONTokens s eof =
     (case scanJSONValue (Suc (length s)) s of
        Inl e \<Rightarrow> Some e
      | Inr r \<Rightarrow> if r = [] \<and> eof then None else Some ErrMultipleValues)"

section \<open>What the scans decide\<close>

fun keys_distinct :: "json \<Rightarrow> bool" and keys_distinct_list :: "json list \<Rightarrow> bool"
  and keys_distinct_members :: "(string \<times> json) list \<Rightarrow> bool" where
  "keys_distinct (JArr vs) = keys_distinct_list vs"
| "keys_distinct (JObj ms) = (distinct (map fst ms) \<and> keys_distinct_members ms)"
| "keys_distinct _ = True"
| "keys_distinct_list [] = True"
| "keys_distinct_list (v # vs) = (keys_distinct v \<and> keys_distinct_list vs)"
| "keys_distinct_members [] = True"
| "keys_distinct_members ((k, v) # ms) = (keys_distinct v \<and> keys_distinct_members ms)"

fun numbers_ok :: "json \<Rightarrow> bool" and numbers_ok_list :: "json list \<Rightarrow> bool"
  and numbers_ok_members :: "(string \<times> json) list \<Rightarrow> bool" where
  "numbers_ok (JNum s) = scan_number_ok s"
| "numbers_ok (JArr vs) = numbers_ok_list vs"
| "numbers_ok (JObj ms) = numbers_ok_members ms"
| "numbers_ok _ = True"
| "numbers_ok_list [] = True"
| "numbers_ok_list (v # vs) = (numbers_ok v \<and> numbers_ok_list vs)"
| "numbers_ok_members [] = True"
| "numbers_ok_members ((k, v) # ms) = (numbers_ok v \<and> numbers_ok_members ms)"

lemma tokens_first: "\<exists>t r. tokens v = t # r \<and> t \<noteq> TObjEnd \<and> t \<noteq> TArrEnd"
  by (cases v) auto

lemma More_tokens [simp]: "More (tokens v @ s)"
  using tokens_first [of v] by (auto simp: More_def)

lemma More_TStr [simp]: "More (TStr k # s)"
  by (simp add: More_def)

lemma More_end [simp]: "\<not> More (TObjEnd # s)" "\<not> More (TArrEnd # s)" "\<not> More []"
  by (simp_all add: More_def)

text \<open>
  The verdict of a scan: the rest of the stream when the tested condition holds,
  an error of the expected kind when it does not. Running out of fuel or a
  syntax error is neither.
\<close>

definition scan_verdict ::
  "(json_err \<Rightarrow> bool) \<Rightarrow> (json_err, jtok list) result \<Rightarrow> bool \<Rightarrow> jtok list \<Rightarrow> bool" where
  "scan_verdict bad r ok rest \<longleftrightarrow> (if ok then r = Inr rest else (\<exists>e. r = Inl e \<and> bad e))"

lemma scan_verdict_bind:
  assumes "scan_verdict bad r ok rest" "ok \<Longrightarrow> scan_verdict bad (f rest) ok' rest'"
  shows "scan_verdict bad (case r of Inl e \<Rightarrow> Inl e | Inr x \<Rightarrow> f x) (ok \<and> ok') rest'"
  using assms by (auto simp: scan_verdict_def split: if_splits)

definition is_dup :: "json_err \<Rightarrow> bool" where
  "is_dup e \<longleftrightarrow> (\<exists>k. e = ErrDuplicateKey k)"

definition is_scan_err :: "json_err \<Rightarrow> bool" where
  "is_scan_err e \<longleftrightarrow> is_dup e \<or> (\<exists>s. e = ErrNumber s)"

lemma walk_verdicts:
  shows "length (tokens v) < n \<Longrightarrow>
      scan_verdict is_dup (walkValue n (tokens v @ rest)) (keys_distinct v) rest"
    and "Suc (length (tokens_list vs)) < n \<Longrightarrow>
      scan_verdict is_dup (walk_items n (tokens_list vs @ TArrEnd # rest)) (keys_distinct_list vs) rest"
    and "length (tokens_members ms) < n \<Longrightarrow>
      scan_verdict is_dup (walk_members n seen (tokens_members ms @ TObjEnd # rest))
        (distinct (map fst ms) \<and> set seen \<inter> fst ` set ms = {} \<and> keys_distinct_members ms) rest"
proof (induction v and vs and ms arbitrary: n rest and n rest and n seen rest
    rule: tokens_tokens_list_tokens_members.induct)
  case (5 vs)
  then show ?case by (cases n) simp_all
next
  case (6 ms)
  then obtain m where "n = Suc m" by (cases n) auto
  with 6(1) [of m "[]" rest] 6(2) show ?case by simp
next
  case 7
  then show ?case by (cases n) (simp_all add: scan_verdict_def)
next
  case (8 v vs)
  then obtain m where n: "n = Suc m" by (cases n) auto
  have "tokens v \<noteq> []" using tokens_first [of v] by auto
  then have lens: "length (tokens v) < m" "Suc (length (tokens_list vs)) < m"
    using 8(3) n by (cases "tokens v"; simp)+
  show ?case
    using scan_verdict_bind [where f = "walk_items m", OF 8(1) [OF lens(1), of "tokens_list vs @ TArrEnd # rest"]
        8(2) [OF lens(2), of rest]]
    by (simp add: n)
next
  case 9
  then show ?case by (cases n) (simp_all add: scan_verdict_def)
next
  case (10 k v ms)
  then obtain m where n: "n = Suc m" by (cases n) auto
  have lens: "length (tokens v) < m" "length (tokens_members ms) < m"
    using 10(3) tokens_first [of v] n by auto
  show ?case
  proof (cases "k \<in> set seen")
    case True
    then show ?thesis by (simp add: n scan_verdict_def is_dup_def)
  next
    case False
    have ok: "(distinct (map fst ((k, v) # ms)) \<and> set seen \<inter> fst ` set ((k, v) # ms) = {} \<and>
        keys_distinct_members ((k, v) # ms)) \<longleftrightarrow> keys_distinct v \<and>
        (distinct (map fst ms) \<and> set (k # seen) \<inter> fst ` set ms = {} \<and> keys_distinct_members ms)"
      using False by auto
    have "walk_members n seen (tokens_members ((k, v) # ms) @ TObjEnd # rest) =
        (case walkValue m (tokens v @ tokens_members ms @ TObjEnd # rest) of
           Inl e \<Rightarrow> Inl e | Inr r' \<Rightarrow> walk_members m (k # seen) r')"
      using False by (simp add: n)
    then show ?thesis
      unfolding ok
      using scan_verdict_bind [where f = "walk_members m (k # seen)", OF 10(1) [OF lens(1), of "tokens_members ms @ TObjEnd # rest"]
          10(2) [OF lens(2), of "k # seen" rest]]
      by simp
  qed
qed (auto simp: scan_verdict_def neq0_conv dest!: gr0_implies_Suc less_imp_Suc_add)

lemma scan_verdicts:
  shows "length (tokens v) < n \<Longrightarrow>
      scan_verdict is_scan_err (scanJSONValue n (tokens v @ rest)) (keys_distinct v \<and> numbers_ok v) rest"
    and "Suc (length (tokens_list vs)) < n \<Longrightarrow>
      scan_verdict is_scan_err (scan_items n (tokens_list vs @ TArrEnd # rest)) (keys_distinct_list vs \<and> numbers_ok_list vs) rest"
    and "length (tokens_members ms) < n \<Longrightarrow>
      scan_verdict is_scan_err (scan_members n seen (tokens_members ms @ TObjEnd # rest))
        (distinct (map fst ms) \<and> set seen \<inter> fst ` set ms = {} \<and> keys_distinct_members ms \<and>
         numbers_ok_members ms) rest"
proof (induction v and vs and ms arbitrary: n rest and n rest and n seen rest
    rule: tokens_tokens_list_tokens_members.induct)
  case (5 vs)
  then show ?case by (cases n) simp_all
next
  case (6 ms)
  then obtain m where "n = Suc m" by (cases n) auto
  with 6(1) [of m "[]" rest] 6(2) show ?case by simp
next
  case 7
  then show ?case by (cases n) (simp_all add: scan_verdict_def)
next
  case (8 v vs)
  then obtain m where n: "n = Suc m" by (cases n) auto
  have "tokens v \<noteq> []" using tokens_first [of v] by auto
  then have lens: "length (tokens v) < m" "Suc (length (tokens_list vs)) < m"
    using 8(3) n by (cases "tokens v"; simp)+
  show ?case
    using scan_verdict_bind [where f = "scan_items m", OF 8(1) [OF lens(1), of "tokens_list vs @ TArrEnd # rest"]
        8(2) [OF lens(2), of rest]]
    by (simp add: n conj_ac)
next
  case 9
  then show ?case by (cases n) (simp_all add: scan_verdict_def)
next
  case (10 k v ms)
  then obtain m where n: "n = Suc m" by (cases n) auto
  have lens: "length (tokens v) < m" "length (tokens_members ms) < m"
    using 10(3) tokens_first [of v] n by auto
  show ?case
  proof (cases "k \<in> set seen")
    case True
    then show ?thesis by (simp add: n scan_verdict_def is_scan_err_def is_dup_def)
  next
    case False
    have ok: "(distinct (map fst ((k, v) # ms)) \<and> set seen \<inter> fst ` set ((k, v) # ms) = {} \<and>
        keys_distinct_members ((k, v) # ms) \<and> numbers_ok_members ((k, v) # ms)) \<longleftrightarrow>
        (keys_distinct v \<and> numbers_ok v) \<and>
        (distinct (map fst ms) \<and> set (k # seen) \<inter> fst ` set ms = {} \<and> keys_distinct_members ms \<and>
         numbers_ok_members ms)"
      using False by auto
    have "scan_members n seen (tokens_members ((k, v) # ms) @ TObjEnd # rest) =
        (case scanJSONValue m (tokens v @ tokens_members ms @ TObjEnd # rest) of
           Inl e \<Rightarrow> Inl e | Inr r' \<Rightarrow> scan_members m (k # seen) r')"
      using False by (simp add: n)
    then show ?thesis
      unfolding ok
      using scan_verdict_bind [where f = "scan_members m (k # seen)", OF 10(1) [OF lens(1), of "tokens_members ms @ TObjEnd # rest"]
          10(2) [OF lens(2), of "k # seen" rest]]
      by simp
  qed
qed (auto simp: scan_verdict_def is_scan_err_def neq0_conv dest!: gr0_implies_Suc less_imp_Suc_add)

section \<open>Decoding into a closed struct\<close>

text \<open>
  \<open>DecodeClosed\<close> on one object value, down to which member is assigned to which
  field, in the order of the members: \<open>encoding/json\<close> looks a member name up among
  the field names exactly and, failing that, by case folding;
  \<open>DisallowUnknownFields\<close> refuses a name that matches no field. A later
  assignment to a field replaces an earlier one; assigning null to a string or a
  number leaves it as it is.
\<close>

datatype decode_err = DecodeJson json_err | ErrUnknownField string | ErrFieldType string | ErrNotAnObject

definition match_field :: "string list \<Rightarrow> string \<Rightarrow> string option" where
  "match_field names key =
     (if key \<in> set names then Some key else find (\<lambda>n. EqualFold n key) names)"

fun match_members ::
  "string list \<Rightarrow> (string \<times> json) list \<Rightarrow> (decode_err, (string \<times> json) list) result" where
  "match_members names [] = Inr []"
| "match_members names ((k, v) # ms) =
     (case match_field names k of
        None \<Rightarrow> Inl (ErrUnknownField k)
      | Some n \<Rightarrow> bind_res (match_members names ms) (\<lambda>r. Inr ((n, v) # r)))"

fun DecodeObject :: "string list \<Rightarrow> json \<Rightarrow> (decode_err, (string \<times> json) list) result" where
  "DecodeObject names (JObj ms) = match_members names ms"
| "DecodeObject names JNull = Inr []"
| "DecodeObject names _ = Inl ErrNotAnObject"

definition DecodeClosed :: "string list \<Rightarrow> json \<Rightarrow> (decode_err, (string \<times> json) list) result" where
  "DecodeClosed names v =
     (case rejectDuplicateKeys (tokens v) True of
        Some e \<Rightarrow> Inl (DecodeJson e)
      | None \<Rightarrow> DecodeObject names v)"

text \<open>The assignments of one field, in order, and the string and integer they leave in it.\<close>

definition assigned :: "(string \<times> json) list \<Rightarrow> string \<Rightarrow> json list" where
  "assigned as n = map snd (filter (\<lambda>a. fst a = n) as)"

fun string_field :: "string \<Rightarrow> json list \<Rightarrow> string option" where
  "string_field cur [] = Some cur"
| "string_field cur (JNull # vs) = string_field cur vs"
| "string_field cur (JStr s # vs) = string_field s vs"
| "string_field cur (_ # vs) = None"

text \<open>\<open>strconv.ParseInt(s, 10, 64)\<close> on a JSON number: no fraction, no exponent, 64-bit range.\<close>

definition parse_int64 :: "string \<Rightarrow> int option" where
  "parse_int64 s = (case parse_bigint s of
     Some i \<Rightarrow> if - (2 ^ 63) \<le> i \<and> i < 2 ^ 63 then Some i else None | None \<Rightarrow> None)"

fun int_field :: "int \<Rightarrow> json list \<Rightarrow> int option" where
  "int_field cur [] = Some cur"
| "int_field cur (JNull # vs) = int_field cur vs"
| "int_field cur (JNum s # vs) = (case parse_int64 s of None \<Rightarrow> None | Some i \<Rightarrow> int_field i vs)"
| "int_field cur (_ # vs) = None"

lemma match_members_exact:
  "set (map fst ms) \<subseteq> set names \<Longrightarrow> match_members names ms = Inr ms"
  by (induction ms) (auto simp: match_field_def bind_res_def)

lemma match_members_unknown:
  assumes "k \<in> set (map fst ms)" "match_field names k = None"
  shows "\<exists>k'. match_members names ms = Inl (ErrUnknownField k')"
  using assms(1)
proof (induction ms)
  case (Cons m ms)
  then show ?case
    using assms(2) by (cases m; cases "match_field names (fst m)") (auto simp: bind_res_def rev_image_eqI)
qed simp

text \<open>
  Two members whose names differ in case only are two distinct keys for the
  duplicate check and one field for the decoder: the second one wins.
\<close>

lemma closed_decode_folds_case:
  "keys_distinct (JObj [(''keyId'', JStr ''a''), (''KEYID'', JStr ''b'')])"
  "DecodeClosed [''keyId''] (JObj [(''keyId'', JStr ''a''), (''KEYID'', JStr ''b'')])
     = Inr [(''keyId'', JStr ''a''), (''keyId'', JStr ''b'')]"
  by code_simp+

section \<open>Properties\<close>

lemma length_tokens_fuel: "length (tokens v) < Suc (length (tokens v))"
  by simp

lemma rejectDuplicateKeys_iff: "rejectDuplicateKeys (tokens v) True = None \<longleftrightarrow> keys_distinct v"
  using walk_verdicts(1) [OF length_tokens_fuel [of v], of "[]"]
  by (auto simp: rejectDuplicateKeys_def scan_verdict_def split: if_splits)

lemma validateJSONTokens_iff:
  "validateJSONTokens (tokens v) True = None \<longleftrightarrow> keys_distinct v \<and> numbers_ok v"
  using scan_verdicts(1) [OF length_tokens_fuel [of v], of "[]"]
  by (auto simp: validateJSONTokens_def scan_verdict_def split: if_splits)


text \<open>
  A closed decode of an object whose member names are field names, spelled
  exactly, assigns every member to the field of its name and nothing else; an
  object with a member name that matches no field is refused.
\<close>

theorem DecodeClosed_exact_fields:
  assumes "keys_distinct (JObj ms)"
  shows "(set (map fst ms) \<subseteq> set names \<longrightarrow> DecodeClosed names (JObj ms) = Inr ms) \<and>
    (\<forall>k\<in>set (map fst ms). match_field names k = None \<longrightarrow>
       (\<exists>k'. DecodeClosed names (JObj ms) = Inl (ErrUnknownField k')))"
proof -
  have ok: "rejectDuplicateKeys (tokens (JObj ms)) True = None"
    using walk_verdicts(1) [OF length_tokens_fuel [of "JObj ms"], of "[]"] assms
    by (auto simp: rejectDuplicateKeys_def scan_verdict_def)
  then show ?thesis
    using match_members_exact [of ms names] match_members_unknown [of _ ms names]
    by (auto simp: DecodeClosed_def simp del: tokens.simps)
qed


end
