(* ===== verification/JsonText.thy ===== *)
theory JsonText
  imports StrictJson
begin

text \<open>
  JSON text as \<open>encoding/json\<close> reads it: UTF-8, the grammar of values, string
  unquoting (an invalid byte or an unpaired surrogate becomes U+FFFD), numbers
  kept as text. \<open>json_parse\<close> is the one value a byte slice holds, if it holds
  exactly one; the parsers recurse on fuel bounded by the text's length.
\<close>

section \<open>UTF-8\<close>

definition in_range :: "nat \<Rightarrow> nat \<Rightarrow> char \<Rightarrow> bool" where
  "in_range lo hi c \<longleftrightarrow> lo \<le> byte_val c \<and> byte_val c \<le> hi"

text \<open>Length in bytes of the valid encoding at the head of a string, 0 if there is none.\<close>

fun rune_len :: "string \<Rightarrow> nat" where
  "rune_len [] = 0"
| "rune_len (a # s) =
     (if byte_val a < 128 then 1
      else if in_range 0xC2 0xDF a then
        (case s of b # _ \<Rightarrow> if in_range 0x80 0xBF b then 2 else 0 | _ \<Rightarrow> 0)
      else if in_range 0xE0 0xEF a then
        (case s of b # c # _ \<Rightarrow>
           if in_range (if byte_val a = 0xE0 then 0xA0 else 0x80) (if byte_val a = 0xED then 0x9F else 0xBF) b
              \<and> in_range 0x80 0xBF c then 3 else 0
         | _ \<Rightarrow> 0)
      else if in_range 0xF0 0xF4 a then
        (case s of b # c # d # _ \<Rightarrow>
           if in_range (if byte_val a = 0xF0 then 0x90 else 0x80) (if byte_val a = 0xF4 then 0x8F else 0xBF) b
              \<and> in_range 0x80 0xBF c \<and> in_range 0x80 0xBF d then 4 else 0
         | _ \<Rightarrow> 0)
      else 0)"

text \<open>\<open>utf8.Valid\<close>.\<close>

fun utf8_valid_fuel :: "nat \<Rightarrow> string \<Rightarrow> bool" where
  "utf8_valid_fuel 0 s = (s = [])"
| "utf8_valid_fuel (Suc n) s =
     (s = [] \<or> (rune_len s \<noteq> 0 \<and> utf8_valid_fuel n (drop (rune_len s) s)))"

definition utf8_valid :: "string \<Rightarrow> bool" where
  "utf8_valid s = utf8_valid_fuel (length s) s"

definition utf8_encode :: "nat \<Rightarrow> string" where
  "utf8_encode n =
     (if n < 0x80 then [byte_of_nat n]
      else if n < 0x800 then [byte_of_nat (0xC0 + n div 64), byte_of_nat (0x80 + n mod 64)]
      else if n < 0x10000 then
        [byte_of_nat (0xE0 + n div 4096), byte_of_nat (0x80 + n div 64 mod 64), byte_of_nat (0x80 + n mod 64)]
      else [byte_of_nat (0xF0 + n div 262144), byte_of_nat (0x80 + n div 4096 mod 64),
            byte_of_nat (0x80 + n div 64 mod 64), byte_of_nat (0x80 + n mod 64)])"

definition rune_error :: string where
  "rune_error = [CHR 0xEF, CHR 0xBF, CHR 0xBD]"

section \<open>Lexical pieces\<close>

definition is_ws :: "char \<Rightarrow> bool" where
  "is_ws c \<longleftrightarrow> c = CHR 0x20 \<or> c = CHR 0x09 \<or> c = CHR 0x0A \<or> c = CHR 0x0D"

definition skip_ws :: "string \<Rightarrow> string" where
  "skip_ws s = dropWhile is_ws s"

fun hex4 :: "string \<Rightarrow> (nat \<times> string) option" where
  "hex4 (a # b # c # d # r) =
     (case (hex_val a, hex_val b, hex_val c, hex_val d) of
        (Some w, Some x, Some y, Some z) \<Rightarrow> Some (4096 * w + 256 * x + 16 * y + z, r)
      | _ \<Rightarrow> None)"
| "hex4 _ = None"

definition is_high :: "nat \<Rightarrow> bool" where
  "is_high n \<longleftrightarrow> 0xD800 \<le> n \<and> n < 0xDC00"

definition is_low :: "nat \<Rightarrow> bool" where
  "is_low n \<longleftrightarrow> 0xDC00 \<le> n \<and> n < 0xE000"

text \<open>The text of \<open>\uXXXX\<close> after the \<open>u\<close>: a surrogate pair is one rune.\<close>

definition unicode_escape :: "string \<Rightarrow> (string \<times> string) option" where
  "unicode_escape s =
     (case hex4 s of
        None \<Rightarrow> None
      | Some (n, r) \<Rightarrow>
          if is_high n then
            (case strip_prefix [CHR 0x5C, CHR ''u''] r of
               None \<Rightarrow> Some (rune_error, r)
             | Some r1 \<Rightarrow>
                 (case hex4 r1 of
                    None \<Rightarrow> None
                  | Some (m, r2) \<Rightarrow>
                      if is_low m then Some (utf8_encode (0x10000 + (n - 0xD800) * 1024 + (m - 0xDC00)), r2)
                      else Some (rune_error, r)))
          else if is_low n then Some (rune_error, r)
          else Some (utf8_encode n, r))"

definition simple_escape :: "char \<Rightarrow> char option" where
  "simple_escape c = map_of
     [(CHR 0x22, CHR 0x22), (CHR 0x5C, CHR 0x5C), (CHR ''/'', CHR ''/''), (CHR ''b'', CHR 0x08),
      (CHR ''f'', CHR 0x0C), (CHR ''n'', CHR 0x0A), (CHR ''r'', CHR 0x0D), (CHR ''t'', CHR 0x09)] c"

text \<open>A string after its opening quote.\<close>

fun parse_string :: "nat \<Rightarrow> string \<Rightarrow> (string \<times> string) option" where
  "parse_string 0 s = None"
| "parse_string (Suc n) [] = None"
| "parse_string (Suc n) (c # s) =
     (if c = CHR 0x22 then Some ([], s)
      else if byte_val c < 0x20 then None
      else if c = CHR 0x5C then
        (case s of
           [] \<Rightarrow> None
         | e # r \<Rightarrow>
             if e = CHR ''u'' then
               (case unicode_escape r of
                  None \<Rightarrow> None
                | Some (t, r') \<Rightarrow> map_option (\<lambda>(u, q). (t @ u, q)) (parse_string n r'))
             else (case simple_escape e of
                     None \<Rightarrow> None
                   | Some t \<Rightarrow> map_option (\<lambda>(u, q). (t # u, q)) (parse_string n r)))
      else if rune_len (c # s) = 0 then map_option (\<lambda>(u, q). (rune_error @ u, q)) (parse_string n s)
      else map_option (\<lambda>(u, q). (take (rune_len (c # s)) (c # s) @ u, q))
             (parse_string n (drop (rune_len (c # s)) (c # s))))"

definition take_digits :: "string \<Rightarrow> string \<times> string" where
  "take_digits s = (takeWhile is_digit s, dropWhile is_digit s)"

text \<open>The number grammar; the text read and the rest.\<close>

definition parse_fraction :: "string \<Rightarrow> (string \<times> string) option" where
  "parse_fraction s =
     (case s of
        c # r \<Rightarrow> if c = CHR ''.'' then
            (let (d, q) = take_digits r in if d = [] then None else Some (c # d, q)) else Some ([], s)
      | [] \<Rightarrow> Some ([], s))"

definition parse_exponent :: "string \<Rightarrow> (string \<times> string) option" where
  "parse_exponent s =
     (case s of
        c # r \<Rightarrow> if c = CHR ''e'' \<or> c = CHR ''E'' then
            (let (sg, r1) = (case r of x # y \<Rightarrow> if x = CHR ''+'' \<or> x = CHR ''-'' then ([x], y) else ([], r) | [] \<Rightarrow> ([], r));
                 (d, q) = take_digits r1
             in if d = [] then None else Some (c # sg @ d, q)) else Some ([], s)
      | [] \<Rightarrow> Some ([], s))"

definition parse_number :: "string \<Rightarrow> (string \<times> string) option" where
  "parse_number s =
     (let (sg, r) = (case s of c # t \<Rightarrow> if c = CHR ''-'' then ([c], t) else ([], s) | [] \<Rightarrow> ([], s));
          (d, q) = (case r of c # t \<Rightarrow> if c = CHR ''0'' then ([c], t) else take_digits r | [] \<Rightarrow> ([], r))
      in if d = [] then None
         else Option.bind (parse_fraction q) (\<lambda>(f, q1).
                map_option (\<lambda>(e, q2). (sg @ d @ f @ e, q2)) (parse_exponent q1)))"

section \<open>Values\<close>

fun parse_value :: "nat \<Rightarrow> string \<Rightarrow> (json \<times> string) option"
  and parse_items :: "nat \<Rightarrow> string \<Rightarrow> (json list \<times> string) option"
  and parse_members :: "nat \<Rightarrow> string \<Rightarrow> ((string \<times> json) list \<times> string) option" where
  "parse_value 0 s = None"
| "parse_value (Suc n) s =
     (case strip_prefix ''null'' s of Some r \<Rightarrow> Some (JNull, r) | None \<Rightarrow>
      case strip_prefix ''true'' s of Some r \<Rightarrow> Some (JBool True, r) | None \<Rightarrow>
      case strip_prefix ''false'' s of Some r \<Rightarrow> Some (JBool False, r) | None \<Rightarrow>
      (case s of
         [] \<Rightarrow> None
       | c # r \<Rightarrow>
           if c = CHR 0x22 then map_option (\<lambda>(t, q). (JStr t, q)) (parse_string (Suc (length r)) r)
           else if c = CHR ''['' then
             (case skip_ws r of
                x # q \<Rightarrow> if x = CHR '']'' then Some (JArr [], q)
                         else map_option (\<lambda>(vs, q). (JArr vs, q)) (parse_items n (skip_ws r))
              | [] \<Rightarrow> None)
           else if c = CHR ''{'' then
             (case skip_ws r of
                x # q \<Rightarrow> if x = CHR ''}'' then Some (JObj [], q)
                         else map_option (\<lambda>(ms, q). (JObj ms, q)) (parse_members n (skip_ws r))
              | [] \<Rightarrow> None)
           else map_option (\<lambda>(t, q). (JNum t, q)) (parse_number s)))"
| "parse_items 0 s = None"
| "parse_items (Suc n) s =
     (case parse_value n s of
        None \<Rightarrow> None
      | Some (v, r) \<Rightarrow>
          (case skip_ws r of
             x # q \<Rightarrow> if x = CHR '']'' then Some ([v], q)
                      else if x = CHR '','' then map_option (\<lambda>(vs, q). (v # vs, q)) (parse_items n (skip_ws q))
                      else None
           | [] \<Rightarrow> None))"
| "parse_members 0 s = None"
| "parse_members (Suc n) s =
     (case s of
        [] \<Rightarrow> None
      | c # r0 \<Rightarrow>
          if c \<noteq> CHR 0x22 then None
          else (case parse_string (Suc (length r0)) r0 of
                  None \<Rightarrow> None
                | Some (k, r1) \<Rightarrow>
                    (case skip_ws r1 of
                       x # r2 \<Rightarrow>
                         if x \<noteq> CHR '':'' then None
                         else (case parse_value n (skip_ws r2) of
                                 None \<Rightarrow> None
                               | Some (v, r3) \<Rightarrow>
                                   (case skip_ws r3 of
                                      y # q \<Rightarrow>
                                        if y = CHR ''}'' then Some ([(k, v)], q)
                                        else if y = CHR '','' then
                                          map_option (\<lambda>(ms, q). ((k, v) # ms, q)) (parse_members n (skip_ws q))
                                        else None
                                    | [] \<Rightarrow> None))
                     | [] \<Rightarrow> None)))"

definition json_parse :: "bytes \<Rightarrow> json option" where
  "json_parse raw =
     (case parse_value (Suc (length raw)) (skip_ws raw) of
        Some (v, r) \<Rightarrow> if skip_ws r = [] then Some v else None
      | None \<Rightarrow> None)"

text \<open>A text is decoded closed when it is one value without repeated keys.\<close>

definition strict_parse :: "bytes \<Rightarrow> json option" where
  "strict_parse raw =
     (case json_parse raw of
        None \<Rightarrow> None
      | Some v \<Rightarrow> if rejectDuplicateKeys (tokens v) True = None then Some v else None)"

lemma strict_parse_distinct: "strict_parse raw = Some v \<Longrightarrow> json_parse raw = Some v \<and> keys_distinct v"
  using walk_verdicts(1) [OF length_tokens_fuel [of v], of "[]"]
  by (auto simp: strict_parse_def rejectDuplicateKeys_def scan_verdict_def split: option.splits if_splits)

section \<open>Printing\<close>

text \<open>
  Compact text of a value as \<open>json.Marshal\<close> writes it, with its escapes: the quote and the
  backslash, control and HTML-sensitive characters, the line separators U+2028 and U+2029,
  and U+FFFD for a byte that is not UTF-8. Numbers are kept as text.
\<close>

definition marshal_char :: "char \<Rightarrow> string" where
  "marshal_char c =
     (if c = CHR 0x22 \<or> c = CHR 0x5C then [CHR 0x5C, c]
      else if c = CHR ''<'' \<or> c = CHR ''>'' \<or> c = CHR ''&''
      then [CHR 0x5C, CHR ''u'', CHR ''0'', CHR ''0''] @ hex_encode [c]
      else if byte_val c < 0x20
      then (case map_of [(8, CHR ''b''), (9, CHR ''t''), (10, CHR ''n''), (12, CHR ''f''), (13, CHR ''r'')] (byte_val c) of
              Some e \<Rightarrow> [CHR 0x5C, e]
            | None \<Rightarrow> [CHR 0x5C, CHR ''u'', CHR ''0'', CHR ''0''] @ hex_encode [c])
      else [c])"

fun marshal_runes :: "nat \<Rightarrow> string \<Rightarrow> string" where
  "marshal_runes 0 s = []"
| "marshal_runes (Suc k) s =
     (if s = [] then []
      else (let n = rune_len s; rest = marshal_runes k (drop (max 1 n) s) in
            if n = 0 then CHR 0x5C # ''ufffd'' @ rest
            else if n = 1 then marshal_char (hd s) @ rest
            else if take n s = utf8_encode 0x2028 then CHR 0x5C # ''u2028'' @ rest
            else if take n s = utf8_encode 0x2029 then CHR 0x5C # ''u2029'' @ rest
            else take n s @ rest))"

definition marshal_string :: "string \<Rightarrow> string" where
  "marshal_string s = [CHR 0x22] @ marshal_runes (length s) s @ [CHR 0x22]"

fun print_json :: "json \<Rightarrow> string" and print_items :: "json list \<Rightarrow> string"
  and print_members :: "(string \<times> json) list \<Rightarrow> string" where
  "print_json JNull = ''null''"
| "print_json (JBool b) = (if b then ''true'' else ''false'')"
| "print_json (JNum s) = s"
| "print_json (JStr s) = marshal_string s"
| "print_json (JArr vs) = ''['' @ print_items vs @ '']''"
| "print_json (JObj ms) = ''{'' @ print_members ms @ ''}''"
| "print_items [] = []"
| "print_items [v] = print_json v"
| "print_items (v # w # vs) = print_json v @ '','' @ print_items (w # vs)"
| "print_members [] = []"
| "print_members [(k, v)] = marshal_string k @ '':'' @ print_json v"
| "print_members ((k, v) # m # ms) = marshal_string k @ '':'' @ print_json v @ '','' @ print_members (m # ms)"

definition printable :: "string \<Rightarrow> bool" where
  "printable s = list_all (\<lambda>c. 0x20 \<le> byte_val c \<and> byte_val c \<le> 0x7E) s"

fun printable_json :: "json \<Rightarrow> bool" and printable_items :: "json list \<Rightarrow> bool"
  and printable_members :: "(string \<times> json) list \<Rightarrow> bool" where
  "printable_json (JNum s) = canonical_digits s"
| "printable_json (JStr s) = printable s"
| "printable_json (JArr vs) = printable_items vs"
| "printable_json (JObj ms) = printable_members ms"
| "printable_json _ = True"
| "printable_items [] = True"
| "printable_items (v # vs) = (printable_json v \<and> printable_items vs)"
| "printable_members [] = True"
| "printable_members ((k, v) # ms) = (printable k \<and> printable_json v \<and> printable_members ms)"

lemma hex_encode_single: "hex_encode [c] = [hex_char (byte_val c div 16), hex_char (byte_val c mod 16)]"
  by (simp add: hex_encode_def)

lemma html_bytes: "byte_of_nat 60 = CHR ''<''" "byte_of_nat 62 = CHR ''>''" "byte_of_nat 38 = CHR ''&''"
  by code_simp+

text \<open>One marshalled character in front of a string is read back as that character.\<close>

lemma parse_string_char:
  assumes "0x20 \<le> byte_val c" "byte_val c \<le> 0x7E"
  shows "parse_string (Suc n) (marshal_char c @ s) =
    map_option (\<lambda>(u, q). (c # u, q)) (parse_string n s)"
proof -
  consider "c = CHR 0x22" | "c = CHR 0x5C" | "c = CHR ''<''" | "c = CHR ''>''" | "c = CHR ''&''"
    | "c \<noteq> CHR 0x22" "c \<noteq> CHR 0x5C" "c \<noteq> CHR ''<''" "c \<noteq> CHR ''>''" "c \<noteq> CHR ''&''"
    by blast
  then show ?thesis
  proof cases
    case 6
    then have "marshal_char c = [c]" using assms(1) by (simp add: marshal_char_def)
    moreover have "rune_len (c # s) = 1" "\<not> byte_val c < 0x20" using assms by simp_all
    ultimately show ?thesis using 6 by (simp del: rune_len.simps)
  next
    case 3
    have "unicode_escape (''003c'' @ s) = Some ([CHR ''<''], s)"
      by (simp add: unicode_escape_def hex_val_def byte_val_def is_high_def is_low_def utf8_encode_def html_bytes)
    moreover have "marshal_char (CHR ''<'') = [CHR 0x5C, CHR ''u''] @ ''003c''" by code_simp
    ultimately show ?thesis using 3 by (simp add: byte_val_def)
  next
    case 4
    have "unicode_escape (''003e'' @ s) = Some ([CHR ''>''], s)"
      by (simp add: unicode_escape_def hex_val_def byte_val_def is_high_def is_low_def utf8_encode_def html_bytes)
    moreover have "marshal_char (CHR ''>'') = [CHR 0x5C, CHR ''u''] @ ''003e''" by code_simp
    ultimately show ?thesis using 4 by (simp add: byte_val_def)
  next
    case 5
    have "unicode_escape (''0026'' @ s) = Some ([CHR ''&''], s)"
      by (simp add: unicode_escape_def hex_val_def byte_val_def is_high_def is_low_def utf8_encode_def html_bytes)
    moreover have "marshal_char (CHR ''&'') = [CHR 0x5C, CHR ''u''] @ ''0026''" by code_simp
    ultimately show ?thesis using 5 by (simp add: byte_val_def)
  next
    case 1
    then show ?thesis by (simp add: marshal_char_def byte_val_def simple_escape_def)
  next
    case 2
    then show ?thesis by (simp add: marshal_char_def byte_val_def simple_escape_def)
  qed
qed

lemma parse_string_marshal:
  "printable s \<Longrightarrow> length s < n \<Longrightarrow>
     parse_string n (concat (map marshal_char s) @ CHR 0x22 # rest) = Some (s, rest)"
proof (induction s arbitrary: n)
  case Nil
  then show ?case by (cases n) auto
next
  case (Cons c s)
  then obtain m where "n = Suc m" by (cases n) auto
  with Cons show ?case by (simp add: printable_def parse_string_char del: parse_string.simps)
qed

lemma marshal_runes_printable: "printable s \<Longrightarrow> marshal_runes (length s) s = concat (map marshal_char s)"
proof (induction s)
  case (Cons c s)
  then have "rune_len (c # s) = 1" by (simp add: printable_def)
  with Cons show ?case by (simp add: printable_def Let_def del: rune_len.simps)
qed simp

lemma marshal_string_printable:
  "printable s \<Longrightarrow> marshal_string s = [CHR 0x22] @ concat (map marshal_char s) @ [CHR 0x22]"
  by (simp add: marshal_string_def marshal_runes_printable)

lemma marshal_char_length: "1 \<le> length (marshal_char c)"
  by (simp add: marshal_char_def split: option.split)

lemma length_marshal: "length s \<le> length (concat (map marshal_char s))"
proof (induction s)
  case (Cons c s)
  then show ?case using marshal_char_length [of c] by simp
qed simp

definition num_stop :: "string \<Rightarrow> bool" where
  "num_stop r \<longleftrightarrow> (case r of [] \<Rightarrow> True
     | c # _ \<Rightarrow> \<not> is_digit c \<and> c \<noteq> CHR ''.'' \<and> c \<noteq> CHR ''e'' \<and> c \<noteq> CHR ''E'')"

lemma num_stop_delims [simp]:
  "num_stop []" "num_stop (CHR '','' # r)" "num_stop (CHR '']'' # r)" "num_stop (CHR ''}'' # r)"
  by (simp_all add: num_stop_def is_digit_def byte_val_def)

lemma no_digit_tail: "num_stop r \<Longrightarrow> takeWhile is_digit r = [] \<and> dropWhile is_digit r = r"
  by (cases r) (simp_all add: num_stop_def)

lemma parse_fraction_stop: "num_stop r \<Longrightarrow> parse_fraction r = Some ([], r)"
  by (cases r) (simp_all add: num_stop_def parse_fraction_def)

lemma parse_exponent_stop: "num_stop r \<Longrightarrow> parse_exponent r = Some ([], r)"
  by (cases r) (simp_all add: num_stop_def parse_exponent_def)

lemma parse_number_canonical:
  assumes "canonical_digits s" "num_stop rest"
  shows "parse_number (s @ rest) = Some (s, rest)"
proof (cases "s = ''0''")
  case True
  then show ?thesis
    using assms by (simp add: parse_number_def parse_fraction_stop parse_exponent_stop)
next
  case False
  have d: "s \<noteq> []" "list_all is_digit s" using canonical_digits_digits [OF assms(1)] by simp_all
  have "49 \<le> byte_val (hd s)" using assms(1) False by (simp add: canonical_digits_def)
  then have h: "hd s \<noteq> CHR ''0''" "hd s \<noteq> CHR ''-''"
    by (auto simp: byte_val_def)
  have "takeWhile is_digit (s @ rest) = s" "dropWhile is_digit (s @ rest) = rest"
    using d no_digit_tail [OF assms(2)] by (simp_all add: list_all_iff)
  then have t: "take_digits (s @ rest) = (s, rest)" by (simp add: take_digits_def)
  obtain c t where s: "s = c # t" using d by (cases s) auto
  then show ?thesis
    using h t d by (simp add: parse_number_def s parse_fraction_stop parse_exponent_stop assms(2))
qed

lemma print_json_first:
  "printable_json v \<Longrightarrow> \<exists>c r. print_json v = c # r \<and> \<not> is_ws c \<and> c \<noteq> CHR '']'' \<and> c \<noteq> CHR ''}''"
proof (cases v)
  case (JNum s)
  assume "printable_json v"
  then have "s \<noteq> []" "list_all is_digit s" using JNum canonical_digits_digits by auto
  then show ?thesis using JNum by (cases s) (auto simp: is_ws_def is_digit_def byte_val_def)
qed (auto simp: marshal_string_def is_ws_def)

lemma skip_ws_json [simp]: "printable_json v \<Longrightarrow> skip_ws (print_json v @ r) = print_json v @ r"
  using print_json_first [of v] by (auto simp: skip_ws_def)

lemma skip_ws_delim [simp]:
  "skip_ws (CHR '','' # r) = CHR '','' # r" "skip_ws (CHR '']'' # r) = CHR '']'' # r"
  "skip_ws (CHR ''}'' # r) = CHR ''}'' # r" "skip_ws (CHR '':'' # r) = CHR '':'' # r"
  "skip_ws [] = []" "skip_ws (CHR 0x22 # r) = CHR 0x22 # r"
  by (simp_all add: skip_ws_def is_ws_def)

lemma print_items_first:
  "printable_items (v # vs) \<Longrightarrow> \<exists>c r. print_items (v # vs) = c # r \<and> \<not> is_ws c \<and> c \<noteq> CHR '']''"
  using print_json_first [of v] by (cases vs) auto

lemma print_members_first: "\<exists>r. print_members (m # ms) = CHR 0x22 # r"
  by (cases m; cases ms) (auto simp: marshal_string_def)

lemma not_literal:
  assumes "c \<noteq> CHR ''n''" "c \<noteq> CHR ''t''" "c \<noteq> CHR ''f''"
  shows "strip_prefix ''null'' (c # r) = None" "strip_prefix ''true'' (c # r) = None"
    "strip_prefix ''false'' (c # r) = None"
  using assms by auto

lemma digit_no_literal: "is_digit c \<Longrightarrow> c \<noteq> CHR ''n'' \<and> c \<noteq> CHR ''t'' \<and> c \<noteq> CHR ''f'' \<and>
    c \<noteq> CHR 0x22 \<and> c \<noteq> CHR ''['' \<and> c \<noteq> CHR ''{''"
  by (auto simp: is_digit_def byte_val_def)

lemma parse_value_num:
  assumes "canonical_digits s" "num_stop rest"
  shows "parse_value (Suc n) (s @ rest) = Some (JNum s, rest)"
proof -
  obtain c t where s: "s = c # t" "is_digit c"
    using canonical_digits_digits [OF assms(1)] by (cases s) auto
  have "c \<noteq> CHR ''n''" "c \<noteq> CHR ''t''" "c \<noteq> CHR ''f''" "c \<noteq> CHR 0x22" "c \<noteq> CHR ''[''" "c \<noteq> CHR ''{''"
    using digit_no_literal [OF s(2)] by simp_all
  then show ?thesis
    using parse_number_canonical [OF assms] by (simp add: s(1) not_literal)
qed

lemma parse_value_str:
  assumes "printable s"
  shows "parse_value (Suc n) (marshal_string s @ rest) = Some (JStr s, rest)"
  using parse_string_marshal [OF assms, of "Suc (length (concat (map marshal_char s) @ CHR 0x22 # rest))" rest]
    length_marshal [of s]
  by (simp add: marshal_string_printable assms del: parse_string.simps)

lemma parse_print:
  shows "printable_json v \<Longrightarrow> num_stop rest \<Longrightarrow> length (print_json v) \<le> n \<Longrightarrow>
      parse_value n (print_json v @ rest) = Some (v, rest)"
    and "printable_items vs \<Longrightarrow> vs \<noteq> [] \<Longrightarrow> length (print_items vs) < n \<Longrightarrow>
      parse_items n (print_items vs @ CHR '']'' # rest) = Some (vs, rest)"
    and "printable_members ms \<Longrightarrow> ms \<noteq> [] \<Longrightarrow> length (print_members ms) < n \<Longrightarrow>
      parse_members n (print_members ms @ CHR ''}'' # rest) = Some (ms, rest)"
proof (induction v and vs and ms arbitrary: n rest and n rest and n rest
    rule: print_json_print_items_print_members.induct)
  case 1
  then show ?case by (cases n) auto
next
  case (2 b)
  then show ?case by (cases n; cases b) auto
next
  case (3 s)
  then have "s \<noteq> []" using canonical_digits_digits by auto
  with 3 obtain m where "n = Suc m" by (cases n) auto
  with 3 show ?case by (simp add: parse_value_num del: parse_value.simps)
next
  case (4 s)
  then obtain m where "n = Suc m" by (cases n) (auto simp: marshal_string_def)
  with 4 show ?case by (simp add: parse_value_str del: parse_value.simps)
next
  case (5 vs)
  then obtain m where n: "n = Suc m" by (cases n) auto
  show ?case
  proof (cases vs)
    case Nil
    then show ?thesis by (simp add: n)
  next
    case (Cons v us)
    then obtain c r where c: "print_items vs = c # r" "\<not> is_ws c" "c \<noteq> CHR '']''"
      using print_items_first [of v us] 5(2) by auto
    then have "skip_ws (print_items vs @ CHR '']'' # rest) = print_items vs @ CHR '']'' # rest"
      by (simp add: skip_ws_def)
    with 5(1) [of m rest] 5(2,4) c Cons show ?thesis by (simp add: n)
  qed
next
  case (6 ms)
  then obtain m where n: "n = Suc m" by (cases n) auto
  show ?case
  proof (cases ms)
    case Nil
    then show ?thesis by (simp add: n)
  next
    case (Cons v us)
    then obtain r where c: "print_members ms = CHR 0x22 # r" using print_members_first by blast
    with 6(1) [of m rest] 6(2,4) Cons show ?thesis by (simp add: n)
  qed
next
  case (8 v)
  then obtain m where n: "n = Suc m" by (cases n) auto
  with 8(1) [of "CHR '']'' # rest" m] 8(2,4) show ?case by simp
next
  case (9 v w vs)
  then obtain m where n: "n = Suc m" by (cases n) auto
  obtain c r where c: "print_items (w # vs) = c # r" "\<not> is_ws c"
    using print_items_first [of w vs] 9(3) by auto
  then have "skip_ws (print_items (w # vs) @ CHR '']'' # rest) = print_items (w # vs) @ CHR '']'' # rest"
    by (simp add: skip_ws_def)
  with 9(1) [of "CHR '','' # print_items (w # vs) @ CHR '']'' # rest" m] 9(2) [of m rest] 9(3,5)
  show ?case by (simp add: n)
next
  case (11 k v)
  then obtain m where n: "n = Suc m" by (cases n) auto
  have k: "parse_string (Suc (length (concat (map marshal_char k) @ CHR 0x22 # q)))
      (concat (map marshal_char k) @ CHR 0x22 # q) = Some (k, q)" for q
    using 11(2) length_marshal [of k] by (intro parse_string_marshal) auto
  show ?case
    using 11(1) [of "CHR ''}'' # rest" m] 11(2,4)
      k [of "CHR '':'' # print_json v @ CHR ''}'' # rest"]
    by (simp add: n marshal_string_printable del: parse_string.simps)
next
  case (12 k v m' ms)
  then obtain m where n: "n = Suc m" by (cases n) auto
  have k: "parse_string (Suc (length (concat (map marshal_char k) @ CHR 0x22 # q)))
      (concat (map marshal_char k) @ CHR 0x22 # q) = Some (k, q)" for q
    using 12(3) length_marshal [of k] by (intro parse_string_marshal) auto
  obtain r where c: "print_members (m' # ms) = CHR 0x22 # r" using print_members_first by blast
  show ?case
    using 12(1) [of "CHR '','' # print_members (m' # ms) @ CHR ''}'' # rest" m] 12(2) [of m rest] 12(3,5) c
      k [of "CHR '':'' # print_json v @ CHR '','' # print_members (m' # ms) @ CHR ''}'' # rest"]
    by (simp add: n marshal_string_printable del: parse_string.simps)
qed auto

lemma json_parse_print: "printable_json v \<Longrightarrow> json_parse (print_json v) = Some v"
  using parse_print(1) [of v "[]" "Suc (length (print_json v))"] skip_ws_json [of v "[]"]
  by (simp add: json_parse_def)

lemmas text_eval = printable_def byte_val_def canonical_digits_def is_digit_def list_all_replicate

end
