(* ===== verification/Mpc2of3.thy ===== *)
theory Mpc2of3
  imports Base64 JsonText
begin

text \<open>
  The two-of-three contract (\<open>src/internal/contract/mpc2of3\<close>): digests in
  base64url, the canonical key descriptor and the canonical terminal result.
  Parameters: \<open>sha\<close> is SHA-256, \<open>jcs\<close> is \<open>jcs.Transform\<close> (package gowebpki/jcs,
  \<^term>\<open>None\<close> on error), \<open>pubkey_ok\<close> says whether \<open>btcec.ParsePubKey\<close> accepts.
\<close>

section \<open>Digests\<close>

definition digest_String :: "bytes \<Rightarrow> string" where
  "digest_String d = raw_url_encode d"

definition is_url_char :: "char \<Rightarrow> bool" where
  "is_url_char c \<longleftrightarrow> (65 \<le> byte_val c \<and> byte_val c \<le> 90) \<or> (97 \<le> byte_val c \<and> byte_val c \<le> 122) \<or>
     (48 \<le> byte_val c \<and> byte_val c \<le> 57) \<or> c = CHR ''-'' \<or> c = CHR ''_''"

definition parseSHA256Digest :: "string \<Rightarrow> bytes option" where
  "parseSHA256Digest raw =
     (if length raw \<noteq> 43 then None
      else if \<not> list_all is_url_char raw then None
      else (case raw_url_decode raw of
              None \<Rightarrow> None
            | Some decoded \<Rightarrow>
                if length decoded \<noteq> 32 \<or> raw_url_encode decoded \<noteq> raw then None else Some decoded))"

definition digestFor :: "(bytes \<Rightarrow> bytes) \<Rightarrow> bytes \<Rightarrow> bytes" where
  "digestFor sha raw = sha raw"

section \<open>Canonical bytes\<close>

datatype contract_err =
    ErrBoundedASCII
  | ErrTokens json_err
  | ErrNotJSON
  | ErrJCSTransform
  | ErrNotExactJCS
  | ErrDecode decode_err
  | ErrDescriptorContract
  | ErrKeyID
  | ErrChainCodeHash
  | ErrPartyCount
  | ErrParty nat
  | ErrTerminalIdentity
  | ErrNotMinimal
  | ErrTerminalStatus
  | ErrResultRequired
  | ErrDescriptorFingerprint
  | ErrPublicKey
  | ErrArtifactCount
  | ErrArtifact nat
  | ErrTimedOutOrigin
  | ErrMarshal

definition ascii :: "string \<Rightarrow> bool" where
  "ascii s = (s \<noteq> '''' \<and> list_all (\<lambda>c. 0x20 \<le> byte_val c \<and> byte_val c \<le> 0x7E) s)"

definition printableASCII :: "bytes \<Rightarrow> bool" where
  "printableASCII raw = (raw \<noteq> [] \<and> list_all (\<lambda>c. 0x20 \<le> byte_val c \<and> byte_val c \<le> 0x7E) raw)"

definition boundedASCII :: "string \<Rightarrow> bool" where
  "boundedASCII s = (length s \<le> 255 \<and> ascii s)"

definition canonicalJCS :: "(bytes \<Rightarrow> bytes option) \<Rightarrow> bytes \<Rightarrow> (contract_err, bytes) result" where
  "canonicalJCS jcs raw =
     (case json_parse raw of
        None \<Rightarrow> Inl ErrNotJSON
      | Some v \<Rightarrow>
          (case validateJSONTokens (tokens v) True of
             Some e \<Rightarrow> Inl (ErrTokens e)
           | None \<Rightarrow> (case jcs raw of None \<Rightarrow> Inl ErrJCSTransform | Some canonical \<Rightarrow> Inr canonical)))"

definition requireCanonicalJCS :: "(bytes \<Rightarrow> bytes option) \<Rightarrow> bytes \<Rightarrow> contract_err err" where
  "requireCanonicalJCS jcs raw =
     (case canonicalJCS jcs raw of
        Inl e \<Rightarrow> Some e
      | Inr canonical \<Rightarrow> fail_if (raw \<noteq> canonical) ErrNotExactJCS)"

section \<open>Key descriptor\<close>

record partyV1 =
  pv_PartyID :: string
  pv_Purpose :: string

record keyDescriptorV1 =
  kd_Algorithm :: string
  kd_ChainCodeHash :: string
  kd_Curve :: string
  kd_DerivationScheme :: string
  kd_DescriptorKind :: string
  kd_DescriptorVersion :: int
  kd_KeyID :: string
  kd_Parties :: "partyV1 list"
  kd_ProtocolVersion :: int
  kd_PublicKeyFormat :: string
  kd_Threshold :: int

text \<open>The pattern \<open>^mpc_key_[0-9a-f]{8}-[0-9a-f]{4}-[0-9a-f]{4}-[0-9a-f]{4}-[0-9a-f]{12}$\<close>.\<close>

fun match_hex_groups :: "nat list \<Rightarrow> string \<Rightarrow> bool" where
  "match_hex_groups [] s = (s = [])"
| "match_hex_groups [n] s = (length s = n \<and> list_all is_lower_hex s)"
| "match_hex_groups (n # m # ns) s =
     (n < length s \<and> list_all is_lower_hex (take n s) \<and> s ! n = CHR ''-'' \<and>
      match_hex_groups (m # ns) (drop (Suc n) s))"

definition keyIDPattern :: "string \<Rightarrow> bool" where
  "keyIDPattern s = (case strip_prefix ''mpc_key_'' s of
     None \<Rightarrow> False | Some r \<Rightarrow> match_hex_groups [8, 4, 4, 4, 12] r)"

definition descriptor_want :: "(string \<times> string) list" where
  "descriptor_want = [(''mpc-signer'', ''platform''), (''co-signer-primary'', ''primary''),
     (''co-signer-recovery'', ''recovery'')]"

fun check_parties :: "nat \<Rightarrow> partyV1 list \<Rightarrow> (string \<times> string) list \<Rightarrow> contract_err err" where
  "check_parties i (p # ps) (w # ws) =
     (if \<not> ascii (pv_PartyID p) \<or> pv_PartyID p \<noteq> fst w \<or> pv_Purpose p \<noteq> snd w
      then Some (ErrParty i) else check_parties (Suc i) ps ws)"
| "check_parties i ps ws = None"

definition descriptor_validate :: "keyDescriptorV1 \<Rightarrow> contract_err err" where
  "descriptor_validate d =
     or_err (fail_if (kd_DescriptorKind d \<noteq> ''mpc-key-descriptor'' \<or> kd_DescriptorVersion d \<noteq> 1 \<or>
        kd_ProtocolVersion d \<noteq> 1 \<or> kd_Algorithm d \<noteq> ''ECDSA'' \<or> kd_Curve d \<noteq> ''secp256k1'' \<or>
        kd_Threshold d \<noteq> 2 \<or> kd_DerivationScheme d \<noteq> ''bip32_secp256k1'' \<or>
        kd_PublicKeyFormat d \<noteq> ''compressed_sec1'') ErrDescriptorContract)
     (or_err (fail_if (\<not> keyIDPattern (kd_KeyID d)) ErrKeyID)
     (or_err (fail_if (parseSHA256Digest (kd_ChainCodeHash d) = None) ErrChainCodeHash)
     (or_err (fail_if (length (kd_Parties d) \<noteq> length descriptor_want) ErrPartyCount)
     (check_parties 0 (kd_Parties d) descriptor_want))))"

definition party_names :: "string list" where
  "party_names = [''partyId'', ''purpose'']"

definition descriptor_names :: "string list" where
  "descriptor_names = [''algorithm'', ''chainCodeHash'', ''curve'', ''derivationScheme'', ''descriptorKind'',
     ''descriptorVersion'', ''keyId'', ''parties'', ''protocolVersion'', ''publicKeyFormat'', ''threshold'']"

text \<open>The typed fields of a decoded object; a member of the wrong type is an error.\<close>

definition get_string :: "(string \<times> json) list \<Rightarrow> string \<Rightarrow> (decode_err, string) result" where
  "get_string as n = (case string_field '''' (assigned as n) of None \<Rightarrow> Inl (ErrFieldType n) | Some s \<Rightarrow> Inr s)"

definition get_int :: "(string \<times> json) list \<Rightarrow> string \<Rightarrow> (decode_err, int) result" where
  "get_int as n = (case int_field 0 (assigned as n) of None \<Rightarrow> Inl (ErrFieldType n) | Some i \<Rightarrow> Inr i)"

fun collect :: "('a \<Rightarrow> ('e, 'b) result) \<Rightarrow> 'a list \<Rightarrow> ('e, 'b list) result" where
  "collect f [] = Inr []"
| "collect f (x # xs) = bind_res (f x) (\<lambda>y. bind_res (collect f xs) (\<lambda>ys. Inr (y # ys)))"

definition last_array :: "(string \<times> json) list \<Rightarrow> string \<Rightarrow> (decode_err, json list) result" where
  "last_array as n =
     (case assigned as n of
        [] \<Rightarrow> Inr []
      | vs \<Rightarrow> (case last vs of JArr xs \<Rightarrow> Inr xs | JNull \<Rightarrow> Inr [] | _ \<Rightarrow> Inl (ErrFieldType n)))"

definition decode_party :: "json \<Rightarrow> (decode_err, partyV1) result" where
  "decode_party v =
     bind_res (DecodeObject party_names v) (\<lambda>as.
     bind_res (get_string as ''partyId'') (\<lambda>pid.
     bind_res (get_string as ''purpose'') (\<lambda>pur. Inr \<lparr>pv_PartyID = pid, pv_Purpose = pur\<rparr>)))"

definition decode_descriptor :: "json \<Rightarrow> (decode_err, keyDescriptorV1) result" where
  "decode_descriptor v =
     bind_res (DecodeClosed descriptor_names v) (\<lambda>as.
     bind_res (get_string as ''algorithm'') (\<lambda>alg.
     bind_res (get_string as ''chainCodeHash'') (\<lambda>cch.
     bind_res (get_string as ''curve'') (\<lambda>cur.
     bind_res (get_string as ''derivationScheme'') (\<lambda>ds.
     bind_res (get_string as ''descriptorKind'') (\<lambda>dk.
     bind_res (get_int as ''descriptorVersion'') (\<lambda>dv.
     bind_res (get_string as ''keyId'') (\<lambda>kid.
     bind_res (last_array as ''parties'') (\<lambda>ps.
     bind_res (collect decode_party ps) (\<lambda>parties.
     bind_res (get_int as ''protocolVersion'') (\<lambda>pv.
     bind_res (get_string as ''publicKeyFormat'') (\<lambda>pkf.
     bind_res (get_int as ''threshold'') (\<lambda>th.
     Inr \<lparr>kd_Algorithm = alg, kd_ChainCodeHash = cch, kd_Curve = cur, kd_DerivationScheme = ds,
          kd_DescriptorKind = dk, kd_DescriptorVersion = dv, kd_KeyID = kid, kd_Parties = parties,
          kd_ProtocolVersion = pv, kd_PublicKeyFormat = pkf, kd_Threshold = th\<rparr>)))))))))))))"

definition ParseCanonicalDescriptor ::
  "(bytes \<Rightarrow> bytes) \<Rightarrow> (bytes \<Rightarrow> bytes option) \<Rightarrow> bytes \<Rightarrow> (contract_err, keyDescriptorV1 \<times> bytes) result" where
  "ParseCanonicalDescriptor sha jcs raw =
     check_res (fail_if (length raw > 2048 \<or> \<not> printableASCII raw) ErrBoundedASCII)
     (check_res (requireCanonicalJCS jcs raw)
     (case json_parse raw of
        None \<Rightarrow> Inl ErrNotJSON
      | Some v \<Rightarrow>
          (case decode_descriptor v of
             Inl e \<Rightarrow> Inl (ErrDecode e)
           | Inr d \<Rightarrow> check_res (descriptor_validate d) (Inr (d, digestFor sha raw)))))"

section \<open>Terminal result\<close>

record artifactResultV1 =
  ar_ArtifactFingerprint :: string
  ar_PartyID :: string
  ar_Purpose :: string

record completedResultV1 =
  cr_AccountPublicKey :: string
  cr_Artifacts :: "artifactResultV1 list"
  cr_ChainCodeHash :: string
  cr_DescriptorFingerprint :: string

record terminalResultV1 =
  tr_IntentID :: string
  tr_KeyID :: string
  tr_Result :: "completedResultV1 option"
  tr_ResultKind :: string
  tr_ResultVersion :: int
  tr_SessionID :: string
  tr_Status :: string

definition artifact_want :: "(string \<times> string) list" where
  "artifact_want = [(''co-signer-primary'', ''primary''), (''co-signer-recovery'', ''recovery'')]"

fun check_artifacts :: "nat \<Rightarrow> artifactResultV1 list \<Rightarrow> (string \<times> string) list \<Rightarrow> contract_err err" where
  "check_artifacts i (a # as) (w # ws) =
     (if ar_PartyID a \<noteq> fst w \<or> ar_Purpose a \<noteq> snd w \<or> parseSHA256Digest (ar_ArtifactFingerprint a) = None
      then Some (ErrArtifact i) else check_artifacts (Suc i) as ws)"
| "check_artifacts i as ws = None"

definition compressed_key_ok :: "(bytes \<Rightarrow> bool) \<Rightarrow> string \<Rightarrow> bool" where
  "compressed_key_ok pubkey_ok key =
     (length key = 66 \<and> list_all is_lower_hex key \<and>
      (case hex_decode key of
         Some (b # bs) \<Rightarrow> (byte_val b = 2 \<or> byte_val b = 3) \<and> pubkey_ok (b # bs)
       | _ \<Rightarrow> False))"

definition terminal_validate :: "(bytes \<Rightarrow> bool) \<Rightarrow> terminalResultV1 \<Rightarrow> bool \<Rightarrow> contract_err err" where
  "terminal_validate pubkey_ok r hasResult =
     or_err (fail_if (tr_ResultKind r \<noteq> ''mpc-dkg-terminal-result'' \<or> tr_ResultVersion r \<noteq> 1 \<or>
        \<not> boundedASCII (tr_IntentID r) \<or> \<not> boundedASCII (tr_SessionID r) \<or>
        \<not> keyIDPattern (tr_KeyID r)) ErrTerminalIdentity)
     (if tr_Status r = ''FAILED'' \<or> tr_Status r = ''TIMED_OUT'' then
        fail_if (hasResult \<or> tr_Result r \<noteq> None) ErrNotMinimal
      else if tr_Status r \<noteq> ''COMPLETED'' then Some ErrTerminalStatus
      else (case tr_Result r of
              None \<Rightarrow> Some ErrResultRequired
            | Some c \<Rightarrow>
                or_err (fail_if (\<not> hasResult) ErrResultRequired)
                (or_err (fail_if (parseSHA256Digest (cr_DescriptorFingerprint c) = None) ErrDescriptorFingerprint)
                (or_err (fail_if (parseSHA256Digest (cr_ChainCodeHash c) = None) ErrChainCodeHash)
                (or_err (fail_if (\<not> compressed_key_ok pubkey_ok (cr_AccountPublicKey c)) ErrPublicKey)
                (or_err (fail_if (length (cr_Artifacts c) \<noteq> length artifact_want) ErrArtifactCount)
                (check_artifacts 0 (cr_Artifacts c) artifact_want)))))))"

text \<open>
  \<open>json.Marshal\<close> on these structs: fields in declaration order, \<open>omitempty\<close> on the
  result.
\<close>

definition json_of_artifact :: "artifactResultV1 \<Rightarrow> json" where
  "json_of_artifact a = JObj
     [(''artifactFingerprint'', JStr (ar_ArtifactFingerprint a)),
      (''partyId'', JStr (ar_PartyID a)), (''purpose'', JStr (ar_Purpose a))]"

definition json_of_completed :: "completedResultV1 \<Rightarrow> json" where
  "json_of_completed c = JObj
     [(''accountPublicKey'', JStr (cr_AccountPublicKey c)),
      (''artifacts'', JArr (map json_of_artifact (cr_Artifacts c))),
      (''chainCodeHash'', JStr (cr_ChainCodeHash c)),
      (''descriptorFingerprint'', JStr (cr_DescriptorFingerprint c))]"

definition json_of_terminal :: "terminalResultV1 \<Rightarrow> json" where
  "json_of_terminal r = JObj
     ([(''intentId'', JStr (tr_IntentID r)), (''keyId'', JStr (tr_KeyID r))] @
      (case tr_Result r of None \<Rightarrow> [] | Some c \<Rightarrow> [(''result'', json_of_completed c)]) @
      [(''resultKind'', JStr (tr_ResultKind r)), (''resultVersion'', JNum (show_int (tr_ResultVersion r))),
       (''sessionId'', JStr (tr_SessionID r)), (''status'', JStr (tr_Status r))])"

definition marshal_terminal :: "terminalResultV1 \<Rightarrow> string" where
  "marshal_terminal r = print_json (json_of_terminal r)"

definition CanonicalTerminalResultBytes ::
  "(bytes \<Rightarrow> bytes option) \<Rightarrow> (bytes \<Rightarrow> bool) \<Rightarrow> terminalResultV1 \<Rightarrow> (contract_err, bytes) result" where
  "CanonicalTerminalResultBytes jcs pubkey_ok r =
     (if tr_Status r = ''TIMED_OUT'' then Inl ErrTimedOutOrigin
      else check_res (terminal_validate pubkey_ok r (tr_Result r \<noteq> None))
             (canonicalJCS jcs (marshal_terminal r)))"

definition artifact_names :: "string list" where
  "artifact_names = [''artifactFingerprint'', ''partyId'', ''purpose'']"

definition completed_names :: "string list" where
  "completed_names = [''accountPublicKey'', ''artifacts'', ''chainCodeHash'', ''descriptorFingerprint'']"

definition terminal_names :: "string list" where
  "terminal_names = [''intentId'', ''keyId'', ''result'', ''resultKind'', ''resultVersion'', ''sessionId'', ''status'']"

definition decode_artifact :: "json \<Rightarrow> (decode_err, artifactResultV1) result" where
  "decode_artifact v =
     bind_res (DecodeObject artifact_names v) (\<lambda>as.
     bind_res (get_string as ''artifactFingerprint'') (\<lambda>fp.
     bind_res (get_string as ''partyId'') (\<lambda>pid.
     bind_res (get_string as ''purpose'') (\<lambda>pur.
     Inr \<lparr>ar_ArtifactFingerprint = fp, ar_PartyID = pid, ar_Purpose = pur\<rparr>))))"

definition decode_completed :: "json \<Rightarrow> (decode_err, completedResultV1) result" where
  "decode_completed v =
     bind_res (DecodeObject completed_names v) (\<lambda>as.
     bind_res (get_string as ''accountPublicKey'') (\<lambda>key.
     bind_res (last_array as ''artifacts'') (\<lambda>xs.
     bind_res (collect decode_artifact xs) (\<lambda>arts.
     bind_res (get_string as ''chainCodeHash'') (\<lambda>cch.
     bind_res (get_string as ''descriptorFingerprint'') (\<lambda>dfp.
     Inr \<lparr>cr_AccountPublicKey = key, cr_Artifacts = arts, cr_ChainCodeHash = cch,
          cr_DescriptorFingerprint = dfp\<rparr>))))))"

definition decode_terminal :: "json \<Rightarrow> (decode_err, terminalResultV1) result" where
  "decode_terminal v =
     bind_res (DecodeClosed terminal_names v) (\<lambda>as.
     bind_res (get_string as ''intentId'') (\<lambda>iid.
     bind_res (get_string as ''keyId'') (\<lambda>kid.
     bind_res (case assigned as ''result'' of
                 [] \<Rightarrow> Inr None
               | vs \<Rightarrow> (if last vs = JNull then Inr None
                        else bind_res (decode_completed (last vs)) (\<lambda>c. Inr (Some c)))) (\<lambda>res.
     bind_res (get_string as ''resultKind'') (\<lambda>kind.
     bind_res (get_int as ''resultVersion'') (\<lambda>ver.
     bind_res (get_string as ''sessionId'') (\<lambda>sid.
     bind_res (get_string as ''status'') (\<lambda>st.
     Inr \<lparr>tr_IntentID = iid, tr_KeyID = kid, tr_Result = res, tr_ResultKind = kind,
          tr_ResultVersion = ver, tr_SessionID = sid, tr_Status = st\<rparr>))))))))"

fun has_member :: "string \<Rightarrow> json \<Rightarrow> bool" where
  "has_member k (JObj ms) = (k \<in> set (map fst ms))"
| "has_member k _ = False"

definition ParseCanonicalTerminalResult ::
  "(bytes \<Rightarrow> bytes) \<Rightarrow> (bytes \<Rightarrow> bytes option) \<Rightarrow> (bytes \<Rightarrow> bool) \<Rightarrow> bytes \<Rightarrow> (contract_err, terminalResultV1 \<times> bytes) result" where
  "ParseCanonicalTerminalResult sha jcs pubkey_ok raw =
     check_res (fail_if (length raw > 2048 \<or> \<not> printableASCII raw) ErrBoundedASCII)
     (check_res (requireCanonicalJCS jcs raw)
     (case json_parse raw of
        None \<Rightarrow> Inl ErrNotJSON
      | Some v \<Rightarrow>
          (case decode_terminal v of
             Inl e \<Rightarrow> Inl (ErrDecode e)
           | Inr r \<Rightarrow> check_res (terminal_validate pubkey_ok r (has_member ''result'' v))
                        (Inr (r, digestFor sha raw)))))"

section \<open>Lemmas\<close>

lemma parseSHA256Digest_Some:
  "parseSHA256Digest raw = Some d \<Longrightarrow> length d = 32 \<and> digest_String d = raw \<and> list_all is_url_char raw"
  by (auto simp: parseSHA256Digest_def digest_String_def split: if_splits option.splits)

lemma url_char_of_sextet: "n < 64 \<Longrightarrow> is_url_char (b64_char URLAlphabet n)"
proof -
  assume n: "n < 64"
  consider "n < 26" | "26 \<le> n" "n < 52" | "52 \<le> n" "n < 62" | "n = 62" | "n = 63" using n by linarith
  then show ?thesis
  proof cases
    case 1
    then have "byte_val (byte_of_nat (65 + n)) = 65 + n" by (intro byte_val_of_nat) linarith
    with 1 show ?thesis by (simp add: is_url_char_def b64_char_def)
  next
    case 2
    then have "byte_val (byte_of_nat (71 + n)) = 71 + n" by (intro byte_val_of_nat) linarith
    with 2 show ?thesis by (simp add: is_url_char_def b64_char_def)
  next
    case 3
    then have "byte_val (byte_of_nat (n - 4)) = n - 4" by (intro byte_val_of_nat) linarith
    moreover have "48 \<le> n - 4 \<and> n - 4 \<le> 57" using 3 by linarith
    ultimately show ?thesis using 3 by (simp add: is_url_char_def b64_char_def)
  qed (simp_all add: is_url_char_def b64_char_def)
qed

lemma digest_String_chars: "list_all is_url_char (digest_String d)"
  using sextets_small [of d]
  by (auto simp: digest_String_def raw_url_encode_def list_all_iff url_char_of_sextet)

lemma parse_digest_String: "length d = 32 \<Longrightarrow> parseSHA256Digest (digest_String d) = Some d"
  using digest_String_chars [of d]
  by (simp add: parseSHA256Digest_def digest_String_def length_raw_url_encode_32)

lemma url_char_printable: "is_url_char c \<Longrightarrow> 0x20 \<le> byte_val c \<and> byte_val c \<le> 0x7E"
  by (auto simp: is_url_char_def byte_val_def)

lemma lower_hex_printable: "is_lower_hex c \<Longrightarrow> 0x20 \<le> byte_val c \<and> byte_val c \<le> 0x7E"
  by (auto simp: is_lower_hex_def)

lemma digest_printable: "parseSHA256Digest s \<noteq> None \<Longrightarrow> printable s"
  using parseSHA256Digest_Some url_char_printable by (auto simp: printable_def list_all_iff)

lemma hex_groups_printable: "match_hex_groups ns s \<Longrightarrow> printable s"
proof (induction ns s rule: match_hex_groups.induct)
  case (2 n s)
  then show ?case using lower_hex_printable by (auto simp: printable_def list_all_iff)
next
  case (3 n m ns s)
  have "n < length s" using 3(2) by simp
  then have eq: "s = take n s @ s ! n # drop (Suc n) s" by (rule id_take_nth_drop)
  have "printable (take n s)" "printable (drop (Suc n) s)"
    using 3 lower_hex_printable by (auto simp: printable_def list_all_iff)
  moreover have "0x20 \<le> byte_val (s ! n) \<and> byte_val (s ! n) \<le> 0x7E" using 3(2) by (simp add: byte_val_def)
  ultimately have "printable (take n s @ s ! n # drop (Suc n) s)" by (simp add: printable_def)
  then show ?case by (simp only: eq [symmetric])
qed (simp add: printable_def)

lemma keyID_printable: "keyIDPattern s \<Longrightarrow> printable s"
proof -
  assume "keyIDPattern s"
  then obtain r where r: "strip_prefix ''mpc_key_'' s = Some r" "match_hex_groups [8, 4, 4, 4, 12] r"
    by (auto simp: keyIDPattern_def simp del: strip_prefix_Some split: option.splits)
  then have "s = ''mpc_key_'' @ r" by (simp only: strip_prefix_Some)
  with hex_groups_printable [OF r(2)] show ?thesis by (simp add: printable_def byte_val_def)
qed

lemma bounded_printable: "boundedASCII s \<Longrightarrow> printable s"
  by (simp add: boundedASCII_def ascii_def printable_def)

lemma check_artifacts_each:
  "check_artifacts i as ws = None \<Longrightarrow> length as = length ws \<Longrightarrow>
     list_all2 (\<lambda>a w. ar_PartyID a = fst w \<and> ar_Purpose a = snd w \<and>
       parseSHA256Digest (ar_ArtifactFingerprint a) \<noteq> None) as ws"
  by (induction i as ws rule: check_artifacts.induct) (auto split: if_splits)

lemma check_parties_each:
  "check_parties i ps ws = None \<Longrightarrow> length ps = length ws \<Longrightarrow>
     map (\<lambda>p. (pv_PartyID p, pv_Purpose p)) ps = ws"
  by (induction i ps ws rule: check_parties.induct) (auto split: if_splits)

lemma terminal_completed:
  assumes "terminal_validate ok r h = None" "tr_Result r = Some c"
  shows "tr_Status r = ''COMPLETED''"
    and "list_all2 (\<lambda>a w. ar_PartyID a = fst w \<and> ar_Purpose a = snd w \<and>
      parseSHA256Digest (ar_ArtifactFingerprint a) \<noteq> None) (cr_Artifacts c) artifact_want"
    and "parseSHA256Digest (cr_DescriptorFingerprint c) \<noteq> None"
    and "parseSHA256Digest (cr_ChainCodeHash c) \<noteq> None" "list_all is_lower_hex (cr_AccountPublicKey c)"
  using assms check_artifacts_each [of 0 "cr_Artifacts c" artifact_want]
  by (auto simp: terminal_validate_def compressed_key_ok_def split: if_splits)

lemma list_all2_member: "list_all2 P xs ys \<Longrightarrow> x \<in> set xs \<Longrightarrow> \<exists>y\<in>set ys. P x y"
  by (induction rule: list_all2_induct) auto

lemma keys_distinct_items [simp]:
  "keys_distinct_list (map f xs) \<longleftrightarrow> (\<forall>x\<in>set xs. keys_distinct (f x))"
  by (induction xs) auto

lemma printable_items_all [simp]:
  "printable_items (map f xs) \<longleftrightarrow> (\<forall>x\<in>set xs. printable_json (f x))"
  by (induction xs) auto

lemma terminal_keys_distinct: "keys_distinct (json_of_terminal r)"
  by (auto simp: json_of_terminal_def json_of_completed_def json_of_artifact_def split: option.split)

lemma show_int_1: "show_int 1 = ''1''"
  by code_simp

lemma terminal_printable:
  assumes "terminal_validate ok r h = None"
  shows "printable_json (json_of_terminal r)"
proof -
  have ids: "printable (tr_IntentID r)" "printable (tr_SessionID r)" "printable (tr_KeyID r)"
    "tr_ResultKind r = ''mpc-dkg-terminal-result''" "tr_ResultVersion r = 1"
    "tr_Status r \<in> {''FAILED'', ''TIMED_OUT'', ''COMPLETED''}"
    using assms by (auto simp: terminal_validate_def bounded_printable keyID_printable split: if_splits)
  have lits: "printable ''mpc-dkg-terminal-result''" "printable ''FAILED''" "printable ''TIMED_OUT''"
    "printable ''COMPLETED''" "printable ''intentId''" "printable ''keyId''" "printable ''result''"
    "printable ''resultKind''" "printable ''resultVersion''" "printable ''sessionId''" "printable ''status''"
    "canonical_digits ''1''"
    by code_simp+
  have "printable_json (json_of_completed c)" if c: "tr_Result r = Some c" for c
  proof -
    have lits2: "printable ''accountPublicKey''" "printable ''artifacts''" "printable ''chainCodeHash''"
      "printable ''descriptorFingerprint''" "printable ''artifactFingerprint''" "printable ''partyId''"
      "printable ''purpose''" "printable ''co-signer-primary''" "printable ''co-signer-recovery''"
      "printable ''primary''" "printable ''recovery''"
      by code_simp+
    have "printable (cr_AccountPublicKey c)"
      using terminal_completed(5) [OF assms c] lower_hex_printable by (auto simp: printable_def list_all_iff)
    moreover have "printable_json (json_of_artifact a)" if "a \<in> set (cr_Artifacts c)" for a
    proof -
      from list_all2_member [OF terminal_completed(2) [OF assms c] that]
      obtain w where "w \<in> set artifact_want"
        "ar_PartyID a = fst w" "ar_Purpose a = snd w" "parseSHA256Digest (ar_ArtifactFingerprint a) \<noteq> None"
        by blast
      then show ?thesis using lits2 by (auto simp: json_of_artifact_def artifact_want_def digest_printable)
    qed
    ultimately show ?thesis
      using lits2 terminal_completed(3,4) [OF assms c] by (simp add: json_of_completed_def digest_printable)
  qed
  then show ?thesis
    using ids lits by (auto simp: json_of_terminal_def show_int_1 split: option.split)
qed

lemma match_exact_object:
  "set (map fst ms) \<subseteq> set names \<Longrightarrow> DecodeObject names (JObj ms) = Inr ms"
  by (simp add: match_members_exact)

lemma decode_artifact_json: "decode_artifact (json_of_artifact a) = Inr a"
  unfolding decode_artifact_def json_of_artifact_def
  by (subst match_exact_object) (simp_all add: artifact_names_def get_string_def assigned_def bind_res_def)

lemma collect_json: "(\<And>x. x \<in> set xs \<Longrightarrow> f (g x) = Inr x) \<Longrightarrow> collect f (map g xs) = Inr xs"
  by (induction xs) (simp_all add: bind_res_def)

lemma decode_completed_json: "decode_completed (json_of_completed c) = Inr c"
  unfolding decode_completed_def json_of_completed_def
  by (subst match_exact_object)
    (simp_all add: completed_names_def get_string_def assigned_def bind_res_def last_array_def
      collect_json decode_artifact_json)

lemma decode_terminal_json:
  assumes "tr_ResultVersion r = 1"
  shows "decode_terminal (json_of_terminal r) = Inr r"
proof -
  have rej: "rejectDuplicateKeys (tokens (json_of_terminal r)) True = None"
    using walk_verdicts(1) [OF length_tokens_fuel [of "json_of_terminal r"], of "[]"]
      terminal_keys_distinct [of r]
    by (auto simp: rejectDuplicateKeys_def scan_verdict_def)
  obtain ms where ms: "json_of_terminal r = JObj ms" by (simp add: json_of_terminal_def)
  have "set (map fst ms) \<subseteq> set terminal_names"
    using ms by (auto simp: json_of_terminal_def terminal_names_def split: option.splits)
  then have dec: "DecodeClosed terminal_names (json_of_terminal r) = Inr ms"
    using rej ms by (simp add: DecodeClosed_def match_exact_object del: tokens.simps DecodeObject.simps)
  have one: "parse_int64 ''1'' = Some 1" by code_simp
  have not_null: "json_of_completed c \<noteq> JNull" for c by (simp add: json_of_completed_def)
  show ?thesis
  proof (cases "tr_Result r")
    case None
    then show ?thesis
      using ms assms unfolding decode_terminal_def dec
      by (auto simp: json_of_terminal_def get_string_def get_int_def assigned_def bind_res_def one show_int_1)
  next
    case (Some c)
    then show ?thesis
      using ms assms unfolding decode_terminal_def dec
      by (auto simp: json_of_terminal_def get_string_def get_int_def assigned_def bind_res_def one
          show_int_1 not_null decode_completed_json)
  qed
qed

section \<open>Properties\<close>

text \<open>
  The text of a digest and the digest determine each other: a string parses
  to a digest exactly when the digest has 32 bytes and the string is its
  base64url text, so no two accepted strings stand for one digest.
\<close>

theorem digest_text_exact:
  "parseSHA256Digest raw = Some d \<longleftrightarrow> length d = 32 \<and> raw = digest_String d"
  using parseSHA256Digest_Some parse_digest_String by auto

text \<open>
  C15. Accepted descriptor bytes are printable ASCII of at most 2048 bytes and
  exactly their own JCS form, repeat no object key, and describe the fixed
  two-of-three contract: threshold 2, the platform, primary and recovery party in
  this order, a well-formed key id; the fingerprint is the hash of these bytes.
\<close>

theorem descriptor_accepts_only_contract:
  assumes "ParseCanonicalDescriptor sha jcs raw = Inr (d, fp)"
  shows "length raw \<le> 2048 \<and> printableASCII raw \<and> jcs raw = Some raw \<and> fp = sha raw \<and>
    kd_Threshold d = 2 \<and> keyIDPattern (kd_KeyID d) \<and>
    map (\<lambda>p. (pv_PartyID p, pv_Purpose p)) (kd_Parties d) =
      [(''mpc-signer'', ''platform''), (''co-signer-primary'', ''primary''),
       (''co-signer-recovery'', ''recovery'')] \<and>
    (\<exists>v. json_parse raw = Some v \<and> keys_distinct v \<and> numbers_ok v)"
proof -
  obtain v where v: "json_parse raw = Some v" "decode_descriptor v = Inr d" "descriptor_validate d = None"
    and raw: "length raw \<le> 2048" "printableASCII raw" "requireCanonicalJCS jcs raw = None" "fp = sha raw"
    using assms by (auto simp: ParseCanonicalDescriptor_def digestFor_def not_less split: option.splits sum.splits)
  have scan: "validateJSONTokens (tokens v) True = None" "jcs raw = Some raw"
    using raw(3) v(1) by (auto simp: requireCanonicalJCS_def canonicalJCS_def split: option.splits sum.splits)
  have "keys_distinct v \<and> numbers_ok v" using scan(1) by (simp add: validateJSONTokens_iff)
  moreover have "kd_Threshold d = 2" "keyIDPattern (kd_KeyID d)"
    "map (\<lambda>p. (pv_PartyID p, pv_Purpose p)) (kd_Parties d) = descriptor_want"
    using v(3) check_parties_each [of 0 "kd_Parties d" descriptor_want] by (simp_all add: descriptor_validate_def)
  ultimately show ?thesis using raw scan(2) v(1) by (simp add: descriptor_want_def)
qed

definition ex_descriptor :: keyDescriptorV1 where
  "ex_descriptor = \<lparr>kd_Algorithm = ''ECDSA'', kd_ChainCodeHash = digest_String (replicate 32 (CHR 0x00)),
     kd_Curve = ''secp256k1'', kd_DerivationScheme = ''bip32_secp256k1'',
     kd_DescriptorKind = ''mpc-key-descriptor'', kd_DescriptorVersion = 1,
     kd_KeyID = ''mpc_key_00000000-0000-0000-0000-000000000000'',
     kd_Parties = map (\<lambda>w. \<lparr>pv_PartyID = fst w, pv_Purpose = snd w\<rparr>) descriptor_want,
     kd_ProtocolVersion = 1, kd_PublicKeyFormat = ''compressed_sec1'', kd_Threshold = 2\<rparr>"

definition ex_descriptor_json :: json where
  "ex_descriptor_json = JObj [(''algorithm'', JStr ''ECDSA''),
     (''chainCodeHash'', JStr (kd_ChainCodeHash ex_descriptor)), (''curve'', JStr ''secp256k1''),
     (''derivationScheme'', JStr ''bip32_secp256k1''), (''descriptorKind'', JStr ''mpc-key-descriptor''),
     (''descriptorVersion'', JNum ''1''), (''keyId'', JStr (kd_KeyID ex_descriptor)),
     (''parties'', JArr (map (\<lambda>w. JObj [(''partyId'', JStr (fst w)), (''purpose'', JStr (snd w))]) descriptor_want)),
     (''protocolVersion'', JNum ''1''), (''publicKeyFormat'', JStr ''compressed_sec1''),
     (''threshold'', JNum ''2'')]"

lemma scan_one_digit: "is_digit c \<Longrightarrow> scan_number_ok [c]"
proof -
  assume c: "is_digit c"
  then have n: "digit_val c < 10" by (auto simp: is_digit_def digit_val_def)
  then have "[c] = show_nat (digit_val c)" using digit_char_digit_val [OF c] by (simp add: show_nat_less_10)
  then have "canonical_digits [c]" "digits_val [c] = digit_val c"
    using canonical_show_nat [of "digit_val c"] digits_val_show_nat [of "digit_val c"] by simp_all
  then show ?thesis using n by (simp add: scan_number_ok_def maxSafeJSONInteger_def)
qed

lemma scan_version_numbers [simp]: "scan_number_ok ''1''" "scan_number_ok ''2''"
  by (rule scan_one_digit, code_simp)+

lemma ex_descriptor_parses:
  "ParseCanonicalDescriptor id Some (print_json ex_descriptor_json) =
     Inr (ex_descriptor, print_json ex_descriptor_json)"
proof -
  have zeros: "digest_String (replicate 32 (CHR 0x00)) = replicate 43 (CHR ''A'')" by code_simp
  have eval: "printable_json ex_descriptor_json" "length (print_json ex_descriptor_json) \<le> 2048"
    "printableASCII (print_json ex_descriptor_json)" "keys_distinct ex_descriptor_json"
    by (simp_all add: ex_descriptor_json_def descriptor_want_def ex_descriptor_def zeros marshal_string_printable
        marshal_char_def length_concat printableASCII_def text_eval)
  moreover have dec: "decode_descriptor ex_descriptor_json = Inr ex_descriptor" "descriptor_validate ex_descriptor = None"
    unfolding ex_descriptor_json_def ex_descriptor_def zeros by code_simp+
  moreover have "numbers_ok ex_descriptor_json"
    by (simp add: ex_descriptor_json_def descriptor_want_def)
  ultimately have "validateJSONTokens (tokens ex_descriptor_json) True = None"
    by (simp add: validateJSONTokens_iff)
  with eval dec show ?thesis
    by (simp add: ParseCanonicalDescriptor_def requireCanonicalJCS_def canonicalJCS_def json_parse_print
        digestFor_def check_res_def fail_if_def)
qed

theorem descriptor_accepts_only_contract_witness:
  "kd_Threshold ex_descriptor = 2 \<and> keyIDPattern (kd_KeyID ex_descriptor) \<and>
   (\<exists>v. json_parse (print_json ex_descriptor_json) = Some v \<and> keys_distinct v \<and> numbers_ok v)"
  using descriptor_accepts_only_contract [OF ex_descriptor_parses] by blast


definition ex_failed :: terminalResultV1 where
  "ex_failed = \<lparr>tr_IntentID = ''i1'', tr_KeyID = ''mpc_key_00000000-0000-0000-0000-000000000000'',
     tr_Result = None, tr_ResultKind = ''mpc-dkg-terminal-result'', tr_ResultVersion = 1,
     tr_SessionID = ''s1'', tr_Status = ''FAILED''\<rparr>"

lemma ex_failed_bytes:
  "CanonicalTerminalResultBytes Some (\<lambda>_. True) ex_failed = Inr (marshal_terminal ex_failed)"
proof -
  have eval: "printable_json (json_of_terminal ex_failed)" "keys_distinct (json_of_terminal ex_failed)"
    "terminal_validate (\<lambda>_. True) ex_failed False = None"
    by code_simp+
  have "numbers_ok (json_of_terminal ex_failed)"
    using show_int_1 by (simp add: ex_failed_def json_of_terminal_def)
  with eval(2) have "validateJSONTokens (tokens (json_of_terminal ex_failed)) True = None"
    by (simp add: validateJSONTokens_iff)
  moreover have "tr_Result ex_failed = None" "tr_Status ex_failed \<noteq> ''TIMED_OUT''"
    by (simp_all add: ex_failed_def)
  ultimately show ?thesis using eval
    by (simp add: CanonicalTerminalResultBytes_def canonicalJCS_def marshal_terminal_def json_parse_print check_res_def)
qed


end
