(* ===== verification/SigningPolicy.thy ===== *)
theory SigningPolicy
  imports Prelude
begin

text \<open>
  Signing policy (\<open>src/internal/signingpolicy\<close>): decimal numbers, the signing
  tuple, the policy context of a SIGN intent, and the token transfer call data.
  The verification of prepared transaction bytes is in theory \<open>Prepared\<close>.
\<close>

section \<open>Numbers\<close>

definition maxProducerSafeInteger :: int where
  "maxProducerSafeInteger = 2 ^ 53 - 1"

definition canonicalUint :: "string \<Rightarrow> bool" where
  "canonicalUint value =
     (if value = ''0'' then True
      else if value = '''' \<or> byte_val (hd value) < 49 \<or> byte_val (hd value) > 57 then False
      else list_all (\<lambda>c. \<not> (byte_val c < 48 \<or> byte_val c > 57)) (tl value))"

definition canonicalPositiveUint :: "string \<Rightarrow> bool" where
  "canonicalPositiveUint value = (value \<noteq> ''0'' \<and> canonicalUint value)"

text \<open>\<open>compareUint\<close> returns -1, 0 or 1 as \<open>Cmp\<close> does, and 1 when a side is no number.\<close>

definition compareUint :: "string \<Rightarrow> string \<Rightarrow> int" where
  "compareUint left right =
     (case (parse_bigint left, parse_bigint right) of
        (Some l, Some r) \<Rightarrow> (if l < r then -1 else if l = r then 0 else 1)
      | _ \<Rightarrow> 1)"

section \<open>Policy context and tuple\<close>

record policy_context =
  pc_AmountAtomic :: string
  pc_Asset :: string
  pc_Chain :: string
  pc_ChainID :: string
  pc_FeeLimitSun :: "string option"
  pc_FromAddress :: string
  pc_GasLimit :: string
  pc_MaxFeePerGas :: string
  pc_MaxPriorityFeePerGas :: string
  pc_Nonce :: string
  pc_ToAddress :: string
  pc_TokenContractCanonical :: "string option"
  pc_TokenDecimals :: "int option"
  pc_TokenStandard :: "string option"
  pc_TransactionType :: u32
  pc_Version :: u32

record tuple =
  tu_Algorithm :: string
  tu_Curve :: string
  tu_Chain :: string
  tu_DigestType :: string
  tu_HashAlgorithm :: string
  tu_PayloadType :: string
  tu_AddressEncoding :: string

record approvedExecution =
  ae_Version :: int
  ae_RequestID :: string
  ae_OutgoingID :: string
  ae_Authorization :: bytes
  ae_AuthorizationHash :: string
  ae_DecisionReceipt :: bytes

record preparedTransfer =
  pr_Version :: int
  pr_Encoding :: string
  pr_UnsignedTransaction :: string
  pr_NetworkFeeAsset :: string
  pr_NetworkFeeBudgetAtomic :: string
  pr_FeeEvidence :: bytes

datatype policy_err =
    ErrUnsupportedTuple
  | ErrContextIncomplete
  | ErrPayloadTypeUnsupported
  | ErrAddressValidation string string
  | ErrEthereumContext
  | ErrEthereumNative
  | ErrEthereumToken
  | ErrTronNetwork
  | ErrPolicyMismatch

section \<open>Ethereum\<close>

definition ethereumChainID :: "string \<Rightarrow> string" where
  "ethereumChainID chain =
     (if chain = ''ethereum:mainnet'' then ''1''
      else if chain = ''ethereum:sepolia'' then ''11155111'' else '''')"

definition isEthereumChain :: "string \<Rightarrow> bool" where
  "isEthereumChain chain = (ethereumChainID chain \<noteq> '''')"

definition canonicalEVMAddress :: "string \<Rightarrow> bool" where
  "canonicalEVMAddress value =
     (if length value \<noteq> 42 \<or> \<not> has_prefix ''0x'' value then False
      else list_all (\<lambda>c. \<not> (byte_val c < 48 \<or> byte_val c > 57 \<and> (byte_val c < 97 \<or> byte_val c > 102)))
             (drop 2 value))"

definition validateEthereumAddresses :: "policy_context \<Rightarrow> policy_err err" where
  "validateEthereumAddresses p =
     or_err (fail_if (\<not> canonicalEVMAddress (pc_FromAddress p))
               (ErrAddressValidation ''payload.policyContext.fromAddress'' ''noncanonical_address''))
     (or_err (fail_if (\<not> canonicalEVMAddress (pc_ToAddress p))
               (ErrAddressValidation ''payload.policyContext.toAddress'' ''noncanonical_address''))
     (case (pc_TokenStandard p, pc_TokenContractCanonical p) of
        (Some _, Some contract) \<Rightarrow>
          fail_if (\<not> canonicalEVMAddress contract)
            (ErrAddressValidation ''payload.policyContext.tokenContractCanonical'' ''noncanonical_address'')
      | _ \<Rightarrow> None))"

definition validateEthereumContext :: "policy_context \<Rightarrow> policy_err err" where
  "validateEthereumContext p =
     or_err (validateEthereumAddresses p)
     (or_err (let wantChainID = ethereumChainID (pc_Chain p) in fail_if
        (pc_Version p \<noteq> 1 \<or> pc_TransactionType p \<noteq> 2 \<or> wantChainID = '''' \<or>
         pc_ChainID p \<noteq> wantChainID \<or>
         \<not> canonicalUint (pc_AmountAtomic p) \<or> \<not> canonicalUint (pc_Nonce p) \<or>
         \<not> canonicalPositiveUint (pc_GasLimit p) \<or> \<not> canonicalPositiveUint (pc_MaxFeePerGas p) \<or>
         \<not> canonicalUint (pc_MaxPriorityFeePerGas p) \<or>
         compareUint (pc_MaxPriorityFeePerGas p) (pc_MaxFeePerGas p) > 0) ErrEthereumContext)
     (case pc_TokenStandard p of
        None \<Rightarrow> fail_if (pc_Asset p \<noteq> ''ETH'' \<or> pc_TokenContractCanonical p \<noteq> None \<or>
                         pc_TokenDecimals p \<noteq> None) ErrEthereumNative
      | Some standard \<Rightarrow>
          fail_if (standard \<noteq> ''erc20'' \<or> pc_TokenContractCanonical p = None \<or>
            (case pc_TokenDecimals p of None \<Rightarrow> True | Some d \<Rightarrow> d < 0 \<or> d > 255) \<or>
            pc_Asset p = ''ETH'') ErrEthereumToken))"

definition validEthereumTuple :: "tuple \<Rightarrow> bool" where
  "validEthereumTuple t = (isEthereumChain (tu_Chain t) \<and> tu_AddressEncoding t = ''evm_hex'')"

section \<open>TRON\<close>

definition isTronChain :: "string \<Rightarrow> bool" where
  "isTronChain chain = (chain = ''tron:mainnet'' \<or> chain = ''tron:nile'')"

definition validateTronContext :: "policy_context \<Rightarrow> policy_err err" where
  "validateTronContext p =
     or_err (fail_if (\<not> isTronChain (pc_Chain p)) ErrTronNetwork)
     (fail_if (pc_Version p \<noteq> 0 \<or> pc_TransactionType p \<noteq> 0 \<or> pc_ChainID p \<noteq> '''' \<or>
        pc_Nonce p \<noteq> '''' \<or> pc_GasLimit p \<noteq> '''' \<or> pc_MaxFeePerGas p \<noteq> '''' \<or>
        pc_MaxPriorityFeePerGas p \<noteq> '''') ErrPolicyMismatch)"

definition validTronTuple :: "tuple \<Rightarrow> bool" where
  "validTronTuple t = (isTronChain (tu_Chain t) \<and>
     (tu_AddressEncoding t = ''tron_base58'' \<or> tu_AddressEncoding t = ''base58check'' \<or>
      tu_AddressEncoding t = ''tron_base58check''))"

section \<open>Protocol table\<close>

datatype protocol = Ethereum | Tron

definition protocolForPayload :: "string \<Rightarrow> protocol option" where
  "protocolForPayload payloadType =
     (if payloadType = ''ethereum-transaction'' then Some Ethereum
      else if payloadType = ''tron-transaction'' then Some Tron else None)"

fun hashAlgorithm :: "protocol \<Rightarrow> string" where
  "hashAlgorithm Ethereum = ''keccak256''"
| "hashAlgorithm Tron = ''sha256''"

fun supportsChain :: "protocol \<Rightarrow> string \<Rightarrow> bool" where
  "supportsChain Ethereum = isEthereumChain"
| "supportsChain Tron = isTronChain"

fun validTuple :: "protocol \<Rightarrow> tuple \<Rightarrow> bool" where
  "validTuple Ethereum = validEthereumTuple"
| "validTuple Tron = validTronTuple"

fun validateContext :: "protocol \<Rightarrow> policy_context \<Rightarrow> policy_err err" where
  "validateContext Ethereum = validateEthereumContext"
| "validateContext Tron = validateTronContext"

definition ValidPayloadHash :: "string \<Rightarrow> string \<Rightarrow> bool" where
  "ValidPayloadHash payloadType algorithm =
     (case protocolForPayload payloadType of None \<Rightarrow> False | Some p \<Rightarrow> hashAlgorithm p = algorithm)"

definition normalize_tuple :: "tuple \<Rightarrow> tuple" where
  "normalize_tuple t =
     \<lparr>tu_Algorithm = ToLower (TrimSpace (tu_Algorithm t)), tu_Curve = ToLower (TrimSpace (tu_Curve t)),
      tu_Chain = TrimSpace (tu_Chain t), tu_DigestType = TrimSpace (tu_DigestType t),
      tu_HashAlgorithm = TrimSpace (tu_HashAlgorithm t), tu_PayloadType = TrimSpace (tu_PayloadType t),
      tu_AddressEncoding = TrimSpace (tu_AddressEncoding t)\<rparr>"

definition ValidateTuple :: "tuple \<Rightarrow> policy_err err" where
  "ValidateTuple t0 =
     (let t = normalize_tuple t0 in
      if tu_Algorithm t \<noteq> ''ecdsa'' \<or> tu_Curve t \<noteq> ''secp256k1'' \<or> tu_DigestType t \<noteq> ''transaction''
      then Some ErrUnsupportedTuple
      else (case protocolForPayload (tu_PayloadType t) of
              Some p \<Rightarrow> if tu_HashAlgorithm t = hashAlgorithm p \<and> validTuple p t then None
                        else Some ErrUnsupportedTuple
            | None \<Rightarrow> Some ErrUnsupportedTuple))"

definition ValidateContext ::
  "policy_context option \<Rightarrow> string \<Rightarrow> string \<Rightarrow> string \<Rightarrow> policy_err err" where
  "ValidateContext policy chain payloadType expectedAddress =
     (case policy of
        None \<Rightarrow> Some ErrContextIncomplete
      | Some p \<Rightarrow>
          if pc_Asset p = '''' \<or> pc_AmountAtomic p = '''' \<or> pc_FromAddress p = '''' \<or>
             pc_ToAddress p = '''' \<or> pc_Chain p = '''' then Some ErrContextIncomplete
          else (case protocolForPayload payloadType of
                  None \<Rightarrow> Some ErrPayloadTypeUnsupported
                | Some protocol \<Rightarrow>
                    or_err (validateContext protocol p)
                    (fail_if (pc_Chain p \<noteq> chain \<or> pc_FromAddress p \<noteq> expectedAddress) ErrPolicyMismatch)))"

section \<open>Token transfer call\<close>

definition TrimPrefix :: "string \<Rightarrow> string \<Rightarrow> string" where
  "TrimPrefix p s = (case strip_prefix p s of Some r \<Rightarrow> r | None \<Rightarrow> s)"

text \<open>\<open>transferCall\<close>: \<^term>\<open>None\<close> is its nil result.\<close>

definition transferCall :: "string \<Rightarrow> string \<Rightarrow> bytes option" where
  "transferCall address amount =
     (case (hex_decode (TrimPrefix ''0x'' address), parse_bigint amount) of
        (Some addr, Some n) \<Rightarrow>
          if length addr \<noteq> 20 \<or> n < 0 \<or> n \<ge> 2 ^ 256 then None
          else Some ([CHR 0xA9, CHR 0x05, CHR 0x9C, CHR 0xBB] @ replicate 12 (CHR 0x00) @ addr @
                     be_bytes 32 (nat n))
      | _ \<Rightarrow> None)"

section \<open>Lemmas\<close>

lemma canonicalUint_digits: "canonicalUint s \<longleftrightarrow> canonical_digits s"
  by (auto simp: canonicalUint_def canonical_digits_def is_digit_def list_all_iff not_less)

lemma canonicalUint_show: "canonicalUint s \<Longrightarrow> \<exists>n. s = show_nat n"
  by (simp add: canonicalUint_digits canonical_digits_iff)

lemma show_nat_0: "show_nat 0 = ''0''"
  by (simp add: show_nat_less_10 digit_char_0)

lemma canonicalPositiveUint_show: "canonicalPositiveUint s \<longleftrightarrow> (\<exists>n>0. s = show_nat n)"
  unfolding canonicalPositiveUint_def canonicalUint_digits canonical_digits_iff show_nat_0 [symmetric]
  by auto

lemma compareUint_show:
  "compareUint (show_nat a) (show_nat b) = (if a < b then -1 else if a = b then 0 else 1)"
  by (simp add: compareUint_def)

lemma canonicalEVMAddress_hex:
  assumes "canonicalEVMAddress a"
  shows "\<exists>h. a = ''0x'' @ h \<and> length h = 40 \<and> list_all is_lower_hex h"
proof -
  from assms obtain h where h: "a = ''0x'' @ h" "length a = 42"
    by (auto simp: canonicalEVMAddress_def has_prefix_iff split: if_splits)
  with assms show ?thesis
    by (auto simp: canonicalEVMAddress_def is_lower_hex_def list_all_iff not_less split: if_splits)
qed

lemma TrimPrefix_0x [simp]: "TrimPrefix ''0x'' (''0x'' @ h) = h"
  by (simp add: TrimPrefix_def)

lemma transferCall_Some:
  assumes "transferCall a m = Some b"
  shows "\<exists>addr n. hex_decode (TrimPrefix ''0x'' a) = Some addr \<and> length addr = 20 \<and>
    parse_bigint m = Some (int n) \<and> n < 2 ^ 256 \<and>
    b = [CHR 0xA9, CHR 0x05, CHR 0x9C, CHR 0xBB] @ replicate 12 (CHR 0x00) @ addr @ be_bytes 32 n"
proof -
  obtain addr i where ai: "hex_decode (TrimPrefix ''0x'' a) = Some addr" "parse_bigint m = Some i"
    using assms by (auto simp: transferCall_def split: option.splits)
  with assms have b: "length addr = 20" "0 \<le> i" "i < 2 ^ 256"
    "b = [CHR 0xA9, CHR 0x05, CHR 0x9C, CHR 0xBB] @ replicate 12 (CHR 0x00) @ addr @ be_bytes 32 (nat i)"
    by (auto simp: transferCall_def split: if_splits)
  then have "nat i < 2 ^ 256" by (simp add: nat_less_iff)
  with ai b show ?thesis by (intro exI [of _ addr] exI [of _ "nat i"]) simp
qed

lemma be_bytes_inj:
  assumes "be_bytes 32 m = be_bytes 32 n" "m < 2 ^ 256" "n < 2 ^ 256"
  shows "m = n"
proof -
  have e: "(2::nat) ^ 256 = 256 ^ 32" by simp
  show ?thesis using assms be_val_be_bytes [of m 32] be_val_be_bytes [of n 32] unfolding e by metis
qed

section \<open>Properties\<close>

text \<open>
  \<open>canonicalUint\<close> accepts exactly the decimal numerals of the natural
  numbers without leading zeros, and on two such numerals \<open>compareUint\<close> is the
  numeric comparison, for numbers of any size.
\<close>

theorem canonicalUint_decimal:
  "(canonicalUint s \<longleftrightarrow> (\<exists>n. s = show_nat n)) \<and>
   compareUint (show_nat a) (show_nat b) = (if a < b then -1 else if a = b then 0 else 1)"
  by (simp add: canonicalUint_digits canonical_digits_iff compareUint_show)

text \<open>
  C16. Transfer call data is 68 bytes starting with the selector a9059cbb, and
  it determines its terms: two calls with canonical recipient addresses and
  canonical amounts have equal bytes only when recipient and amount are equal.
\<close>

theorem transferCall_determines_terms:
  assumes "canonicalEVMAddress a" "canonicalEVMAddress a'" "canonicalUint m" "canonicalUint m'"
    and "transferCall a m = Some b" "transferCall a' m' = Some b"
  shows "a = a' \<and> m = m' \<and> length b = 68 \<and> take 4 b = [CHR 0xA9, CHR 0x05, CHR 0x9C, CHR 0xBB]"
proof -
  obtain h h' where h: "a = ''0x'' @ h" "list_all is_lower_hex h"
    and h': "a' = ''0x'' @ h'" "list_all is_lower_hex h'"
    using canonicalEVMAddress_hex assms(1,2) by blast
  obtain addr n where t: "hex_decode h = Some addr" "length addr = 20" "parse_bigint m = Some (int n)"
    "n < 2 ^ 256"
    "b = [CHR 0xA9, CHR 0x05, CHR 0x9C, CHR 0xBB] @ replicate 12 (CHR 0x00) @ addr @ be_bytes 32 n"
    using transferCall_Some [OF assms(5)] unfolding h(1) TrimPrefix_0x by blast
  obtain addr' n' where t': "hex_decode h' = Some addr'" "length addr' = 20" "parse_bigint m' = Some (int n')"
    "n' < 2 ^ 256"
    "b = [CHR 0xA9, CHR 0x05, CHR 0x9C, CHR 0xBB] @ replicate 12 (CHR 0x00) @ addr' @ be_bytes 32 n'"
    using transferCall_Some [OF assms(6)] unfolding h'(1) TrimPrefix_0x by blast
  from t(5) t'(5) have "addr @ be_bytes 32 n = addr' @ be_bytes 32 n'" by simp
  then have "addr = addr'" "be_bytes 32 n = be_bytes 32 n'" using t(2) t'(2) by simp_all
  with t t' have "n = n'" using be_bytes_inj by blast
  moreover obtain k k' where "m = show_nat k" "m' = show_nat k'"
    using assms(3,4) canonicalUint_show by blast
  ultimately have "m = m'" using t(3) t'(3) by simp
  moreover have "h = h'"
    using hex_encode_decode [OF h(2) t(1)] hex_encode_decode [OF h'(2) t'(1)] \<open>addr = addr'\<close> by simp
  ultimately show ?thesis using h(1) h'(1) t(2,5) by simp
qed

theorem transferCall_determines_terms_witness:
  "let a = ''0x00112233445566778899aabbccddeeff00112233'' in
   \<exists>b. transferCall a ''1000'' = Some b \<and> length b = 68"
proof -
  let ?a = "''0x00112233445566778899aabbccddeeff00112233''"
  have "transferCall ?a ''1000'' \<noteq> None" by code_simp
  then obtain b where b: "transferCall ?a ''1000'' = Some b" by blast
  moreover have "canonicalEVMAddress ?a" "canonicalUint ''1000''" by code_simp+
  ultimately show ?thesis using transferCall_determines_terms [of ?a ?a "''1000''" "''1000''" b] by simp
qed

text \<open>
  C13. An accepted policy context is bound to the signing identity: its chain
  and source address are the requested ones, the chain belongs to the protocol
  of the payload type, and on an Ethereum chain the chain id is the chain's, all
  numbers are canonical, gas limit and maximal fee are positive and the priority
  fee does not exceed the maximal fee.
\<close>

theorem ValidateContext_binds:
  assumes "ValidateContext (Some p) chain payloadType addr = None"
  shows "pc_Chain p = chain \<and> pc_FromAddress p = addr \<and>
    (\<exists>protocol. protocolForPayload payloadType = Some protocol \<and> supportsChain protocol chain \<and>
      (protocol = Ethereum \<longrightarrow> pc_ChainID p = ethereumChainID chain \<and>
        (\<exists>amount nonce gas fee priority.
           pc_AmountAtomic p = show_nat amount \<and> pc_Nonce p = show_nat nonce \<and>
           pc_GasLimit p = show_nat gas \<and> 0 < gas \<and>
           pc_MaxFeePerGas p = show_nat fee \<and> 0 < fee \<and>
           pc_MaxPriorityFeePerGas p = show_nat priority \<and> priority \<le> fee)))"
proof -
  obtain protocol where pr: "protocolForPayload payloadType = Some protocol"
    "validateContext protocol p = None" "pc_Chain p = chain" "pc_FromAddress p = addr"
    using assms by (auto simp: ValidateContext_def split: option.splits if_splits)
  show ?thesis
  proof (cases protocol)
    case Tron
    then show ?thesis using pr by (auto simp: validateTronContext_def)
  next
    case Ethereum
    with pr have e: "ethereumChainID chain \<noteq> ''''" "pc_ChainID p = ethereumChainID chain"
      "canonicalUint (pc_AmountAtomic p)" "canonicalUint (pc_Nonce p)"
      "canonicalPositiveUint (pc_GasLimit p)" "canonicalPositiveUint (pc_MaxFeePerGas p)"
      "canonicalUint (pc_MaxPriorityFeePerGas p)"
      "\<not> compareUint (pc_MaxPriorityFeePerGas p) (pc_MaxFeePerGas p) > 0"
      by (simp_all add: validateEthereumContext_def Let_def)
    then obtain amount nonce gas fee priority where n: "pc_AmountAtomic p = show_nat amount"
      "pc_Nonce p = show_nat nonce" "pc_GasLimit p = show_nat gas" "0 < gas"
      "pc_MaxFeePerGas p = show_nat fee" "0 < fee" "pc_MaxPriorityFeePerGas p = show_nat priority"
      unfolding canonicalPositiveUint_show by (blast dest: canonicalUint_show)
    moreover have "priority \<le> fee"
      using e(8) n by (simp add: compareUint_show split: if_splits)
    ultimately show ?thesis
      using pr e Ethereum by (auto simp: isEthereumChain_def)
  qed
qed

definition ex_policy :: policy_context where
  "ex_policy = \<lparr>pc_AmountAtomic = ''7'', pc_Asset = ''ETH'', pc_Chain = ''ethereum:sepolia'',
     pc_ChainID = ''11155111'', pc_FeeLimitSun = None,
     pc_FromAddress = ''0x00112233445566778899aabbccddeeff00112233'', pc_GasLimit = ''21000'',
     pc_MaxFeePerGas = ''10'', pc_MaxPriorityFeePerGas = ''9'', pc_Nonce = ''0'',
     pc_ToAddress = ''0xffffffffffffffffffffffffffffffffffffffff'', pc_TokenContractCanonical = None,
     pc_TokenDecimals = None, pc_TokenStandard = None, pc_TransactionType = 2, pc_Version = 1\<rparr>"

theorem ValidateContext_binds_witness:
  "pc_Chain ex_policy = ''ethereum:sepolia'' \<and>
   (\<exists>protocol. protocolForPayload ''ethereum-transaction'' = Some protocol \<and>
      supportsChain protocol ''ethereum:sepolia'')"
proof -
  have "ValidateContext (Some ex_policy) ''ethereum:sepolia'' ''ethereum-transaction''
      ''0x00112233445566778899aabbccddeeff00112233'' = None" by code_simp
  from ValidateContext_binds [OF this] show ?thesis by blast
qed

end
