(* ===== verification/Timestamp.thy ===== *)
theory Timestamp
  imports Prelude
begin

text \<open>
  Instants as the code reads and prints them: \<open>time.Parse(time.RFC3339Nano, s)\<close>, the
  stricter reading of \<open>Time.UnmarshalJSON\<close>, and \<open>Format(time.RFC3339Nano)\<close>. An
  instant is the number of nanoseconds since the Unix epoch; the zone offset of a
  parsed value (seconds east of UTC) is kept beside it where it is printed again.
\<close>

section \<open>Calendar\<close>

definition second :: duration where
  "second = 1000000000"

definition millisecond :: duration where
  "millisecond = 1000000"

definition zero_time :: time where
  "zero_time = - 62135596800 * second"

definition IsZero :: "time \<Rightarrow> bool" where
  "IsZero t = (t = zero_time)"

definition is_leap :: "int \<Rightarrow> bool" where
  "is_leap y = (y mod 4 = 0 \<and> (y mod 100 \<noteq> 0 \<or> y mod 400 = 0))"

definition days_in :: "int \<Rightarrow> int \<Rightarrow> int" where
  "days_in m y = (if m = 2 then (if is_leap y then 29 else 28) else if m \<in> {4, 6, 9, 11} then 30 else 31)"

definition days_before_month :: "int \<Rightarrow> int \<Rightarrow> int" where
  "days_before_month m y = sum_list (map (\<lambda>k. days_in (int k) y) [1..<nat m])"

definition days_of_civil :: "int \<Rightarrow> int \<Rightarrow> int \<Rightarrow> int" where
  "days_of_civil y m d =
     (let p = y - 1 in 365 * p + p div 4 - p div 100 + p div 400 + days_before_month m y + (d - 1) - 719162)"

definition civil_of_days :: "int \<Rightarrow> int \<times> int \<times> int" where
  "civil_of_days n =
     (let z = n + 719468; era = z div 146097; doe = z mod 146097;
          yoe = (doe - doe div 1460 + doe div 36524 - doe div 146096) div 365;
          doy = doe - (365 * yoe + yoe div 4 - yoe div 100);
          mp = (5 * doy + 2) div 153; m = (if mp < 10 then mp + 3 else mp - 9);
          y = yoe + era * 400 + (if m \<le> 2 then 1 else 0)
      in (y, m, doy - (153 * mp + 2) div 5 + 1))"

section \<open>Reading\<close>

text \<open>\<open>getnum\<close>: two digits; without \<open>fixed\<close> one digit is enough when no second follows.\<close>

fun getnum :: "bool \<Rightarrow> string \<Rightarrow> (int \<times> string) option" where
  "getnum fixed (a # b # r) =
     (if \<not> is_digit a then None
      else if is_digit b then Some (10 * int (digit_val a) + int (digit_val b), r)
      else if fixed then None else Some (int (digit_val a), b # r))"
| "getnum fixed [a] = (if is_digit a \<and> \<not> fixed then Some (int (digit_val a), []) else None)"
| "getnum fixed [] = None"

definition expect :: "char \<Rightarrow> string \<Rightarrow> string option" where
  "expect c s = (case s of x # r \<Rightarrow> if x = c then Some r else None | [] \<Rightarrow> None)"

definition digits_int :: "string \<Rightarrow> int" where
  "digits_int s = foldl (\<lambda>a c. 10 * a + int (digit_val c)) 0 s"

definition get_year :: "string \<Rightarrow> (int \<times> string) option" where
  "get_year s = (if 4 \<le> length s \<and> list_all is_digit (take 4 s)
     then Some (digits_int (take 4 s), drop 4 s) else None)"

text \<open>Any number of digits after the mark; nine are significant.\<close>

definition get_fraction :: "bool \<Rightarrow> string \<Rightarrow> int \<times> string" where
  "get_fraction comma s =
     (case s of
        c # d # r \<Rightarrow>
          if (c = CHR ''.'' \<or> comma \<and> c = CHR '','') \<and> is_digit d
          then (let ds = takeWhile is_digit (d # r); nine = take 9 ds
                in (digits_int nine * 10 ^ (9 - length nine), dropWhile is_digit (d # r)))
          else (0, s)
      | _ \<Rightarrow> (0, s))"

definition get_zone :: "int \<Rightarrow> int \<Rightarrow> string \<Rightarrow> int option" where
  "get_zone hmax mmax s =
     (if s = ''Z'' then Some 0
      else (case s of
              sg # h1 # h2 # col # m1 # m2 # rest \<Rightarrow>
                (case (getnum True [h1, h2], getnum True [m1, m2]) of
                   (Some (hr, _), Some (mm, _)) \<Rightarrow>
                     if rest = [] \<and> col = CHR '':'' \<and> hr \<le> hmax \<and> mm \<le> mmax \<and> (sg = CHR ''+'' \<or> sg = CHR ''-'')
                     then Some ((if sg = CHR ''-'' then -1 else 1) * (hr * 60 + mm) * 60) else None
                 | _ \<Rightarrow> None)
            | _ \<Rightarrow> None))"

definition parse_instant :: "bool \<Rightarrow> string \<Rightarrow> (time \<times> int) option" where
  "parse_instant strict s =
     Option.bind (get_year s) (\<lambda>(y, s).
     Option.bind (expect CHR ''-'' s) (\<lambda>s.
     Option.bind (getnum True s) (\<lambda>(mo, s).
     Option.bind (expect CHR ''-'' s) (\<lambda>s.
     Option.bind (getnum True s) (\<lambda>(d, s).
     Option.bind (expect CHR ''T'' s) (\<lambda>s.
     Option.bind (getnum strict s) (\<lambda>(h, s).
     Option.bind (expect CHR '':'' s) (\<lambda>s.
     Option.bind (getnum True s) (\<lambda>(mi, s).
     Option.bind (expect CHR '':'' s) (\<lambda>s.
     Option.bind (getnum True s) (\<lambda>(se, s).
     (case get_fraction (\<not> strict) s of (ns, s) \<Rightarrow>
     Option.bind (get_zone (if strict then 23 else 24) (if strict then 59 else 60) s) (\<lambda>zone.
       if 1 \<le> mo \<and> mo \<le> 12 \<and> 1 \<le> d \<and> d \<le> days_in mo y \<and> h < 24 \<and> mi < 60 \<and> se < 60
       then Some (((days_of_civil y mo d * 24 + h) * 3600 + mi * 60 + se - zone) * second + ns, zone)
       else None)))))))))))))"

definition parse_RFC3339Nano :: "string \<Rightarrow> time option" where
  "parse_RFC3339Nano s = map_option fst (parse_instant False s)"

section \<open>Printing\<close>

fun pad :: "nat \<Rightarrow> int \<Rightarrow> string" where
  "pad 0 i = []"
| "pad (Suc n) i = pad n (i div 10) @ [digit_char (nat (i mod 10))]"

definition show_fraction :: "int \<Rightarrow> string" where
  "show_fraction ns = (if ns = 0 then []
     else CHR ''.'' # rev (dropWhile (\<lambda>c. c = CHR ''0'') (rev (pad 9 ns))))"

definition show_zone :: "int \<Rightarrow> string" where
  "show_zone z = (if z = 0 then ''Z''
     else (let m = \<bar>z\<bar> div 60 in
       (if z < 0 then CHR ''-'' else CHR ''+'') # pad 2 (m div 60) @ '':'' @ pad 2 (m mod 60)))"

definition format_RFC3339Nano :: "int \<Rightarrow> time \<Rightarrow> string" where
  "format_RFC3339Nano zone t =
     (let s = t div second + zone; n = s div 86400; r = s mod 86400
      in (case civil_of_days n of (y, m, d) \<Rightarrow>
            pad 4 y @ ''-'' @ pad 2 m @ ''-'' @ pad 2 d @ ''T'' @ pad 2 (r div 3600) @ '':'' @
            pad 2 (r mod 3600 div 60) @ '':'' @ pad 2 (r mod 60) @ show_fraction (t mod second) @ show_zone zone))"

lemma parse_examples:
  "parse_RFC3339Nano ''1970-01-01T00:00:00Z'' = Some 0"
  "parse_RFC3339Nano ''0001-01-01T00:00:00Z'' = Some zero_time"
  "parse_instant True ''2024-02-29T12:30:45.5+02:00'' = Some (1709202645500000000, 7200)"
  "parse_RFC3339Nano ''2023-02-29T12:30:45Z'' = None"
  "parse_instant True ''2024-02-29T2:30:45Z'' = None"
  "format_RFC3339Nano 7200 1709202645500000000 = ''2024-02-29T12:30:45.5+02:00''"
  by code_simp+

end
