(* ===== verification/Monolith.thy ===== *)
theory Monolith
  imports Mpc2of3 SigningPolicy Timestamp
begin

text \<open>
  The backend contract of the co-signer (\<open>src/internal/monolith\<close>): session
  lifecycle, intents and claims (\<open>types.go\<close>, \<open>claim.go\<close>). An error value is the
  list of the sentinel errors it wraps, so \<open>errors.Is\<close> is membership; \<open>SStatus\<close> is
  \<open>httpStatusError\<close>. Locations of times are dropped except the zone of the session
  deadline, which is printed again by the listing.
\<close>

section \<open>Errors\<close>

datatype sentinel =
    SAlreadyClaimed | SNotFound | SOutcomeUnknown | SEnvelopeInvalid | SSignRejected
  | SStatus int | SCanceled | SDeadline | SInvalidLifecycle | SConflict string
  | SPolicy policy_err | SOther

type_synonym merr = "sentinel list"

definition errors_Is :: "merr \<Rightarrow> sentinel \<Rightarrow> bool" where
  "errors_Is e s = (s \<in> set e)"

fun statusCode :: "merr \<Rightarrow> int" where
  "statusCode [] = 0"
| "statusCode (SStatus c # e) = c"
| "statusCode (_ # e) = statusCode e"

definition isRetryable :: "merr \<Rightarrow> bool" where
  "isRetryable e = (\<not> errors_Is e SCanceled)"

definition isAmbiguous :: "merr \<Rightarrow> bool" where
  "isAmbiguous e = (if statusCode e \<noteq> 0 then False else \<not> errors_Is e SCanceled)"

section \<open>Session lifecycle\<close>

record sessionLifecycle =
  sl_SessionID :: string
  sl_Status :: string
  sl_StartedAt :: "time option"
  sl_Deadline :: time
  sl_DeadlineZone :: int
  sl_ExecutionExpiresAt :: "time option"

definition session_statuses :: "string list" where
  "session_statuses = [''PENDING'', ''RUNNING'', ''COMPLETED'', ''FAILED'', ''TIMED_OUT'']"

text \<open>The instant \<open>time.Unix(0, 0)\<close> is 0.\<close>

definition lifecycle_Validate :: "sessionLifecycle \<Rightarrow> string \<Rightarrow> string \<Rightarrow> time \<Rightarrow> merr err" where
  "lifecycle_Validate s kind sessionID deadline =
     or_err (fail_if (sl_SessionID s = '''' \<or> (sessionID \<noteq> '''' \<and> sl_SessionID s \<noteq> sessionID) \<or>
        \<not> sl_Deadline s > 0 \<or> (\<not> IsZero deadline \<and> sl_Deadline s \<noteq> deadline)) [SInvalidLifecycle])
     (or_err (fail_if (sl_Status s \<notin> set session_statuses) [SInvalidLifecycle])
     (or_err (fail_if (sl_Status s = ''PENDING'' \<and> sl_StartedAt s \<noteq> None \<or>
        sl_Status s = ''RUNNING'' \<and> sl_StartedAt s = None) [SInvalidLifecycle])
     (or_err (case sl_StartedAt s of
          None \<Rightarrow> None
        | Some st \<Rightarrow> fail_if (\<not> st > 0 \<or> \<not> st < sl_Deadline s) [SInvalidLifecycle])
     (or_err (fail_if (sl_StartedAt s = None \<and> sl_ExecutionExpiresAt s \<noteq> None \<or>
        kind = ''DKG'' \<and> sl_ExecutionExpiresAt s \<noteq> None) [SInvalidLifecycle])
     (or_err (fail_if (kind = ''SIGN'' \<and> sl_StartedAt s \<noteq> None \<and> sl_ExecutionExpiresAt s = None) [SInvalidLifecycle])
     (case sl_ExecutionExpiresAt s of
        None \<Rightarrow> None
      | Some ex \<Rightarrow>
          (case sl_StartedAt s of
             None \<Rightarrow> Some [SInvalidLifecycle]
           | Some st \<Rightarrow>
               (let want = st + 300 * second;
                    want = (if sl_Deadline s < want then sl_Deadline s else want)
                in fail_if (ex \<noteq> want) [SInvalidLifecycle]))))))))"

text \<open>
  A JSON object read into a map from names to raw members: later members win,
  \<open>null\<close> gives the empty map.
\<close>

fun raw_fields :: "json \<Rightarrow> (string \<times> json) list option" where
  "raw_fields (JObj ms) = Some ms"
| "raw_fields JNull = Some []"
| "raw_fields _ = None"

definition fields_count :: "(string \<times> json) list \<Rightarrow> nat" where
  "fields_count ms = length (remdups (map fst ms))"

definition field_raw :: "(string \<times> json) list \<Rightarrow> string \<Rightarrow> json option" where
  "field_raw ms n = map_of (rev ms) n"

definition lifecycle_names :: "string list" where
  "lifecycle_names = [''sessionId'', ''status'', ''startedAt'', ''deadline'', ''executionExpiresAt'']"

text \<open>\<open>Time.UnmarshalJSON\<close> and the pointer form, where \<open>null\<close> is nil.\<close>

fun decode_time :: "json \<Rightarrow> (time \<times> int) option" where
  "decode_time (JStr s) = parse_instant True s"
| "decode_time _ = None"

definition decode_time_ptr :: "json \<Rightarrow> time option option" where
  "decode_time_ptr v = (if v = JNull then Some None else map_option (\<lambda>p. Some (fst p)) (decode_time v))"

fun decode_str :: "json \<Rightarrow> string option" where
  "decode_str (JStr s) = Some s"
| "decode_str _ = None"

definition lifecycle_UnmarshalJSON :: "json \<Rightarrow> (merr, sessionLifecycle) result" where
  "lifecycle_UnmarshalJSON raw =
     (case raw_fields raw of
        None \<Rightarrow> Inl [SInvalidLifecycle]
      | Some ms \<Rightarrow>
          if fields_count ms \<noteq> 5 \<or>
             list_ex (\<lambda>n. case field_raw ms n of
                None \<Rightarrow> True
              | Some v \<Rightarrow> n \<noteq> ''startedAt'' \<and> n \<noteq> ''executionExpiresAt'' \<and> v = JNull) lifecycle_names
          then Inl [SInvalidLifecycle]
          else (case (decode_str (the (field_raw ms ''sessionId'')), decode_str (the (field_raw ms ''status'')),
                  decode_time_ptr (the (field_raw ms ''startedAt'')), decode_time (the (field_raw ms ''deadline'')),
                  decode_time_ptr (the (field_raw ms ''executionExpiresAt''))) of
                  (Some sid, Some st, Some started, Some (dl, zone), Some ex) \<Rightarrow>
                    (let s = \<lparr>sl_SessionID = sid, sl_Status = st, sl_StartedAt = started, sl_Deadline = dl,
                              sl_DeadlineZone = zone, sl_ExecutionExpiresAt = ex\<rparr>
                     in check_res (lifecycle_Validate s '''' '''' zero_time) (Inr s))
                | _ \<Rightarrow> Inl [SInvalidLifecycle]))"

section \<open>Intents and claims\<close>

record derivationContext =
  dc_ProfileID :: string
  dc_ProfileTemplateID :: string
  dc_Chain :: string
  dc_Algorithm :: string
  dc_Curve :: string
  dc_Scheme :: string
  dc_AccountPath :: string
  dc_ChildPath :: string
  dc_FullPath :: string
  dc_AddressEncoding :: string
  dc_ExpectedAddress :: string
  dc_ExpectedPublicKey :: string
  dc_PublicKeyFormat :: string
  dc_DescriptorVersion :: u32
  dc_ProfileVersion :: u32
  dc_KeyVersion :: u32

record intentPayload =
  ip_Type :: string
  ip_OrgID :: string
  ip_WalletID :: string
  ip_KeyID :: string
  ip_ProfileID :: string
  ip_ProfileVersion :: u32
  ip_ProfileTemplateID :: string
  ip_Parties :: "string list"
  ip_Threshold :: u32
  ip_Algorithm :: string
  ip_Curve :: string
  ip_Chain :: string
  ip_Digest :: bytes
  ip_DigestType :: string
  ip_HashAlgorithm :: string
  ip_SigningPayloadType :: string
  ip_ChainCode :: string
  ip_ChainCodeHash :: string
  ip_DerivationScheme :: string
  ip_DescriptorBytes :: bytes
  ip_DescriptorFingerprint :: string
  ip_DerivationContextHash :: string
  ip_PartyID :: string
  ip_DerivationContext :: "derivationContext option"
  ip_PolicyContext :: "policy_context option"

record intent =
  in_Version :: int
  in_Approval :: "approvedExecution option"
  in_Prepared :: "preparedTransfer option"
  in_Session :: sessionLifecycle
  in_CreatedAt :: time
  in_DeadlineRaw :: string
  in_DiscoveryStatus :: string
  in_IntentID :: string
  in_SessionID :: string
  in_Type :: string
  in_ExpiresAt :: time
  in_Payload :: intentPayload

record claimResult =
  cl_Version :: int
  cl_Approval :: "approvedExecution option"
  cl_Prepared :: "preparedTransfer option"
  cl_Session :: sessionLifecycle
  cl_HTTPStatus :: int
  cl_IntentID :: string
  cl_SessionID :: string
  cl_Type :: string
  cl_Payload :: intentPayload
  cl_Status :: string
  cl_Deadline :: time
  cl_DeadlineRaw :: string
  cl_OrgID :: string
  cl_KeyID :: string
  cl_DescriptorBytes :: bytes
  cl_DescriptorFingerprint :: string
  cl_ChainCode :: bytes

section \<open>Claim responses\<close>

text \<open>\<open>standardBase64(value, 32)\<close> of the approval wire contract.\<close>

definition standardBase64 :: "string \<Rightarrow> int \<Rightarrow> bytes option" where
  "standardBase64 s n = (case std_decode s of
     None \<Rightarrow> None
   | Some b \<Rightarrow> if std_encode b \<noteq> s \<or> (n \<ge> 0 \<and> int (length b) \<noteq> n) then None else Some b)"

definition ValidExecutionDigest :: "string \<Rightarrow> bool" where
  "ValidExecutionDigest value = (standardBase64 value 32 \<noteq> None)"

definition sign_claim_names :: "string list" where
  "sign_claim_names = [''version'', ''approval'', ''prepared'', ''httpStatus'', ''intentId'', ''sessionId'',
     ''type'', ''payload'', ''status'', ''deadline'', ''session'']"

text \<open>A string member read into a struct field without closing the object: names match ignoring case.\<close>

definition loose_string :: "string \<Rightarrow> (string \<times> json) list \<Rightarrow> string option" where
  "loose_string n ms = string_field '''' (map snd (filter (\<lambda>m. match_field [n] (fst m) = Some n) ms))"

definition retainExactResponseFields :: "claimResult \<Rightarrow> json \<Rightarrow> (merr, claimResult) result" where
  "retainExactResponseFields r raw =
     (case raw_fields raw of
        None \<Rightarrow> Inl [SOther]
      | Some ms \<Rightarrow>
          (case loose_string ''deadline'' ms of
             None \<Rightarrow> Inl [SOther]
           | Some exact \<Rightarrow>
               check_res (fail_if (cl_Type r \<noteq> ''SIGN'' \<and>
                  list_ex (\<lambda>n. field_raw ms n \<noteq> None) [''version'', ''approval'', ''prepared'']) [SEnvelopeInvalid])
               (check_res (fail_if (cl_Type r = ''SIGN'' \<and>
                  (fields_count ms \<noteq> 11 \<or> cl_Version r \<noteq> 2 \<or>
                   list_ex (\<lambda>n. field_raw ms n = None) sign_claim_names \<or>
                   cl_Approval r = None \<or> cl_Prepared r = None \<or>
                   (case raw_fields (the (field_raw ms ''payload'')) of
                      None \<Rightarrow> True
                    | Some ps \<Rightarrow>
                        (case field_raw ps ''digest'' of
                           None \<Rightarrow> True
                         | Some v \<Rightarrow> (case string_field '''' [v] of
                             None \<Rightarrow> True | Some encoded \<Rightarrow> \<not> ValidExecutionDigest encoded))))) [SEnvelopeInvalid])
               (Inr (r\<lparr>cl_DeadlineRaw := exact\<rparr>)))))"

definition claim_Intent :: "(bytes \<Rightarrow> bytes) \<Rightarrow> (bytes \<Rightarrow> bytes option) \<Rightarrow> claimResult \<Rightarrow> intent" where
  "claim_Intent sha jcs r =
     (let intentType = (if cl_DescriptorBytes r \<noteq> [] \<and> cl_Type r = '''' then ''DKG'' else cl_Type r);
          p = cl_Payload r;
          payload = (if cl_DescriptorBytes r = [] then p
            else (let p1 = p\<lparr>ip_Type := intentType, ip_OrgID := cl_OrgID r, ip_KeyID := cl_KeyID r,
                        ip_DescriptorBytes := cl_DescriptorBytes r,
                        ip_DescriptorFingerprint := cl_DescriptorFingerprint r,
                        ip_ChainCode := hex_encode (cl_ChainCode r)\<rparr>
                  in (case ParseCanonicalDescriptor sha jcs (cl_DescriptorBytes r) of
                        Inl _ \<Rightarrow> p1
                      | Inr (d, _) \<Rightarrow>
                          p1\<lparr>ip_Threshold := word_of_int (kd_Threshold d), ip_Algorithm := kd_Algorithm d,
                             ip_Curve := kd_Curve d, ip_ChainCodeHash := kd_ChainCodeHash d,
                             ip_DerivationScheme := kd_DerivationScheme d,
                             ip_Parties := map pv_PartyID (kd_Parties d)\<rparr>)))
      in \<lparr>in_Version = cl_Version r, in_Approval = cl_Approval r, in_Prepared = cl_Prepared r,
          in_Session = cl_Session r, in_CreatedAt = zero_time, in_DeadlineRaw = '''', in_DiscoveryStatus = '''',
          in_IntentID = cl_IntentID r, in_SessionID = cl_SessionID r, in_Type = intentType,
          in_ExpiresAt = cl_Deadline r, in_Payload = payload\<rparr>)"

definition intentTypePath :: "string \<Rightarrow> string option" where
  "intentTypePath intentType =
     (let t = ToUpper (TrimSpace intentType)
      in if t = ''DKG'' then Some ''dkg'' else if t = ''SIGN'' then Some ''sign'' else None)"

definition validateClaimEnvelope ::
  "(bytes \<Rightarrow> bytes) \<Rightarrow> (bytes \<Rightarrow> bytes option) \<Rightarrow> claimResult \<Rightarrow> string \<Rightarrow> merr err" where
  "validateClaimEnvelope sha jcs claim expectedType =
     or_err (fail_if (expectedType = ''SIGN'' \<and> (cl_Type claim \<noteq> ''SIGN'' \<or> cl_Version claim \<noteq> 2)) [SEnvelopeInvalid])
     (or_err (fail_if (cl_SessionID claim = '''') [SOther])
     (or_err (fail_if (IsZero (cl_Deadline claim) \<or> cl_DeadlineRaw claim = '''') [SOther])
     (or_err (lifecycle_Validate (cl_Session claim) expectedType (cl_SessionID claim) (cl_Deadline claim))
     (or_err (fail_if (cl_Status claim \<noteq> ''CLAIMED'') [SOther])
     (let actualType = in_Type (claim_Intent sha jcs claim)
      in or_err (fail_if (\<not> EqualFold actualType expectedType) [SOther])
         (if actualType = ''SIGN'' then None
          else if actualType = ''DKG''
          then fail_if (ip_Type (cl_Payload claim) \<noteq> '''' \<and> ip_Type (cl_Payload claim) \<noteq> ''DKG'') [SOther]
          else fail_if (cl_DescriptorBytes claim = []) [SOther]))))))"

definition validateSignClaimPayload :: "claimResult \<Rightarrow> merr err" where
  "validateSignClaimPayload claim =
     (let p = cl_Payload claim in
      fail_if (cl_IntentID claim = '''' \<or> cl_SessionID claim = '''' \<or> IsZero (cl_Deadline claim) \<or>
        cl_DeadlineRaw claim = '''' \<or> cl_OrgID claim \<noteq> '''' \<or> cl_KeyID claim \<noteq> '''' \<or>
        cl_DescriptorBytes claim \<noteq> [] \<or> cl_DescriptorFingerprint claim \<noteq> '''' \<or> cl_ChainCode claim \<noteq> [] \<or>
        ip_Type p \<noteq> ''SIGN'' \<or> ip_OrgID p = '''' \<or> ip_KeyID p = '''' \<or> ip_WalletID p = '''' \<or>
        ip_ProfileID p = '''' \<or> ip_ProfileTemplateID p = '''' \<or> ip_ProfileVersion p = 0 \<or>
        length (ip_Parties p) < 2 \<or> ip_Threshold p < 2 \<or> ip_Algorithm p = '''' \<or> ip_Curve p = '''' \<or>
        ip_Chain p = '''' \<or> ip_Digest p = [] \<or> ip_DigestType p = '''' \<or> ip_HashAlgorithm p = '''' \<or>
        ip_SigningPayloadType p = '''' \<or> ip_DerivationContextHash p = '''' \<or> ip_PartyID p = '''' \<or>
        ip_DerivationContext p = None \<or> ip_ChainCode p \<noteq> '''' \<or> ip_ChainCodeHash p \<noteq> '''' \<or>
        ip_DerivationScheme p \<noteq> '''' \<or> ip_DescriptorBytes p \<noteq> [] \<or> ip_DescriptorFingerprint p \<noteq> '''') [SOther])"

definition validateSignDerivationContext :: "intentPayload \<Rightarrow> derivationContext \<Rightarrow> merr err" where
  "validateSignDerivationContext p d =
     or_err (fail_if (dc_ProfileID d = '''' \<or> dc_ProfileTemplateID d = '''' \<or> dc_Chain d = '''' \<or>
        dc_Algorithm d = '''' \<or> dc_Curve d = '''' \<or> dc_Scheme d = '''' \<or> dc_AccountPath d = '''' \<or>
        dc_ChildPath d = '''' \<or> dc_FullPath d = '''' \<or> dc_PublicKeyFormat d = '''' \<or>
        dc_DescriptorVersion d = 0 \<or> dc_ProfileVersion d = 0 \<or> dc_KeyVersion d = 0) [SOther])
     (fail_if (ip_ProfileID p \<noteq> dc_ProfileID d \<or> ip_ProfileTemplateID p \<noteq> dc_ProfileTemplateID d \<or>
        ip_ProfileVersion p \<noteq> dc_ProfileVersion d \<or> ip_Chain p \<noteq> dc_Chain d \<or>
        \<not> EqualFold (ip_Algorithm p) (dc_Algorithm d) \<or> \<not> EqualFold (ip_Curve p) (dc_Curve d)) [SOther])"

definition validateSignClaimResult :: "claimResult \<Rightarrow> merr err" where
  "validateSignClaimResult claim =
     or_err (validateSignClaimPayload claim)
     (case ip_DerivationContext (cl_Payload claim) of
        None \<Rightarrow> Some [SOther]
      | Some d \<Rightarrow>
          or_err (validateSignDerivationContext (cl_Payload claim) d)
          (map_option (\<lambda>e. [SPolicy e])
             (ValidateContext (ip_PolicyContext (cl_Payload claim)) (ip_Chain (cl_Payload claim))
                (ip_SigningPayloadType (cl_Payload claim)) (dc_ExpectedAddress d))))"

text \<open>
  \<open>ClaimIntent\<close> over the outcome of its one HTTP attempt: an error, or the decoded
  claim. The result carries the claim also with the error of a rejected SIGN claim.
\<close>

definition ClaimIntent ::
  "(bytes \<Rightarrow> bytes) \<Rightarrow> (bytes \<Rightarrow> bytes option) \<Rightarrow> (string \<Rightarrow> (merr, claimResult) result) \<Rightarrow>
   string \<Rightarrow> string \<Rightarrow> claimResult option \<times> merr err" where
  "ClaimIntent sha jcs do intentType intentID =
     (case intentTypePath intentType of
        None \<Rightarrow> (None, Some [SOther])
      | Some pathType \<Rightarrow>
          (case do pathType of
             Inl e \<Rightarrow>
               if statusCode e = 409 then (None, Some [SAlreadyClaimed])
               else if statusCode e = 404 then (None, Some [SNotFound])
               else if isAmbiguous e \<or> statusCode e \<ge> 500 \<or> errors_Is e SCanceled
               then (None, Some (SOutcomeUnknown # e))
               else (None, Some e)
           | Inr out \<Rightarrow>
               if cl_HTTPStatus out \<noteq> 200 then (None, Some [SOutcomeUnknown, SEnvelopeInvalid])
               else if EqualFold intentType ''SIGN'' \<and> cl_IntentID out \<noteq> intentID
               then (None, Some [SOutcomeUnknown, SEnvelopeInvalid])
               else (case validateClaimEnvelope sha jcs out intentType of
                       Some e \<Rightarrow> (None, Some (SOutcomeUnknown # SEnvelopeInvalid # e))
                     | None \<Rightarrow>
                         if in_Type (claim_Intent sha jcs out) = ''SIGN''
                         then (case validateSignClaimResult out of
                                 Some e \<Rightarrow> (Some out, Some (SSignRejected # e))
                               | None \<Rightarrow> (Some out, None))
                         else (Some out, None))))"

section \<open>What validation guarantees\<close>

definition lifecycle_ok :: "string \<Rightarrow> string \<Rightarrow> time \<Rightarrow> sessionLifecycle \<Rightarrow> bool" where
  "lifecycle_ok kind sessionID deadline s \<longleftrightarrow>
     sl_SessionID s \<noteq> '''' \<and> (sessionID = '''' \<or> sl_SessionID s = sessionID) \<and>
     0 < sl_Deadline s \<and> (IsZero deadline \<or> sl_Deadline s = deadline) \<and>
     sl_Status s \<in> set session_statuses \<and>
     (sl_Status s = ''PENDING'' \<longrightarrow> sl_StartedAt s = None) \<and>
     (sl_Status s = ''RUNNING'' \<longrightarrow> sl_StartedAt s \<noteq> None) \<and>
     (\<forall>st. sl_StartedAt s = Some st \<longrightarrow> 0 < st \<and> st < sl_Deadline s) \<and>
     (\<forall>ex. sl_ExecutionExpiresAt s = Some ex \<longrightarrow>
        (\<exists>st. sl_StartedAt s = Some st \<and> ex = min (st + 300 * second) (sl_Deadline s))) \<and>
     (kind = ''DKG'' \<longrightarrow> sl_ExecutionExpiresAt s = None) \<and>
     (kind = ''SIGN'' \<and> sl_StartedAt s \<noteq> None \<longrightarrow> sl_ExecutionExpiresAt s \<noteq> None)"

lemma lifecycle_Validate_iff:
  "lifecycle_Validate s kind sessionID deadline = None \<longleftrightarrow> lifecycle_ok kind sessionID deadline s"
proof (cases "sl_StartedAt s")
  case None
  then show ?thesis by (auto simp: lifecycle_Validate_def lifecycle_ok_def split: option.splits)
next
  case (Some st)
  then show ?thesis
    by (cases "sl_ExecutionExpiresAt s") (auto simp: lifecycle_Validate_def lifecycle_ok_def Let_def min_def)
qed

lemma lifecycle_Unmarshal_ok:
  "lifecycle_UnmarshalJSON v = Inr s \<Longrightarrow> lifecycle_ok '''' '''' zero_time s"
  by (auto simp: lifecycle_UnmarshalJSON_def Let_def lifecycle_Validate_iff split: option.splits if_splits)

lemma validateClaimEnvelope_None:
  assumes "validateClaimEnvelope sha jcs c kind = None"
  shows "cl_SessionID c \<noteq> ''''" "\<not> IsZero (cl_Deadline c)" "cl_DeadlineRaw c \<noteq> ''''" "cl_Status c = ''CLAIMED''"
    "lifecycle_ok kind (cl_SessionID c) (cl_Deadline c) (cl_Session c)"
    "EqualFold (in_Type (claim_Intent sha jcs c)) kind"
    "kind = ''SIGN'' \<Longrightarrow> cl_Type c = ''SIGN'' \<and> cl_Version c = 2"
  using assms by (auto simp: validateClaimEnvelope_def Let_def lifecycle_Validate_iff)

lemma claim_Intent_type:
  "in_Type (claim_Intent sha jcs c) =
     (if cl_DescriptorBytes c \<noteq> [] \<and> cl_Type c = '''' then ''DKG'' else cl_Type c)"
  by (simp add: claim_Intent_def Let_def)

lemma ClaimIntent_cases:
  assumes "ClaimIntent sha jcs do kind iid = (r, e)"
  obtains (path) "intentTypePath kind = None" "r = None" "e = Some [SOther]"
  | (http) p e' where "intentTypePath kind = Some p" "do p = Inl e'" "r = None"
      "e = Some (if statusCode e' = 409 then [SAlreadyClaimed] else if statusCode e' = 404 then [SNotFound]
         else if isAmbiguous e' \<or> statusCode e' \<ge> 500 \<or> errors_Is e' SCanceled then SOutcomeUnknown # e' else e')"
  | (envelope) e' where "r = None" "e = Some (SOutcomeUnknown # SEnvelopeInvalid # e')"
  | (claimed) p c where "intentTypePath kind = Some p" "do p = Inr c" "r = Some c" "cl_HTTPStatus c = 200"
      "EqualFold kind ''SIGN'' \<Longrightarrow> cl_IntentID c = iid" "validateClaimEnvelope sha jcs c kind = None"
      "e = (if in_Type (claim_Intent sha jcs c) = ''SIGN''
            then map_option ((#) SSignRejected) (validateSignClaimResult c) else None)"
proof (cases "intentTypePath kind")
  case None
  then show ?thesis using path assms by (simp add: ClaimIntent_def)
next
  case p: (Some p)
  show ?thesis
  proof (cases "do p")
    case (Inl e')
    then show ?thesis using http [OF p Inl] assms p by (simp add: ClaimIntent_def split: if_splits)
  next
    case (Inr c)
    show ?thesis
    proof (cases "cl_HTTPStatus c \<noteq> 200 \<or> (EqualFold kind ''SIGN'' \<and> cl_IntentID c \<noteq> iid)")
      case True
      then show ?thesis using envelope [of "[]"] assms p Inr by (auto simp: ClaimIntent_def split: if_splits)
    next
      case False
      then show ?thesis
        using claimed [OF p Inr] envelope assms p Inr
        by (cases "validateClaimEnvelope sha jcs c kind") (auto simp: ClaimIntent_def split: option.splits if_splits)
    qed
  qed
qed

lemma isAmbiguous_or_status: "isAmbiguous e \<or> errors_Is e SCanceled \<or> statusCode e \<noteq> 0"
  by (simp add: isAmbiguous_def)

lemma ClaimIntent_definite:
  assumes "ClaimIntent sha jcs do kind iid = (r, Some e)" "\<not> errors_Is e SOutcomeUnknown" "\<not> errors_Is e SSignRejected"
  shows "r = None \<and> (intentTypePath kind = None \<or> (\<exists>p e'. intentTypePath kind = Some p \<and> do p = Inl e' \<and>
     statusCode e' \<noteq> 0 \<and> statusCode e' < 500))"
  using assms(1)
proof (cases rule: ClaimIntent_cases)
  case (http p e')
  then show ?thesis using assms(2) isAmbiguous_or_status [of e']
    by (auto simp: errors_Is_def split: if_splits)
next
  case (claimed p c)
  then show ?thesis using assms(3)
    by (cases "validateSignClaimResult c") (auto simp: errors_Is_def split: if_splits)
qed (use assms in \<open>auto simp: errors_Is_def\<close>)

lemma ValidateContext_chain:
  "ValidateContext pc chain pt addr = None \<Longrightarrow> \<exists>p. pc = Some p \<and> pc_Chain p = chain \<and> pc_FromAddress p = addr"
  by (auto simp: ValidateContext_def split: option.splits if_splits)

lemma validateSignClaimResult_None:
  assumes "validateSignClaimResult c = None"
  shows "\<exists>d pc. ip_DerivationContext (cl_Payload c) = Some d \<and> ip_PolicyContext (cl_Payload c) = Some pc \<and>
    pc_Chain pc = ip_Chain (cl_Payload c) \<and> pc_FromAddress pc = dc_ExpectedAddress d \<and>
    dc_Chain d = ip_Chain (cl_Payload c) \<and> dc_ProfileID d = ip_ProfileID (cl_Payload c) \<and>
    dc_ProfileVersion d = ip_ProfileVersion (cl_Payload c) \<and>
    ip_Type (cl_Payload c) = ''SIGN'' \<and> ip_Digest (cl_Payload c) \<noteq> [] \<and>
    2 \<le> length (ip_Parties (cl_Payload c)) \<and> 2 \<le> ip_Threshold (cl_Payload c)"
proof (cases "ip_DerivationContext (cl_Payload c)")
  case None
  then show ?thesis using assms by (simp add: validateSignClaimResult_def)
next
  case (Some d)
  then have "ValidateContext (ip_PolicyContext (cl_Payload c)) (ip_Chain (cl_Payload c))
      (ip_SigningPayloadType (cl_Payload c)) (dc_ExpectedAddress d) = None"
    and parts: "validateSignClaimPayload c = None" "validateSignDerivationContext (cl_Payload c) d = None"
    using assms by (auto simp: validateSignClaimResult_def)
  from ValidateContext_chain [OF this(1)] show ?thesis
    using Some parts by (auto simp: validateSignDerivationContext_def validateSignClaimPayload_def Let_def)
qed

section \<open>Properties\<close>

text \<open>
  C18. A session lifecycle that passes validation and has started runs inside its
  deadline: it is not PENDING, its start lies after the epoch and before the
  deadline, and the execution limit, mandatory for SIGN and forbidden for DKG, is
  the earlier of the deadline and 300 seconds after the start, so it lies after the
  start; a lifecycle that has not started carries no execution limit.
\<close>

theorem session_window:
  assumes "lifecycle_Validate s kind sessionID deadline = None"
  shows "case sl_StartedAt s of
       None \<Rightarrow> sl_ExecutionExpiresAt s = None \<and> sl_Status s \<noteq> ''RUNNING''
     | Some st \<Rightarrow> sl_Status s \<noteq> ''PENDING'' \<and> 0 < st \<and> st < sl_Deadline s \<and>
         (kind = ''DKG'' \<longrightarrow> sl_ExecutionExpiresAt s = None) \<and>
         (kind = ''SIGN'' \<longrightarrow> sl_ExecutionExpiresAt s \<noteq> None) \<and>
         (\<forall>ex. sl_ExecutionExpiresAt s = Some ex \<longrightarrow>
            st < ex \<and> ex \<le> sl_Deadline s \<and> ex \<le> st + 300 * second \<and>
            (ex = sl_Deadline s \<or> ex = st + 300 * second))"
proof -
  have ok: "lifecycle_ok kind sessionID deadline s" using assms by (simp add: lifecycle_Validate_iff)
  show ?thesis
  proof (cases "sl_StartedAt s")
    case None
    then show ?thesis using ok by (cases "sl_ExecutionExpiresAt s") (auto simp: lifecycle_ok_def)
  next
    case (Some st)
    have st: "sl_Status s \<noteq> ''PENDING''" "0 < st" "st < sl_Deadline s" using ok Some unfolding lifecycle_ok_def by auto
    have "st < ex \<and> ex \<le> sl_Deadline s \<and> ex \<le> st + 300 * second \<and> (ex = sl_Deadline s \<or> ex = st + 300 * second)"
      if "sl_ExecutionExpiresAt s = Some ex" for ex
    proof -
      have "ex = min (st + 300 * second) (sl_Deadline s)" using ok Some that unfolding lifecycle_ok_def by auto
      then show ?thesis using st(3) by (auto simp: min_def second_def)
    qed
    then show ?thesis using ok Some st unfolding lifecycle_ok_def by simp
  qed
qed

definition ex_session :: sessionLifecycle where
  "ex_session = \<lparr>sl_SessionID = ''s1'', sl_Status = ''RUNNING'', sl_StartedAt = Some (1000 * second),
     sl_Deadline = 1200 * second, sl_DeadlineZone = 0, sl_ExecutionExpiresAt = Some (1200 * second)\<rparr>"

theorem session_window_witness:
  "\<exists>ex. sl_ExecutionExpiresAt ex_session = Some ex \<and> 1000 * second < ex \<and> ex \<le> sl_Deadline ex_session"
proof -
  have "lifecycle_Validate ex_session ''SIGN'' ''s1'' (1200 * second) = None" by code_simp
  from session_window [OF this] show ?thesis by (auto simp: ex_session_def)
qed



text \<open>
  C20. A SIGN claim handed out without error is the claim of the requested intent:
  version 2, claimed, with a session valid for SIGN under the claim's own session
  and deadline, and its digest request is bound: policy context, derivation context
  and payload name the same chain, and the policy pays from the derived address.
\<close>

theorem claim_sign_bound:
  assumes "ClaimIntent sha jcs do ''SIGN'' intentID = (Some c, None)"
  shows "cl_IntentID c = intentID \<and> cl_Version c = 2 \<and> cl_Status c = ''CLAIMED'' \<and>
    lifecycle_ok ''SIGN'' (cl_SessionID c) (cl_Deadline c) (cl_Session c) \<and>
    sl_SessionID (cl_Session c) = cl_SessionID c \<and> sl_Deadline (cl_Session c) = cl_Deadline c \<and>
    (\<exists>d pc. ip_DerivationContext (cl_Payload c) = Some d \<and> ip_PolicyContext (cl_Payload c) = Some pc \<and>
       pc_Chain pc = ip_Chain (cl_Payload c) \<and> dc_Chain d = ip_Chain (cl_Payload c) \<and>
       pc_FromAddress pc = dc_ExpectedAddress d \<and> ip_Digest (cl_Payload c) \<noteq> [])"
  using assms
proof (cases rule: ClaimIntent_cases)
  case (claimed p c')
  have fold: "EqualFold ''SIGN'' ''SIGN''" by (simp add: EqualFold_def)
  note env = validateClaimEnvelope_None [OF claimed(6)]
  have type: "in_Type (claim_Intent sha jcs c') = ''SIGN''" using env(7) by (simp add: claim_Intent_type)
  then have "validateSignClaimResult c' = None" using claimed(7) by (cases "validateSignClaimResult c'") auto
  from validateSignClaimResult_None [OF this] show ?thesis
    using claimed(3,5) fold env by (auto simp: lifecycle_ok_def)
qed auto

definition ex_derivation :: derivationContext where
  "ex_derivation = \<lparr>dc_ProfileID = ''p'', dc_ProfileTemplateID = ''t'', dc_Chain = ''ethereum:sepolia'', dc_Algorithm = ''ecdsa'',
     dc_Curve = ''secp256k1'', dc_Scheme = ''s'', dc_AccountPath = ''a'', dc_ChildPath = ''c'', dc_FullPath = ''f'',
     dc_AddressEncoding = ''e'', dc_ExpectedAddress = pc_FromAddress ex_policy, dc_ExpectedPublicKey = ''k'',
     dc_PublicKeyFormat = ''x'', dc_DescriptorVersion = 1, dc_ProfileVersion = 1, dc_KeyVersion = 1\<rparr>"

definition ex_payload :: intentPayload where
  "ex_payload = \<lparr>ip_Type = ''SIGN'', ip_OrgID = ''o'', ip_WalletID = ''w'', ip_KeyID = ''k'', ip_ProfileID = ''p'',
     ip_ProfileVersion = 1, ip_ProfileTemplateID = ''t'', ip_Parties = [''mpc-signer'', ''co-signer-primary''],
     ip_Threshold = 2, ip_Algorithm = ''ecdsa'', ip_Curve = ''secp256k1'', ip_Chain = ''ethereum:sepolia'',
     ip_Digest = replicate 32 (CHR ''d''), ip_DigestType = ''transaction'', ip_HashAlgorithm = ''keccak256'',
     ip_SigningPayloadType = ''ethereum-transaction'', ip_ChainCode = '''', ip_ChainCodeHash = '''',
     ip_DerivationScheme = '''', ip_DescriptorBytes = [], ip_DescriptorFingerprint = '''',
     ip_DerivationContextHash = ''h'', ip_PartyID = ''co-signer-primary'', ip_DerivationContext = Some ex_derivation,
     ip_PolicyContext = Some ex_policy\<rparr>"

definition ex_claim :: claimResult where
  "ex_claim = \<lparr>cl_Version = 2, cl_Approval = None, cl_Prepared = None, cl_Session = ex_session, cl_HTTPStatus = 200,
     cl_IntentID = ''i1'', cl_SessionID = ''s1'', cl_Type = ''SIGN'', cl_Payload = ex_payload, cl_Status = ''CLAIMED'',
     cl_Deadline = 1200 * second, cl_DeadlineRaw = ''1970-01-01T00:20:00Z'', cl_OrgID = '''', cl_KeyID = '''',
     cl_DescriptorBytes = [], cl_DescriptorFingerprint = '''', cl_ChainCode = []\<rparr>"

theorem claim_sign_bound_witness:
  "lifecycle_ok ''SIGN'' ''s1'' (cl_Deadline ex_claim) (cl_Session ex_claim) \<and> cl_IntentID ex_claim = ''i1''"
proof -
  have eval: "intentTypePath ''SIGN'' = Some ''sign''" "validateSignClaimResult ex_claim = None"
    "lifecycle_Validate (cl_Session ex_claim) ''SIGN'' ''s1'' (cl_Deadline ex_claim) = None"
    "\<not> IsZero (cl_Deadline ex_claim)"
    by code_simp+
  have "cl_Type ex_claim = ''SIGN''" "cl_Version ex_claim = 2" "cl_SessionID ex_claim = ''s1''"
    "cl_Status ex_claim = ''CLAIMED''" "cl_HTTPStatus ex_claim = 200" "cl_IntentID ex_claim = ''i1''"
    "cl_DeadlineRaw ex_claim \<noteq> ''''" "cl_DescriptorBytes ex_claim = []"
    by (simp_all add: ex_claim_def)
  with eval have "ClaimIntent id Some (\<lambda>_. Inr ex_claim) ''SIGN'' ''i1'' = (Some ex_claim, None)"
    by (simp add: ClaimIntent_def validateClaimEnvelope_def Let_def claim_Intent_type EqualFold_def guard_eval)
  from claim_sign_bound [OF this] show ?thesis by (simp add: ex_claim_def)
qed

end
