(* ===== verification/Discovery.thy ===== *)
theory Discovery
  imports Monolith
begin

text \<open>
  The HTTP client of the backend (\<open>src/internal/monolith\<close>): bounded attempts and
  request signing (\<open>client.go\<close>), the actionable listing (\<open>discovery.go\<close>) and the
  delivery of results (\<open>results.go\<close>). The network is a parameter: what the request of
  each attempt gives back.
\<close>

section \<open>Attempts\<close>

definition maxAttempts :: nat where
  "maxAttempts = 3"

definition backoff :: "nat \<Rightarrow> duration" where
  "backoff attempt = (if attempt < 1 then 0 else 2 ^ (attempt - 1) * 10 * millisecond)"

text \<open>One exchange: no request, no response, or a status with what was read of the body.\<close>

datatype exchange = ReqErr merr | DoErr merr | Reply int bytes "merr err"

definition claim_limit :: nat where
  "claim_limit = 128 * 1024"

definition read_reply :: "bool \<Rightarrow> bytes \<Rightarrow> merr err \<Rightarrow> bytes \<times> merr err" where
  "read_reply claimResponse body readErr =
     (let respBody = (if claimResponse then take (claim_limit + 1) body else body)
      in (respBody,
          if claimResponse \<and> (length respBody > claim_limit \<or> \<not> utf8_valid respBody) then Some [SEnvelopeInvalid]
          else readErr))"

definition claim_err :: "bool \<Rightarrow> merr \<Rightarrow> merr" where
  "claim_err claimResponse e = (if claimResponse then SOutcomeUnknown # SEnvelopeInvalid # e else e)"

text \<open>
  The loop, from attempt \<open>k\<close> with \<open>n\<close> attempts left: the pauses it makes and its
  result, where \<^term>\<open>Inr None\<close> is success with nothing to decode.
\<close>

fun attempts_from ::
  "bool \<Rightarrow> int \<Rightarrow> (bytes \<Rightarrow> (merr, 'a) result) option \<Rightarrow> (nat \<Rightarrow> exchange) \<Rightarrow> nat \<Rightarrow> nat \<Rightarrow> merr err \<Rightarrow>
   duration list \<times> (merr, 'a option) result" where
  "attempts_from claimResponse expected out send k 0 lastErr =
     ([], Inl (case lastErr of Some e \<Rightarrow> e | None \<Rightarrow> [SOther]))"
| "attempts_from claimResponse expected out send k (Suc n) lastErr =
     (let again = (\<lambda>e. if n > 0 then (case attempts_from claimResponse expected out send (Suc k) n (Some e) of
                                (sl, r) \<Rightarrow> (backoff k # sl, r)) else ([], Inl e))
      in (case send k of
            ReqErr e \<Rightarrow> ([], Inl e)
          | DoErr e \<Rightarrow> if isRetryable e then again e else ([], Inl e)
          | Reply status body rerr \<Rightarrow>
              (case read_reply claimResponse body rerr of
                 (respBody, Some e) \<Rightarrow> again (claim_err claimResponse e)
               | (respBody, None) \<Rightarrow>
                   if status \<ge> 500 then again [SStatus status]
                   else if status < 200 \<or> status \<ge> 300 then ([], Inl [SStatus status])
                   else if expected \<noteq> 0 \<and> status \<noteq> expected then ([], Inl [SStatus status])
                   else (case out of
                           None \<Rightarrow> ([], Inr None)
                         | Some decode \<Rightarrow>
                             if respBody = [] then ([], Inr None)
                             else (case decode respBody of
                                     Inl e \<Rightarrow> ([], Inl (claim_err claimResponse e))
                                   | Inr x \<Rightarrow> ([], Inr (Some x)))))))"

definition doJSONAttempts ::
  "bool \<Rightarrow> int \<Rightarrow> (bytes \<Rightarrow> (merr, 'a) result) option \<Rightarrow> (nat \<Rightarrow> exchange) \<Rightarrow> nat \<Rightarrow>
   duration list \<times> (merr, 'a option) result" where
  "doJSONAttempts claimResponse expected out send attempts =
     attempts_from claimResponse expected out send 1 attempts None"

definition doJSON ::
  "int \<Rightarrow> (bytes \<Rightarrow> (merr, 'a) result) option \<Rightarrow> (nat \<Rightarrow> exchange) \<Rightarrow> duration list \<times> (merr, 'a option) result" where
  "doJSON expected out send = doJSONAttempts False expected out send maxAttempts"

text \<open>The text under the request signature.\<close>

definition canonical_request ::
  "(bytes \<Rightarrow> bytes) \<Rightarrow> string \<Rightarrow> string \<Rightarrow> bytes \<Rightarrow> int \<Rightarrow> bytes \<Rightarrow> string \<Rightarrow> string" where
  "canonical_request sha method uri body timestamp nonce keyID =
     Join [ToUpper method, uri, (if body = [] then '''' else hex_encode (sha body)), show_int timestamp,
       hex_encode nonce, keyID] [byte_of_nat 10]"

section \<open>Actionable listing\<close>

record actionableIntent =
  ai_Session :: sessionLifecycle
  ai_CreatedAt :: time
  ai_CreatedAtRaw :: string
  ai_Deadline :: time
  ai_DeadlineRaw :: string
  ai_DescriptorBytes :: bytes
  ai_DescriptorFingerprint :: string
  ai_IntentID :: string
  ai_KeyID :: string
  ai_OrgID :: string
  ai_SessionID :: string
  ai_Status :: string
  ai_Type :: string

record actionableListing =
  al_HTTPStatus :: int
  al_OwnClaimedDKG :: "actionableIntent list"
  al_OwnClaimedSign :: "actionableIntent list"
  al_Pending :: "actionableIntent list"

record actionableIntentWire =
  aw_Session :: sessionLifecycle
  aw_CreatedAt :: string
  aw_Deadline :: string
  aw_DescriptorBytes :: string
  aw_DescriptorFingerprint :: string
  aw_IntentID :: string
  aw_KeyID :: string
  aw_OrgID :: string
  aw_SessionID :: string
  aw_Status :: string
  aw_Type :: string
  aw_fields :: "string list"

record actionableListingWire =
  lw_HTTPStatus :: int
  lw_OwnClaimedDKG :: "actionableIntentWire list option"
  lw_OwnClaimedSign :: "actionableIntentWire list option"
  lw_Pending :: "actionableIntentWire list option"

definition wire_names :: "string list" where
  "wire_names = [''session'', ''createdAt'', ''deadline'', ''descriptorBytesBase64'', ''descriptorFingerprint'',
     ''intentId'', ''keyId'', ''orgId'', ''sessionId'', ''status'', ''type'']"

definition zero_session :: sessionLifecycle where
  "zero_session = \<lparr>sl_SessionID = '''', sl_Status = '''', sl_StartedAt = None, sl_Deadline = zero_time,
     sl_DeadlineZone = 0, sl_ExecutionExpiresAt = None\<rparr>"

definition lift_decode :: "(decode_err, 'a) result \<Rightarrow> (merr, 'a) result" where
  "lift_decode r = (case r of Inl _ \<Rightarrow> Inl [SOther] | Inr x \<Rightarrow> Inr x)"

definition wire_UnmarshalJSON :: "json \<Rightarrow> (merr, actionableIntentWire) result" where
  "wire_UnmarshalJSON v =
     (case raw_fields v of
        None \<Rightarrow> Inl [SOther]
      | Some ms \<Rightarrow>
          check_res (fail_if (list_ex (\<lambda>n. n \<notin> set wire_names) (map fst ms)) [SOther])
          (bind_res (lift_decode (DecodeObject wire_names v)) (\<lambda>as.
           bind_res (case assigned as ''session'' of [] \<Rightarrow> Inr zero_session | vs \<Rightarrow> lifecycle_UnmarshalJSON (last vs)) (\<lambda>s.
           bind_res (lift_decode (get_string as ''createdAt'')) (\<lambda>ca.
           bind_res (lift_decode (get_string as ''deadline'')) (\<lambda>dl.
           bind_res (lift_decode (get_string as ''descriptorBytesBase64'')) (\<lambda>db.
           bind_res (lift_decode (get_string as ''descriptorFingerprint'')) (\<lambda>df.
           bind_res (lift_decode (get_string as ''intentId'')) (\<lambda>iid.
           bind_res (lift_decode (get_string as ''keyId'')) (\<lambda>kid.
           bind_res (lift_decode (get_string as ''orgId'')) (\<lambda>oid.
           bind_res (lift_decode (get_string as ''sessionId'')) (\<lambda>sid.
           bind_res (lift_decode (get_string as ''status'')) (\<lambda>st.
           bind_res (lift_decode (get_string as ''type'')) (\<lambda>ty.
           Inr \<lparr>aw_Session = s, aw_CreatedAt = ca, aw_Deadline = dl, aw_DescriptorBytes = db,
                aw_DescriptorFingerprint = df, aw_IntentID = iid, aw_KeyID = kid, aw_OrgID = oid,
                aw_SessionID = sid, aw_Status = st, aw_Type = ty, aw_fields = remdups (map fst ms)\<rparr>))))))))))))))"

definition hasExactFields :: "actionableIntentWire \<Rightarrow> string list \<Rightarrow> bool" where
  "hasExactFields w expected =
     (let expected = expected @ [''session'']
      in length (aw_fields w) = length expected \<and> list_all (\<lambda>n. n \<in> set (aw_fields w)) expected)"

definition full_fields :: "string list" where
  "full_fields = [''createdAt'', ''deadline'', ''descriptorBytesBase64'', ''descriptorFingerprint'', ''intentId'',
     ''keyId'', ''orgId'', ''sessionId'', ''status'', ''type'']"

datatype collection = OwnClaimedDKG | OwnClaimedSIGN | Pending

definition collection_ok :: "collection \<Rightarrow> actionableIntentWire \<Rightarrow> bool" where
  "collection_ok col w =
     (case col of
        OwnClaimedDKG \<Rightarrow> \<not> (\<not> hasExactFields w full_fields \<or> aw_Type w \<noteq> ''DKG'' \<or> aw_Status w \<noteq> ''CLAIMED'' \<or>
          aw_SessionID w = '''' \<or> aw_Deadline w = '''' \<or> aw_DescriptorBytes w = '''' \<or> aw_DescriptorFingerprint w = '''')
      | OwnClaimedSIGN \<Rightarrow> \<not> (\<not> hasExactFields w [''createdAt'', ''deadline'', ''intentId'', ''keyId'', ''orgId'',
            ''sessionId'', ''status'', ''type''] \<or> aw_Type w \<noteq> ''SIGN'' \<or> aw_Status w \<noteq> ''CLAIMED'' \<or>
          aw_SessionID w = '''' \<or> aw_Deadline w = '''' \<or> aw_DescriptorBytes w \<noteq> '''' \<or> aw_DescriptorFingerprint w \<noteq> '''')
      | Pending \<Rightarrow>
          if aw_Type w = ''DKG'' then
            \<not> (\<not> hasExactFields w full_fields \<or> aw_Status w \<noteq> ''PENDING'' \<or> aw_SessionID w = '''' \<or>
               aw_Deadline w = '''' \<or> aw_DescriptorBytes w = '''' \<or> aw_DescriptorFingerprint w = '''')
          else if aw_Type w = ''SIGN'' then
            \<not> (\<not> hasExactFields w [''createdAt'', ''intentId'', ''keyId'', ''orgId'', ''status'', ''type''] \<or>
               aw_Status w \<noteq> ''PENDING'' \<or> aw_SessionID w \<noteq> '''' \<or> aw_Deadline w \<noteq> '''' \<or>
               aw_DescriptorBytes w \<noteq> '''' \<or> aw_DescriptorFingerprint w \<noteq> '''')
          else False)"

definition decodeActionableIntent :: "actionableIntentWire \<Rightarrow> collection \<Rightarrow> (merr, actionableIntent) result" where
  "decodeActionableIntent w col =
     check_res (fail_if (aw_IntentID w = '''' \<or> aw_KeyID w = '''' \<or> aw_OrgID w = '''' \<or> aw_Type w = '''' \<or>
        aw_Status w = '''') [SOther])
     (case parse_RFC3339Nano (aw_CreatedAt w) of
        None \<Rightarrow> Inl [SOther]
      | Some createdAt \<Rightarrow>
          bind_res (if aw_Deadline w = '''' then Inr zero_time
                    else (case parse_RFC3339Nano (aw_Deadline w) of None \<Rightarrow> Inl [SOther] | Some t \<Rightarrow> Inr t)) (\<lambda>deadline.
          bind_res (if aw_DescriptorBytes w = '''' then Inr []
                    else (case standardBase64 (aw_DescriptorBytes w) (- 1) of None \<Rightarrow> Inl [SOther] | Some b \<Rightarrow> Inr b)) (\<lambda>desc.
          check_res (fail_if (\<not> collection_ok col w) [SOther])
          (check_res (lifecycle_Validate (aw_Session w) (aw_Type w) (aw_SessionID w) deadline)
          (Inr \<lparr>ai_Session = aw_Session w, ai_CreatedAt = createdAt, ai_CreatedAtRaw = aw_CreatedAt w,
               ai_Deadline = (if IsZero deadline then sl_Deadline (aw_Session w) else deadline),
               ai_DeadlineRaw = (if IsZero deadline
                 then format_RFC3339Nano (sl_DeadlineZone (aw_Session w)) (sl_Deadline (aw_Session w)) else aw_Deadline w),
               ai_DescriptorBytes = desc, ai_DescriptorFingerprint = aw_DescriptorFingerprint w,
               ai_IntentID = aw_IntentID w, ai_KeyID = aw_KeyID w, ai_OrgID = aw_OrgID w,
               ai_SessionID = (if aw_SessionID w = '''' then sl_SessionID (aw_Session w) else aw_SessionID w),
               ai_Status = aw_Status w, ai_Type = aw_Type w\<rparr>)))))"

definition decodeActionableCollection ::
  "actionableIntentWire list \<Rightarrow> collection \<Rightarrow> (merr, actionableIntent list) result" where
  "decodeActionableCollection items col = collect (\<lambda>w. decodeActionableIntent w col) items"

definition ListActionableIntents :: "(merr, actionableListingWire) result \<Rightarrow> (merr, actionableListing) result" where
  "ListActionableIntents fetched =
     bind_res fetched (\<lambda>w.
     check_res (fail_if (lw_HTTPStatus w \<noteq> 200) [SOther])
     (case (lw_OwnClaimedDKG w, lw_OwnClaimedSign w, lw_Pending w) of
        (Some d, Some s, Some p) \<Rightarrow>
          bind_res (decodeActionableCollection d OwnClaimedDKG) (\<lambda>dkg.
          bind_res (decodeActionableCollection s OwnClaimedSIGN) (\<lambda>sign.
          bind_res (decodeActionableCollection p Pending) (\<lambda>pending.
          Inr \<lparr>al_HTTPStatus = lw_HTTPStatus w, al_OwnClaimedDKG = dkg, al_OwnClaimedSign = sign, al_Pending = pending\<rparr>)))
      | _ \<Rightarrow> Inl [SOther]))"

definition listed_intent :: "actionableIntent \<Rightarrow> intent" where
  "listed_intent item =
     \<lparr>in_Version = 0, in_Approval = None, in_Prepared = None, in_Session = ai_Session item,
      in_CreatedAt = ai_CreatedAt item, in_DeadlineRaw = ai_DeadlineRaw item, in_DiscoveryStatus = ai_Status item,
      in_IntentID = ai_IntentID item, in_SessionID = ai_SessionID item, in_Type = ai_Type item,
      in_ExpiresAt = ai_Deadline item,
      in_Payload = \<lparr>ip_Type = ai_Type item, ip_OrgID = ai_OrgID item, ip_WalletID = '''', ip_KeyID = ai_KeyID item,
        ip_ProfileID = '''', ip_ProfileVersion = 0, ip_ProfileTemplateID = '''', ip_Parties = [], ip_Threshold = 0,
        ip_Algorithm = '''', ip_Curve = '''', ip_Chain = '''', ip_Digest = [], ip_DigestType = '''',
        ip_HashAlgorithm = '''', ip_SigningPayloadType = '''', ip_ChainCode = '''', ip_ChainCodeHash = '''',
        ip_DerivationScheme = '''', ip_DescriptorBytes = ai_DescriptorBytes item,
        ip_DescriptorFingerprint = ai_DescriptorFingerprint item, ip_DerivationContextHash = '''', ip_PartyID = '''',
        ip_DerivationContext = None, ip_PolicyContext = None\<rparr>\<rparr>"

definition GetPendingIntents :: "(merr, actionableListingWire) result \<Rightarrow> (merr, intent list) result" where
  "GetPendingIntents fetched =
     bind_res (ListActionableIntents fetched) (\<lambda>l.
       Inr (map listed_intent (al_OwnClaimedSign l) @ map listed_intent (al_Pending l)))"

section \<open>Results\<close>

record intentResult =
  ir_Status :: string
  ir_ErrorCode :: string
  ir_ErrorMessage :: string

text \<open>\<open>json.Marshal\<close> prints a map by sorted keys.\<close>

definition marshalSignResult :: "intentResult \<Rightarrow> (merr, bytes) result" where
  "marshalSignResult r =
     (if ir_Status r = ''COMPLETED'' then
        (if ir_ErrorCode r \<noteq> '''' \<or> ir_ErrorMessage r \<noteq> '''' then Inl [SOther]
         else Inr (print_json (JObj [(''status'', JStr (ir_Status r))])))
      else if ir_Status r = ''FAILED'' then
        Inr (print_json (JObj
          ((if ir_ErrorCode r \<noteq> '''' then [(''errorCode'', JStr (ir_ErrorCode r))] else []) @
           (if ir_ErrorMessage r \<noteq> '''' then [(''errorMessage'', JStr (ir_ErrorMessage r))] else []) @
           [(''status'', JStr (ir_Status r))])))
      else Inl [SOther])"

record signResultRequest =
  sr_body :: bytes
  sr_status :: string

definition NewSignResultRequest :: "intentResult \<Rightarrow> (merr, signResultRequest) result" where
  "NewSignResultRequest r = bind_res (marshalSignResult r) (\<lambda>b. Inr \<lparr>sr_body = b, sr_status = ir_Status r\<rparr>)"

record signResultOutcome =
  so_AuthoritativeStatus :: string
  so_HTTPStatus :: int
  so_Outcome :: string

definition decode_outcome :: "bytes \<Rightarrow> (merr, signResultOutcome) result" where
  "decode_outcome body =
     (case json_parse body of
        None \<Rightarrow> Inl [SOther]
      | Some v \<Rightarrow>
          bind_res (lift_decode (DecodeClosed [''authoritativeStatus'', ''httpStatus'', ''outcome''] v)) (\<lambda>as.
          bind_res (lift_decode (get_string as ''authoritativeStatus'')) (\<lambda>a.
          bind_res (lift_decode (get_int as ''httpStatus'')) (\<lambda>h.
          bind_res (lift_decode (get_string as ''outcome'')) (\<lambda>oc.
          Inr \<lparr>so_AuthoritativeStatus = a, so_HTTPStatus = h, so_Outcome = oc\<rparr>)))))"

definition parseSignResultOutcome :: "int \<Rightarrow> bytes \<Rightarrow> string \<Rightarrow> merr err" where
  "parseSignResultOutcome status body submittedStatus =
     (case decode_outcome body of
        Inl e \<Rightarrow> Some e
      | Inr oc \<Rightarrow>
          if so_HTTPStatus oc \<noteq> status then Some [SOther]
          else if status = 200 then
            (if so_Outcome oc \<noteq> ''ACCEPTED'' \<and> so_Outcome oc \<noteq> ''EXACT_REPLAY'' then Some [SOther]
             else if so_AuthoritativeStatus oc \<noteq> submittedStatus \<or>
               (so_AuthoritativeStatus oc \<noteq> ''COMPLETED'' \<and> so_AuthoritativeStatus oc \<noteq> ''FAILED'') then Some [SOther]
             else None)
          else if status = 409 then
            (if so_Outcome oc \<noteq> ''TERMINAL_CONFLICT'' \<or>
               (so_AuthoritativeStatus oc \<noteq> ''COMPLETED'' \<and> so_AuthoritativeStatus oc \<noteq> ''FAILED'' \<and>
                so_AuthoritativeStatus oc \<noteq> ''TIMED_OUT'') then Some [SOther]
             else Some [SConflict (so_AuthoritativeStatus oc)])
          else Some [SStatus status])"

definition maxTerminalResponseBytes :: nat where
  "maxTerminalResponseBytes = 8 * 1024"

text \<open>One attempt; \<open>reply\<close> is what sending exactly these bytes gives.\<close>

definition PostSignResult :: "(bytes \<Rightarrow> exchange) \<Rightarrow> signResultRequest \<Rightarrow> merr err" where
  "PostSignResult reply result =
     (case reply (sr_body result) of
        ReqErr e \<Rightarrow> Some e
      | DoErr e \<Rightarrow> Some e
      | Reply status body rerr \<Rightarrow>
          (let responseBody = take (maxTerminalResponseBytes + 1) body
           in (case rerr of
                 Some e \<Rightarrow> Some e
               | None \<Rightarrow>
                   if length responseBody > maxTerminalResponseBytes then Some [SOther]
                   else if status \<ge> 500 then Some [SStatus status]
                   else parseSignResultOutcome status responseBody (sr_status result))))"

record terminalHTTPResponse =
  th_StatusCode :: int
  th_Body :: bytes
  th_ProtocolViolation :: string

definition PostTerminalResult :: "(bytes \<Rightarrow> exchange) \<Rightarrow> bytes \<Rightarrow> terminalHTTPResponse \<times> merr err" where
  "PostTerminalResult reply body =
     (let zero = \<lparr>th_StatusCode = 0, th_Body = [], th_ProtocolViolation = ''''\<rparr> in
      (case reply body of
         ReqErr e \<Rightarrow> (zero, Some e)
       | DoErr e \<Rightarrow> (zero, Some e)
       | Reply status b rerr \<Rightarrow>
           (let responseBody = take (maxTerminalResponseBytes + 1) b
            in (case rerr of
                  Some e \<Rightarrow> (\<lparr>th_StatusCode = status, th_Body = responseBody, th_ProtocolViolation = ''''\<rparr>, Some e)
                | None \<Rightarrow>
                    if length responseBody > maxTerminalResponseBytes
                    then (\<lparr>th_StatusCode = status, th_Body = [],
                           th_ProtocolViolation = ''authoritative_response_too_large''\<rparr>, None)
                    else (\<lparr>th_StatusCode = status, th_Body = responseBody, th_ProtocolViolation = ''''\<rparr>, None)))))"

section \<open>Mailbox messages\<close>

record inboundMessage =
  im_DeliverySeq :: u64
  im_ProtocolSeq :: u64
  im_MessageID :: string
  im_Round :: u32
  im_FromPartyID :: string
  im_ToPartyID :: string
  im_Broadcast :: bool
  im_Payload :: bytes
  im_DerivationContextHash :: string

record messagesResult =
  mr_Session :: sessionLifecycle
  mr_Messages :: "inboundMessage list"

text \<open>Unsigned, Boolean and base64 members; null leaves the zero value.\<close>

fun uint_field :: "nat \<Rightarrow> json list \<Rightarrow> int \<Rightarrow> int option" where
  "uint_field w [] cur = Some cur"
| "uint_field w (JNull # vs) cur = uint_field w vs cur"
| "uint_field w (JNum s # vs) cur =
     (if canonical_digits s \<and> digits_int s < 2 ^ w then uint_field w vs (digits_int s) else None)"
| "uint_field w (_ # vs) cur = None"

fun bool_field :: "json list \<Rightarrow> bool \<Rightarrow> bool option" where
  "bool_field [] cur = Some cur"
| "bool_field (JNull # vs) cur = bool_field vs cur"
| "bool_field (JBool b # vs) cur = bool_field vs b"
| "bool_field (_ # vs) cur = None"

fun bytes_field :: "json list \<Rightarrow> bytes \<Rightarrow> bytes option" where
  "bytes_field [] cur = Some cur"
| "bytes_field (JNull # vs) cur = bytes_field vs []"
| "bytes_field (JStr s # vs) cur = (case std_decode s of None \<Rightarrow> None | Some b \<Rightarrow> bytes_field vs b)"
| "bytes_field (_ # vs) cur = None"

definition message_names :: "string list" where
  "message_names = [''deliverySeq'', ''protocolSeq'', ''messageId'', ''round'', ''fromPartyId'', ''toPartyId'',
     ''broadcast'', ''payload'', ''derivationContextHash'']"

definition decode_message :: "json \<Rightarrow> (merr, inboundMessage) result" where
  "decode_message v =
     bind_res (lift_decode (DecodeObject message_names v)) (\<lambda>as.
     (case (uint_field 64 (assigned as ''deliverySeq'') 0, uint_field 64 (assigned as ''protocolSeq'') 0,
            string_field '''' (assigned as ''messageId''), uint_field 32 (assigned as ''round'') 0,
            string_field '''' (assigned as ''fromPartyId''), string_field '''' (assigned as ''toPartyId''),
            bool_field (assigned as ''broadcast'') False, bytes_field (assigned as ''payload'') [],
            string_field '''' (assigned as ''derivationContextHash'')) of
        (Some ds, Some ps, Some mid, Some rd, Some fp, Some tp, Some bc, Some pl, Some dh) \<Rightarrow>
          Inr \<lparr>im_DeliverySeq = word_of_int ds, im_ProtocolSeq = word_of_int ps, im_MessageID = mid,
               im_Round = word_of_int rd, im_FromPartyID = fp, im_ToPartyID = tp, im_Broadcast = bc,
               im_Payload = pl, im_DerivationContextHash = dh\<rparr>
      | _ \<Rightarrow> Inl [SOther]))"

definition messages_UnmarshalJSON :: "json \<Rightarrow> (merr, messagesResult) result" where
  "messages_UnmarshalJSON v =
     (case raw_fields v of
        None \<Rightarrow> Inl [SInvalidLifecycle]
      | Some ms \<Rightarrow>
          (case (field_raw ms ''session'', field_raw ms ''messages'') of
             (Some s, Some (JArr items)) \<Rightarrow>
               if fields_count ms \<noteq> 2 \<or> rejectDuplicateKeys (tokens v) True \<noteq> None then Inl [SInvalidLifecycle]
               else (case (lifecycle_UnmarshalJSON s, collect decode_message items) of
                       (Inr session, Inr messages) \<Rightarrow>
                         check_res (lifecycle_Validate session '''' '''' zero_time)
                           (Inr \<lparr>mr_Session = session, mr_Messages = messages\<rparr>)
                     | _ \<Rightarrow> Inl [SInvalidLifecycle])
           | _ \<Rightarrow> Inl [SInvalidLifecycle]))"

definition GetMessages :: "exchange \<Rightarrow> string \<Rightarrow> (merr, messagesResult) result" where
  "GetMessages reply sessionID =
     (case reply of
        ReqErr e \<Rightarrow> Inl e
      | DoErr e \<Rightarrow> Inl e
      | Reply status raw rerr \<Rightarrow>
          if status \<noteq> 200 then Inl [SStatus status]
          else (case rerr of
                  Some e \<Rightarrow> Inl e
                | None \<Rightarrow>
                    (case json_parse raw of
                       None \<Rightarrow> Inl [SInvalidLifecycle]
                     | Some v \<Rightarrow>
                         if rejectDuplicateKeys (tokens v) True \<noteq> None then Inl [SInvalidLifecycle]
                         else (case messages_UnmarshalJSON v of
                                 Inl e \<Rightarrow> Inl [SInvalidLifecycle]
                               | Inr out \<Rightarrow>
                                   check_res (lifecycle_Validate (mr_Session out) '''' sessionID zero_time) (Inr out)))))"

section \<open>Properties of the exchanges\<close>

definition retry_outcome :: "bool \<Rightarrow> exchange \<Rightarrow> bool" where
  "retry_outcome claimResponse x \<longleftrightarrow>
     (case x of ReqErr e \<Rightarrow> False | DoErr e \<Rightarrow> isRetryable e
      | Reply st b r \<Rightarrow> snd (read_reply claimResponse b r) \<noteq> None \<or> st \<ge> 500)"

definition success_outcome :: "int \<Rightarrow> exchange \<Rightarrow> bool" where
  "success_outcome expected x \<longleftrightarrow>
     (\<exists>st b r. x = Reply st b r \<and> 200 \<le> st \<and> st < 300 \<and> (expected = 0 \<or> st = expected))"

lemma attempts_stop:
  assumes "\<not> retry_outcome cr (send k)"
  shows "fst (attempts_from cr expected out send k (Suc n) le) = [] \<and>
    (\<forall>x. snd (attempts_from cr expected out send k (Suc n) le) = Inr x \<longrightarrow> success_outcome expected (send k))"
proof (cases "send k")
  case (Reply st b r)
  obtain rb where rr: "read_reply cr b r = (rb, None)" "st < 500"
    using assms Reply by (cases "read_reply cr b r") (auto simp: retry_outcome_def)
  show ?thesis
  proof (cases "200 \<le> st \<and> st < 300 \<and> (expected = 0 \<or> st = expected)")
    case True
    then have "success_outcome expected (send k)" using Reply by (auto simp: success_outcome_def)
    then show ?thesis using Reply rr by (simp add: Let_def split: option.split sum.split)
  next
    case False
    then show ?thesis using Reply rr by (auto simp: Let_def)
  qed
qed (use assms in \<open>simp_all add: retry_outcome_def Let_def\<close>)

lemma attempts_again:
  assumes "retry_outcome cr (send k)"
  shows "\<exists>e. attempts_from cr expected out send k (Suc n) le =
    (if n > 0 then (backoff k # fst (attempts_from cr expected out send (Suc k) n (Some e)),
                    snd (attempts_from cr expected out send (Suc k) n (Some e))) else ([], Inl e))"
proof (cases "send k")
  case (Reply st b r)
  then show ?thesis using assms
    by (cases "read_reply cr b r"; cases "snd (read_reply cr b r)")
      (auto simp: retry_outcome_def Let_def case_prod_unfold)
qed (use assms in \<open>auto simp: retry_outcome_def Let_def case_prod_unfold\<close>)

declare attempts_from.simps(2) [simp del]

lemma attempts_from_shape:
  "\<exists>j. k \<le> j \<and> j \<le> k + n \<and> fst (attempts_from cr expected out send k (Suc n) le) = map backoff [k..<j] \<and>
     (\<forall>i. k \<le> i \<and> i < j \<longrightarrow> retry_outcome cr (send i)) \<and>
     (\<forall>x. snd (attempts_from cr expected out send k (Suc n) le) = Inr x \<longrightarrow> success_outcome expected (send j))"
proof (induction n arbitrary: k le)
  case 0
  show ?case
  proof (cases "retry_outcome cr (send k)")
    case True
    from attempts_again [where send = send and k = k, OF this, of expected out 0 le] show ?thesis by (intro exI [of _ k]) auto
  next
    case False
    from attempts_stop [where send = send and k = k, OF this, of expected out 0 le] show ?thesis by (intro exI [of _ k]) auto
  qed
next
  case (Suc n)
  show ?case
  proof (cases "retry_outcome cr (send k)")
    case False
    from attempts_stop [where send = send and k = k, OF this, of expected out "Suc n" le] show ?thesis by (intro exI [of _ k]) auto
  next
    case True
    obtain e where e: "attempts_from cr expected out send k (Suc (Suc n)) le =
        (backoff k # fst (attempts_from cr expected out send (Suc k) (Suc n) (Some e)),
         snd (attempts_from cr expected out send (Suc k) (Suc n) (Some e)))"
      using attempts_again [where send = send and k = k, OF True, of expected out "Suc n" le] by auto
    obtain j where j: "Suc k \<le> j" "j \<le> Suc k + n"
      "fst (attempts_from cr expected out send (Suc k) (Suc n) (Some e)) = map backoff [Suc k..<j]"
      "\<forall>i. Suc k \<le> i \<and> i < j \<longrightarrow> retry_outcome cr (send i)"
      "\<forall>x. snd (attempts_from cr expected out send (Suc k) (Suc n) (Some e)) = Inr x \<longrightarrow> success_outcome expected (send j)"
      using Suc.IH [of "Suc k" "Some e"] by blast
    have "[k..<j] = k # [Suc k..<j]" using j(1) by (simp add: upt_conv_Cons)
    moreover have "retry_outcome cr (send i)" if "k \<le> i" "i < j" for i
      using that True j(4) by (cases "i = k") auto
    ultimately show ?thesis
      using j(1,2,3,5) unfolding e by (intro exI [of _ j]) auto
  qed
qed

lemma hasExactFields_card:
  "hasExactFields w ns \<Longrightarrow> length (aw_fields w) = Suc (length ns)"
  by (simp add: hasExactFields_def Let_def)

lemma collect_Inr: "collect f xs = Inr ys \<Longrightarrow> list_all2 (\<lambda>x y. f x = Inr y) xs ys"
  by (induction xs arbitrary: ys) auto

text \<open>A listed item is bound to its own session.\<close>

definition item_ok :: "actionableIntent \<Rightarrow> bool" where
  "item_ok a \<longleftrightarrow> ai_Type a \<in> {''DKG'', ''SIGN''} \<and> ai_IntentID a \<noteq> '''' \<and>
     lifecycle_ok (ai_Type a) (ai_SessionID a) (ai_Deadline a) (ai_Session a) \<and>
     sl_SessionID (ai_Session a) = ai_SessionID a \<and> sl_Deadline (ai_Session a) = ai_Deadline a \<and>
     (ai_Type a = ''SIGN'' \<longrightarrow> ai_DescriptorBytes a = [] \<and> ai_DescriptorFingerprint a = '''') \<and>
     (ai_Type a = ''DKG'' \<longrightarrow> ai_DescriptorFingerprint a \<noteq> '''')"

lemma collection_ok_type: "collection_ok col w \<Longrightarrow> aw_Type w = ''DKG'' \<or> aw_Type w = ''SIGN''"
  by (cases col) (auto simp: collection_ok_def split: if_splits)

lemma collection_ok_descriptor:
  assumes "collection_ok col w"
  shows "aw_Type w = ''SIGN'' \<Longrightarrow> aw_DescriptorBytes w = '''' \<and> aw_DescriptorFingerprint w = ''''"
    "aw_Type w = ''DKG'' \<Longrightarrow> aw_DescriptorFingerprint w \<noteq> ''''"
  using assms by (cases col; auto simp: collection_ok_def split: if_splits)+

lemma decodeActionable_ok:
  assumes "decodeActionableIntent w col = Inr a"
  shows "item_ok a \<and> collection_ok col w \<and> ai_Status a = aw_Status w \<and> ai_Type a = aw_Type w \<and>
    ai_IntentID a = aw_IntentID w"
proof -
  obtain dl ca desc where
    ok: "collection_ok col w" "lifecycle_Validate (aw_Session w) (aw_Type w) (aw_SessionID w) dl = None"
      "aw_IntentID w \<noteq> ''''"
    and desc: "aw_DescriptorBytes w = '''' \<longrightarrow> desc = []"
    and a: "a = \<lparr>ai_Session = aw_Session w, ai_CreatedAt = ca, ai_CreatedAtRaw = aw_CreatedAt w,
               ai_Deadline = (if IsZero dl then sl_Deadline (aw_Session w) else dl),
               ai_DeadlineRaw = (if IsZero dl
                 then format_RFC3339Nano (sl_DeadlineZone (aw_Session w)) (sl_Deadline (aw_Session w)) else aw_Deadline w),
               ai_DescriptorBytes = desc, ai_DescriptorFingerprint = aw_DescriptorFingerprint w,
               ai_IntentID = aw_IntentID w, ai_KeyID = aw_KeyID w, ai_OrgID = aw_OrgID w,
               ai_SessionID = (if aw_SessionID w = '''' then sl_SessionID (aw_Session w) else aw_SessionID w),
               ai_Status = aw_Status w, ai_Type = aw_Type w\<rparr>"
    using assms by (auto simp: decodeActionableIntent_def split: option.splits if_splits)
  have "lifecycle_ok (aw_Type w) (aw_SessionID w) dl (aw_Session w)" using ok(2) by (simp add: lifecycle_Validate_iff)
  then show ?thesis
    using ok(1,3) collection_ok_type [OF ok(1)] collection_ok_descriptor [OF ok(1)] desc
    unfolding a by (auto simp: item_ok_def lifecycle_ok_def)
qed

lemma collected_items:
  assumes "decodeActionableCollection ws col = Inr as" "a \<in> set as"
  shows "item_ok a \<and> (\<exists>w. collection_ok col w \<and> ai_Status a = aw_Status w \<and> ai_Type a = aw_Type w)"
proof -
  have "list_all2 (\<lambda>w a. decodeActionableIntent w col = Inr a) ws as"
    using collect_Inr assms(1) unfolding decodeActionableCollection_def .
  moreover obtain i where "i < length as" "as ! i = a" using assms(2) by (auto simp: in_set_conv_nth)
  ultimately have "decodeActionableIntent (ws ! i) col = Inr a" by (auto simp: list_all2_conv_all_nth)
  from decodeActionable_ok [OF this] show ?thesis by blast
qed

lemma collection_claimed: "collection_ok OwnClaimedSIGN w \<Longrightarrow> aw_Type w = ''SIGN''"
  by (simp add: collection_ok_def)

lemma collection_pending: "collection_ok Pending w \<Longrightarrow> aw_Status w = ''PENDING''"
  by (auto simp: collection_ok_def split: if_splits)

lemma ListActionable_collections:
  assumes "ListActionableIntents fetched = Inr l"
  shows "\<exists>ss ps. decodeActionableCollection ss OwnClaimedSIGN = Inr (al_OwnClaimedSign l) \<and>
    decodeActionableCollection ps Pending = Inr (al_Pending l)"
proof -
  obtain w where w: "fetched = Inr w" using assms by (cases fetched) (auto simp: ListActionableIntents_def guard_eval)
  show ?thesis
    using assms w
    by (cases "lw_OwnClaimedDKG w"; cases "lw_OwnClaimedSign w"; cases "lw_Pending w")
      (auto simp: ListActionableIntents_def)
qed

section \<open>Properties\<close>


definition ex_send :: "nat \<Rightarrow> exchange" where
  "ex_send k = (if k = 1 then DoErr [SOther] else Reply 200 [] None)"



definition ex_wire :: actionableIntentWire where
  "ex_wire = \<lparr>aw_Session = \<lparr>sl_SessionID = ''s1'', sl_Status = ''PENDING'', sl_StartedAt = None,
       sl_Deadline = 1200 * second, sl_DeadlineZone = 0, sl_ExecutionExpiresAt = None\<rparr>,
     aw_CreatedAt = ''2024-02-29T12:30:45.5Z'', aw_Deadline = '''', aw_DescriptorBytes = '''',
     aw_DescriptorFingerprint = '''', aw_IntentID = ''i1'', aw_KeyID = ''k'', aw_OrgID = ''o'', aw_SessionID = '''',
     aw_Status = ''PENDING'', aw_Type = ''SIGN'',
     aw_fields = [''createdAt'', ''intentId'', ''keyId'', ''orgId'', ''session'', ''status'', ''type'']\<rparr>"

definition ex_listing :: actionableListingWire where
  "ex_listing = \<lparr>lw_HTTPStatus = 200, lw_OwnClaimedDKG = Some [], lw_OwnClaimedSign = Some [],
     lw_Pending = Some [ex_wire]\<rparr>"



definition ex_result :: intentResult where
  "ex_result = \<lparr>ir_Status = ''COMPLETED'', ir_ErrorCode = '''', ir_ErrorMessage = ''''\<rparr>"

definition ex_outcome_body :: bytes where
  "ex_outcome_body = print_json (JObj [(''authoritativeStatus'', JStr ''COMPLETED''), (''httpStatus'', JNum ''200''),
     (''outcome'', JStr ''ACCEPTED'')])"


lemma newline_free:
  "byte_of_nat 10 \<notin> set (show_int i)" "byte_of_nat 10 \<notin> set (hex_encode b)"
proof -
  have "\<not> is_digit (byte_of_nat 10)" "byte_of_nat 10 \<noteq> CHR ''-''" "\<not> is_lower_hex (byte_of_nat 10)"
    by code_simp+
  then show "byte_of_nat 10 \<notin> set (show_int i)" "byte_of_nat 10 \<notin> set (hex_encode b)"
    using show_int_chars hex_encode_chars by blast+
qed

lemma show_int_inj: "show_int i = show_int j \<longleftrightarrow> i = j"
proof -
  have "CHR ''-'' # s \<noteq> show_nat n" for s n
  proof
    assume "CHR ''-'' # s = show_nat n"
    then have "CHR ''-'' \<in> set (show_nat n)" by (metis list.set_intros(1))
    then show False using show_nat_digits is_digit_sign(1) by blast
  qed
  from this this [symmetric] show ?thesis by (auto simp: show_int_def)
qed

lemma hex_encode_inj: "hex_encode a = hex_encode b \<longleftrightarrow> a = b"
  by (metis hex_decode_encode option.inject)

text \<open>
  C24. The signed request text determines what is sent: two requests with the same
  text have the same upper-case method, URI, body digest, timestamp, nonce and key
  id, as long as methods, URIs and key ids hold no line break (the digest function
  returns 32 bytes, so an empty and a non-empty body never share the text).
\<close>

theorem signed_request_binds:
  assumes "canonical_request sha m u b t n k = canonical_request sha m' u' b' t' n' k'"
    and "\<forall>s\<in>{ToUpper m, u, ToUpper m', u'}. byte_of_nat 10 \<notin> set s"
    and sha_length: "\<forall>x. length (sha x) = 32"
  shows "ToUpper m = ToUpper m' \<and> u = u' \<and> (b = [] \<longleftrightarrow> b' = []) \<and> (b \<noteq> [] \<longrightarrow> sha b = sha b') \<and>
    t = t' \<and> n = n' \<and> k = k'"
proof -
  let ?d = "\<lambda>b. if b = [] then '''' else hex_encode (sha b)"
  have free: "byte_of_nat 10 \<notin> set (?d c)" for c using newline_free(2) by auto
  have "ToUpper m = ToUpper m' \<and> u = u' \<and> ?d b = ?d b' \<and> t = t' \<and> n = n' \<and> k = k'"
    using assms(1,2) free [of b] free [of b'] newline_free
    by (simp add: canonical_request_def split_first show_int_inj hex_encode_inj del: if_split)
  moreover have "hex_encode (sha c) \<noteq> ''''" "'''' \<noteq> hex_encode (sha c)" for c
    using sha_length length_hex_encode [of "sha c"] by (metis list.size(3) mult_is_0 numeral_neq_zero)+
  ultimately show ?thesis by (auto simp: hex_encode_inj split: if_splits)
qed

theorem signed_request_binds_witness:
  "canonical_request (\<lambda>_. replicate 32 (CHR ''x'')) ''post'' ''/a'' ''b'' 7 ''n'' ''k'' \<noteq>
   canonical_request (\<lambda>_. replicate 32 (CHR ''x'')) ''POST'' ''/b'' ''b'' 7 ''n'' ''k''"
proof
  assume eq: "canonical_request (\<lambda>_. replicate 32 (CHR ''x'')) ''post'' ''/a'' ''b'' 7 ''n'' ''k'' =
   canonical_request (\<lambda>_. replicate 32 (CHR ''x'')) ''POST'' ''/b'' ''b'' 7 ''n'' ''k''"
  have "\<forall>s\<in>{ToUpper ''post'', ''/a'', ToUpper ''POST'', ''/b''}. byte_of_nat 10 \<notin> set s" by code_simp
  from signed_request_binds [OF eq this] show False by simp
qed

end
