(* ===== verification/Transport.thy ===== *)
theory Transport
  imports Discovery "HOL-Library.Multiset"
begin

text \<open>
  The HTTP transport of one session (\<open>src/internal/transport\<close>). Operations under the
  mutex are functions on the state; the poll loop is cut at its checks, its fetch, its
  validation and each channel send, and \<open>transport_step\<close> interleaves it with \<open>Start\<close>,
  \<open>Close\<close>, \<open>Dispatch\<close>, the consumer of frames and the cancellation of the contexts.
  \<open>frame.IsBroadcast\<close> belongs to package mpc-core and is a parameter.
\<close>

section \<open>State\<close>

record frameContext =
  fc_Session :: sessionLifecycle
  fc_IntentID :: string
  fc_OrgID :: string
  fc_SessionID :: string
  fc_Stage :: string
  fc_Protocol :: string

datatype transport_err = ErrTransportClosed | ErrInvalidFrameRoute | ErrAlreadyDispatched | ErrCtx ctx_err | ErrLifecycle merr

text \<open>
  \<open>t_pollStopped\<close> is None before \<open>Start\<close>, then whether the poller has exited. The
  contexts derived for the poller and for the execution are the flags of their
  cancellation; \<open>t_runs\<close> counts the executions begun.
\<close>

record transport =
  t_frameCtx :: frameContext
  t_pollInterval :: duration
  t_inbound :: "frame list"
  t_done :: bool
  t_err :: "merr err"
  t_pollStopped :: "bool option"
  t_pollCancelled :: bool
  t_dispatched :: bool
  t_dispatchCancelled :: bool
  t_runs :: nat

definition inbound_capacity :: nat where
  "inbound_capacity = 256"

definition platformPartyID :: string where
  "platformPartyID = ''mpc-signer''"

definition NewHTTPTransport :: "frameContext \<Rightarrow> duration \<Rightarrow> transport" where
  "NewHTTPTransport fc pollInterval =
     \<lparr>t_frameCtx = fc, t_pollInterval = pollInterval, t_inbound = [], t_done = False, t_err = None,
      t_pollStopped = None, t_pollCancelled = False, t_dispatched = False, t_dispatchCancelled = False, t_runs = 0\<rparr>"

section \<open>Operations\<close>

text \<open>The Boolean says whether the poller is launched.\<close>

definition transport_Start :: "transport \<Rightarrow> bool \<times> transport" where
  "transport_Start t =
     (if t_done t then (False, t)
      else if t_pollStopped t \<noteq> None then (False, t)
      else (True, t\<lparr>t_pollStopped := Some False\<rparr>))"

definition transport_stop :: "transport \<Rightarrow> merr err \<Rightarrow> transport" where
  "transport_stop t e =
     (if t_done t then t
      else t\<lparr>t_err := e, t_done := True,
             t_pollCancelled := (t_pollStopped t \<noteq> None \<or> t_pollCancelled t),
             t_dispatchCancelled := (t_dispatched t \<or> t_dispatchCancelled t)\<rparr>)"

text \<open>\<open>Dispatch\<close> up to the call of \<open>run\<close>: an error, or the reservation.\<close>

definition transport_Dispatch :: "ctx_err option \<Rightarrow> transport \<Rightarrow> transport_err err \<times> transport" where
  "transport_Dispatch ctx t =
     (if t_done t then (Some (case t_err t of Some e \<Rightarrow> ErrLifecycle e | None \<Rightarrow> ErrTransportClosed), t)
      else (case ctx of
              Some e \<Rightarrow> (Some (ErrCtx e), t)
            | None \<Rightarrow>
                if t_dispatched t then (Some ErrAlreadyDispatched, t)
                else (None, t\<lparr>t_dispatched := True, t_runs := Suc (t_runs t)\<rparr>)))"

definition isDone :: "bool \<Rightarrow> transport \<Rightarrow> bool" where
  "isDone ctx_done t = (t_done t \<or> ctx_done)"

definition logicalRound :: "frame \<Rightarrow> u32" where
  "logicalRound f = (if f_Round f \<noteq> 0 then f_Round f else f_RoundHint f)"

record outboundFrame =
  of_AuthenticatedPartyID :: string
  of_Broadcast :: bool
  of_FromPartyID :: string
  of_IntentID :: string
  of_MessageID :: string
  of_OrgID :: string
  of_Payload :: bytes
  of_ProtocolSeq :: u64
  of_Round :: u32
  of_SessionID :: string
  of_ToPartyID :: string
  of_DerivationContextHash :: string

definition toOutboundFrame :: "(frame \<Rightarrow> bool) \<Rightarrow> frameContext \<Rightarrow> frame \<Rightarrow> (transport_err, outboundFrame) result" where
  "toOutboundFrame isBroadcast fc f =
     (let broadcast = isBroadcast f in
      if f_FromParty f = '''' \<or> (broadcast \<and> f_ToParty f \<noteq> '''') \<or> (\<not> broadcast \<and> f_ToParty f \<noteq> platformPartyID)
      then Inl ErrInvalidFrameRoute
      else Inr \<lparr>of_AuthenticatedPartyID = f_FromParty f, of_Broadcast = broadcast, of_FromPartyID = f_FromParty f,
                of_IntentID = fc_IntentID fc, of_MessageID = f_MessageID f, of_OrgID = fc_OrgID fc,
                of_Payload = f_Payload f, of_ProtocolSeq = f_Seq f, of_Round = logicalRound f,
                of_SessionID = fc_SessionID fc, of_ToPartyID = (if broadcast then ''broadcast'' else f_ToParty f),
                of_DerivationContextHash = f_DerivationContextHash f\<rparr>)"

definition toFrame :: "frameContext \<Rightarrow> inboundMessage \<Rightarrow> frame" where
  "toFrame fc m =
     \<lparr>f_SessionID = fc_SessionID fc, f_MessageID = im_MessageID m, f_Stage = fc_Stage fc, f_Protocol = fc_Protocol fc,
      f_Seq = im_ProtocolSeq m, f_Round = im_Round m, f_RoundHint = im_Round m, f_Broadcast = im_Broadcast m,
      f_FromParty = im_FromPartyID m, f_ToParty = im_ToPartyID m, f_MessageType = '''', f_PayloadHash = '''',
      f_DerivationContextHash = im_DerivationContextHash m, f_Payload = im_Payload m\<rparr>"

text \<open>What \<open>SendFrame\<close> hands to the client, and the outcomes of \<open>RecvFrame\<close>.\<close>

definition SendFrame :: "(frame \<Rightarrow> bool) \<Rightarrow> transport \<Rightarrow> frame \<Rightarrow> (transport_err, outboundFrame) result" where
  "SendFrame isBroadcast t f =
     (if t_done t then Inl ErrTransportClosed else toOutboundFrame isBroadcast (t_frameCtx t) f)"

definition transport_RecvFrame ::
  "ctx_err option \<Rightarrow> transport \<Rightarrow> ((transport_err, frame) result \<times> transport) list" where
  "transport_RecvFrame ctx t =
     (if isDone (ctx \<noteq> None) t then
        [(Inl (case ctx of Some e \<Rightarrow> ErrCtx e | None \<Rightarrow> ErrTransportClosed), t)]
      else (case t_inbound t of [] \<Rightarrow> [] | f # fs \<Rightarrow> [(Inr f, t\<lparr>t_inbound := fs\<rparr>)]))"

section \<open>Polling\<close>

definition validatePolledSession ::
  "string \<Rightarrow> string \<Rightarrow> sessionLifecycle \<Rightarrow> sessionLifecycle \<Rightarrow> time \<Rightarrow> merr err" where
  "validatePolledSession kind sessionID previous current now =
     or_err (lifecycle_Validate current kind sessionID (sl_Deadline previous))
     (if kind \<noteq> ''SIGN'' then None
      else or_err (fail_if (sl_Status current \<noteq> ''RUNNING'' \<or> \<not> sl_Deadline current > now \<or>
               (case sl_ExecutionExpiresAt current of None \<Rightarrow> True | Some ex \<Rightarrow> \<not> ex > now)) [SInvalidLifecycle])
           (fail_if (sl_StartedAt previous \<noteq> None \<and>
               (sl_ExecutionExpiresAt previous = None \<or> sl_StartedAt current \<noteq> sl_StartedAt previous \<or>
                sl_ExecutionExpiresAt current \<noteq> sl_ExecutionExpiresAt previous)) [SInvalidLifecycle]))"

text \<open>\<open>sort.Slice\<close> is not stable: any arrangement of the batch in delivery order.\<close>

definition delivery_order :: "inboundMessage list \<Rightarrow> inboundMessage list \<Rightarrow> bool" where
  "delivery_order ms ms' \<longleftrightarrow> mset ms' = mset ms \<and> sorted (map im_DeliverySeq ms')"

text \<open>
  The poller: at the top of the loop, waiting for a response, sending the rest of a
  batch (and whether it was empty from the start), pausing, or gone. \<open>po_delivered\<close>
  records what went into the inbound channel.
\<close>

datatype poll_pc = PTop | PFetch | PDeliver "inboundMessage list" bool | PSleep | PExit

record poller =
  po_pc :: poll_pc
  po_afterSeq :: u64
  po_baseline :: sessionLifecycle
  po_delivered :: "inboundMessage list"

record transport_sys =
  ts_t :: transport
  ts_poller :: "poller option"

definition poll_kind :: "frameContext \<Rightarrow> string" where
  "poll_kind fc = ToUpper (fc_Stage fc)"

definition poll_begin :: "frameContext \<Rightarrow> poller" where
  "poll_begin fc = \<lparr>po_pc = PTop, po_afterSeq = 0, po_baseline = fc_Session fc, po_delivered = []\<rparr>"

definition poll_exit :: "transport \<Rightarrow> poller \<Rightarrow> transport \<times> poller" where
  "poll_exit t p = (t\<lparr>t_pollStopped := Some True\<rparr>, p\<lparr>po_pc := PExit\<rparr>)"

definition poll_top :: "transport \<Rightarrow> poller \<Rightarrow> transport \<times> poller" where
  "poll_top t p = (if isDone (t_pollCancelled t) t then poll_exit t p else (t, p\<lparr>po_pc := PFetch\<rparr>))"

text \<open>The response of \<open>GetMessages\<close> arrives at time \<open>now\<close>; \<open>ms'\<close> is the order the sort gives.\<close>

definition poll_response ::
  "transport \<Rightarrow> poller \<Rightarrow> (merr, messagesResult) result \<Rightarrow> time \<Rightarrow> inboundMessage list \<Rightarrow> transport \<times> poller" where
  "poll_response t p r now ms' =
     (if isDone (t_pollCancelled t) t then poll_exit t p
      else (case r of
              Inl e \<Rightarrow>
                if errors_Is e SInvalidLifecycle then poll_exit (transport_stop t (Some e)) p
                else (t, p\<lparr>po_pc := PSleep\<rparr>)
            | Inr res \<Rightarrow>
                (case validatePolledSession (poll_kind (t_frameCtx t)) (fc_SessionID (t_frameCtx t)) (po_baseline p)
                        (mr_Session res) now of
                   Some e \<Rightarrow> poll_exit (transport_stop t (Some e)) p
                 | None \<Rightarrow> (t, p\<lparr>po_baseline := mr_Session res, po_pc := PDeliver ms' (mr_Messages res = [])\<rparr>))))"

definition poll_deliver :: "transport \<Rightarrow> poller \<Rightarrow> (transport \<times> poller) list" where
  "poll_deliver t p =
     (case po_pc p of
        PDeliver [] none \<Rightarrow> [(t, p\<lparr>po_pc := (if none then PSleep else PTop)\<rparr>)]
      | PDeliver (m # ms) none \<Rightarrow>
          (if length (t_inbound t) < inbound_capacity
           then [(t\<lparr>t_inbound := t_inbound t @ [toFrame (t_frameCtx t) m]\<rparr>,
                  p\<lparr>po_afterSeq := max (po_afterSeq p) (im_DeliverySeq m), po_delivered := po_delivered p @ [m],
                    po_pc := PDeliver ms none\<rparr>)] else []) @
          (if t_done t \<or> t_pollCancelled t then [poll_exit t p] else [])
      | _ \<Rightarrow> [])"

definition poll_sleep :: "transport \<Rightarrow> poller \<Rightarrow> bool \<Rightarrow> (transport \<times> poller) list" where
  "poll_sleep t p timer =
     (if t_pollInterval t \<le> 0 then
        [if isDone (t_pollCancelled t) t then poll_exit t p else (t, p\<lparr>po_pc := PTop\<rparr>)]
      else (if timer then [(t, p\<lparr>po_pc := PTop\<rparr>)] else []) @
           (if t_done t \<or> t_pollCancelled t then [poll_exit t p] else []))"

inductive transport_step :: "transport_sys \<Rightarrow> transport_sys \<Rightarrow> bool" where
  TStart: "transport_Start (ts_t s) = (launch, t') \<Longrightarrow>
    transport_step s (s\<lparr>ts_t := t', ts_poller := (if launch then Some (poll_begin (t_frameCtx t')) else ts_poller s)\<rparr>)"
| TClose: "transport_step s (s\<lparr>ts_t := transport_stop (ts_t s) None\<rparr>)"
| TDispatch: "transport_Dispatch ctx (ts_t s) = (e, t') \<Longrightarrow> transport_step s (s\<lparr>ts_t := t'\<rparr>)"
| TRecv: "(r, t') \<in> set (transport_RecvFrame ctx (ts_t s)) \<Longrightarrow> transport_step s (s\<lparr>ts_t := t'\<rparr>)"
| TCancel: "t_pollStopped (ts_t s) \<noteq> None \<Longrightarrow> transport_step s (s\<lparr>ts_t := (ts_t s)\<lparr>t_pollCancelled := True\<rparr>\<rparr>)"
| TTop: "\<lbrakk>ts_poller s = Some p; po_pc p = PTop; poll_top (ts_t s) p = (t', p')\<rbrakk> \<Longrightarrow>
    transport_step s (s\<lparr>ts_t := t', ts_poller := Some p'\<rparr>)"
| TResponse: "\<lbrakk>ts_poller s = Some p; po_pc p = PFetch; \<And>res. r = Inr res \<Longrightarrow> delivery_order (mr_Messages res) ms';
      poll_response (ts_t s) p r now ms' = (t', p')\<rbrakk> \<Longrightarrow>
    transport_step s (s\<lparr>ts_t := t', ts_poller := Some p'\<rparr>)"
| TDeliver: "\<lbrakk>ts_poller s = Some p; (t', p') \<in> set (poll_deliver (ts_t s) p)\<rbrakk> \<Longrightarrow>
    transport_step s (s\<lparr>ts_t := t', ts_poller := Some p'\<rparr>)"
| TSleep: "\<lbrakk>ts_poller s = Some p; po_pc p = PSleep; (t', p') \<in> set (poll_sleep (ts_t s) p timer)\<rbrakk> \<Longrightarrow>
    transport_step s (s\<lparr>ts_t := t', ts_poller := Some p'\<rparr>)"

inductive transport_steps :: "transport_sys \<Rightarrow> transport_sys \<Rightarrow> bool" where
  steps_refl: "transport_steps s s"
| steps_more: "transport_steps s s' \<Longrightarrow> transport_step s' s'' \<Longrightarrow> transport_steps s s''"

definition transport_init :: "frameContext \<Rightarrow> duration \<Rightarrow> transport_sys" where
  "transport_init fc d = \<lparr>ts_t = NewHTTPTransport fc d, ts_poller = None\<rparr>"

section \<open>Invariants\<close>

lemmas transport_ops = transport_Start_def transport_stop_def transport_Dispatch_def transport_RecvFrame_def
  poll_exit_def poll_top_def poll_response_def poll_deliver_def poll_sleep_def

definition transport_inv :: "transport \<Rightarrow> bool" where
  "transport_inv t \<longleftrightarrow> t_runs t = (if t_dispatched t then 1 else 0) \<and>
     (t_done t \<and> t_dispatched t \<longrightarrow> t_dispatchCancelled t) \<and>
     (t_done t \<and> t_pollStopped t \<noteq> None \<longrightarrow> t_pollCancelled t) \<and> length (t_inbound t) \<le> inbound_capacity"

text \<open>What every step keeps once the transport is stopped.\<close>

definition stopped_as :: "transport \<Rightarrow> transport \<Rightarrow> bool" where
  "stopped_as t t' \<longleftrightarrow> (t_done t \<longrightarrow> t_done t' \<and> t_err t' = t_err t \<and> t_runs t' = t_runs t) \<and>
     t_frameCtx t' = t_frameCtx t"

lemma stopped_as_refl [simp]: "stopped_as t t"
  by (simp add: stopped_as_def)

lemma stopped_as_trans: "stopped_as t t' \<Longrightarrow> stopped_as t' t'' \<Longrightarrow> stopped_as t t''"
  by (auto simp: stopped_as_def)

lemma Start_keeps: "transport_Start t = (l, t') \<Longrightarrow> transport_inv t \<Longrightarrow> transport_inv t' \<and> stopped_as t t'"
  by (auto simp: transport_Start_def transport_inv_def stopped_as_def split: if_splits)

lemma stop_keeps: "transport_inv t \<Longrightarrow> transport_inv (transport_stop t e) \<and> stopped_as t (transport_stop t e)"
  by (auto simp: transport_stop_def transport_inv_def stopped_as_def)

lemma Dispatch_keeps: "transport_Dispatch ctx t = (e, t') \<Longrightarrow> transport_inv t \<Longrightarrow> transport_inv t' \<and> stopped_as t t'"
  by (auto simp: transport_Dispatch_def transport_inv_def stopped_as_def split: if_splits option.splits)

lemma Recv_keeps:
  "(r, t') \<in> set (transport_RecvFrame ctx t) \<Longrightarrow> transport_inv t \<Longrightarrow> transport_inv t' \<and> stopped_as t t'"
  by (cases "t_inbound t") (auto simp: transport_RecvFrame_def transport_inv_def stopped_as_def split: if_splits)

text \<open>The poller changes the transport by sending a frame, by stopping it, and by exiting.\<close>

lemma exit_keeps:
  "t_pollStopped t \<noteq> None \<Longrightarrow> transport_inv t \<Longrightarrow>
     transport_inv (fst (poll_exit t p)) \<and> stopped_as t (fst (poll_exit t p))"
  by (auto simp: poll_exit_def transport_inv_def stopped_as_def)

lemma stop_started [simp]: "t_pollStopped (transport_stop t e) = t_pollStopped t"
  by (simp add: transport_stop_def)

definition poll_effect :: "transport \<Rightarrow> transport \<Rightarrow> bool" where
  "poll_effect t t' \<longleftrightarrow> t' = t \<or> t' = t\<lparr>t_pollStopped := Some True\<rparr> \<or>
     (\<exists>f. length (t_inbound t) < inbound_capacity \<and> t' = t\<lparr>t_inbound := t_inbound t @ [f]\<rparr>)"

lemma poll_effect_keeps:
  assumes "poll_effect t t'" "t_pollStopped t \<noteq> None" "transport_inv t"
  shows "transport_inv t' \<and> stopped_as t t' \<and> t_pollStopped t' \<noteq> None"
  using assms by (auto simp: poll_effect_def transport_inv_def stopped_as_def)

lemma top_effect: "poll_top t p = (t', p') \<Longrightarrow> poll_effect t t'"
  by (auto simp: poll_top_def poll_exit_def poll_effect_def split: if_splits)

lemma deliver_effect:
  assumes "(t', p') \<in> set (poll_deliver t p)"
  shows "poll_effect t t'"
proof (cases "po_pc p")
  case (PDeliver ms none)
  then show ?thesis using assms
    by (cases ms) (auto simp: poll_deliver_def poll_exit_def poll_effect_def split: if_splits)
qed (use assms in \<open>simp_all add: poll_deliver_def\<close>)

lemma sleep_effect: "(t', p') \<in> set (poll_sleep t p timer) \<Longrightarrow> poll_effect t t'"
  by (auto simp: poll_sleep_def poll_exit_def poll_effect_def split: if_splits)

lemma response_effect:
  assumes "poll_response t p r now ms' = (t', p')"
  shows "poll_effect t t' \<or> (\<exists>e. t' = fst (poll_exit (transport_stop t e) p))"
proof (cases "isDone (t_pollCancelled t) t")
  case True
  then show ?thesis using assms by (auto simp: poll_response_def poll_exit_def poll_effect_def)
next
  case False
  show ?thesis
  proof (cases r)
    case (Inl e)
    then show ?thesis using assms False by (auto simp: poll_response_def poll_exit_def poll_effect_def split: if_splits)
  next
    case (Inr res)
    then show ?thesis using assms False
      by (auto simp: poll_response_def poll_exit_def poll_effect_def split: option.splits)
  qed
qed

lemma response_keeps:
  assumes "poll_response t p r now ms' = (t', p')" "t_pollStopped t \<noteq> None" "transport_inv t"
  shows "transport_inv t' \<and> stopped_as t t' \<and> t_pollStopped t' \<noteq> None"
  using response_effect [OF assms(1)]
proof
  assume "poll_effect t t'"
  from poll_effect_keeps [OF this assms(2,3)] show ?thesis .
next
  assume "\<exists>e. t' = fst (poll_exit (transport_stop t e) p)"
  then obtain e where t': "t' = (transport_stop t e)\<lparr>t_pollStopped := Some True\<rparr>" by (auto simp: poll_exit_def)
  then have "poll_effect (transport_stop t e) t'" by (simp add: poll_effect_def)
  from poll_effect_keeps [OF this] stop_keeps [OF assms(3), of e] assms(2) show ?thesis
    using stopped_as_trans by auto
qed

text \<open>The transport of a system is well formed, and it has a poller exactly when it was started.\<close>

definition sys_inv :: "transport_sys \<Rightarrow> bool" where
  "sys_inv s \<longleftrightarrow> transport_inv (ts_t s) \<and> (ts_poller s \<noteq> None \<longleftrightarrow> t_pollStopped (ts_t s) \<noteq> None)"

lemma stopped_ops [simp]:
  "transport_Dispatch ctx t = (e, t') \<Longrightarrow> t_pollStopped t' = t_pollStopped t"
  "(r, t') \<in> set (transport_RecvFrame ctx t) \<Longrightarrow> t_pollStopped t' = t_pollStopped t"
  by (auto simp: transport_Dispatch_def transport_RecvFrame_def split: if_splits option.splits list.splits)

lemma sys_step:
  assumes "transport_step s s'" "sys_inv s"
  shows "sys_inv s' \<and> stopped_as (ts_t s) (ts_t s')"
  using assms
proof (induction rule: transport_step.induct)
  case (TStart s launch t')
  then show ?case
    using Start_keeps [OF TStart.hyps] by (auto simp: sys_inv_def transport_Start_def split: if_splits)
next
  case (TClose s)
  then show ?case using stop_keeps [of "ts_t s" None] by (auto simp: sys_inv_def)
next
  case (TDispatch ctx s e t')
  then show ?case using Dispatch_keeps [OF TDispatch.hyps] stopped_ops(1) [OF TDispatch.hyps] by (auto simp: sys_inv_def)
next
  case (TRecv r t' ctx s)
  then show ?case using Recv_keeps [OF TRecv.hyps] stopped_ops(2) [OF TRecv.hyps] by (auto simp: sys_inv_def)
next
  case (TCancel s)
  then show ?case by (auto simp: sys_inv_def transport_inv_def stopped_as_def)
next
  case (TTop s p t' p')
  then show ?case using poll_effect_keeps [OF top_effect [OF TTop.hyps(3)]] by (auto simp: sys_inv_def)
next
  case (TResponse s p r ms' now t' p')
  then show ?case using response_keeps [OF TResponse.hyps(4)] by (auto simp: sys_inv_def)
next
  case (TDeliver s p t' p')
  then show ?case using poll_effect_keeps [OF deliver_effect [OF TDeliver.hyps(2)]] by (auto simp: sys_inv_def)
next
  case (TSleep s p t' p' timer)
  then show ?case using poll_effect_keeps [OF sleep_effect [OF TSleep.hyps(3)]] by (auto simp: sys_inv_def)
qed

lemma sys_steps:
  assumes "transport_steps s s'" "sys_inv s"
  shows "sys_inv s' \<and> stopped_as (ts_t s) (ts_t s')"
  using assms
proof (induction rule: transport_steps.induct)
  case (steps_more s s' s'')
  then show ?case using sys_step [OF steps_more.hyps(2)] stopped_as_trans by blast
qed auto

lemma sys_inv_init [simp]: "sys_inv (transport_init fc d)"
  by (simp add: sys_inv_def transport_inv_def transport_init_def NewHTTPTransport_def)

text \<open>What one move of the poller keeps of its view of the session and of the mailbox.\<close>

definition poll_ok :: "frameContext \<Rightarrow> poller \<Rightarrow> bool" where
  "poll_ok fc p \<longleftrightarrow> lifecycle_ok (poll_kind fc) (fc_SessionID fc) (sl_Deadline (fc_Session fc)) (po_baseline p) \<and>
     po_afterSeq p = fold max (map im_DeliverySeq (po_delivered p)) 0"

definition poll_kept :: "frameContext \<Rightarrow> poller \<Rightarrow> poller \<Rightarrow> bool" where
  "poll_kept fc p p' \<longleftrightarrow> po_afterSeq p \<le> po_afterSeq p' \<and>
     (\<exists>ms. po_delivered p' = po_delivered p @ ms) \<and>
     (poll_kind fc = ''SIGN'' \<and> sl_StartedAt (po_baseline p) \<noteq> None \<longrightarrow>
        sl_StartedAt (po_baseline p') = sl_StartedAt (po_baseline p) \<and>
        sl_ExecutionExpiresAt (po_baseline p') = sl_ExecutionExpiresAt (po_baseline p))"

lemma poll_kept_refl [simp]: "poll_kept fc p p"
  by (simp add: poll_kept_def)

lemma poll_kept_trans: "poll_kept fc p p' \<Longrightarrow> poll_kept fc p' p'' \<Longrightarrow> poll_kept fc p p''"
  by (auto simp: poll_kept_def)

lemma poll_pc_kept [simp]:
  "poll_ok fc (p\<lparr>po_pc := pc\<rparr>) = poll_ok fc p" "poll_kept fc p (p\<lparr>po_pc := pc\<rparr>)"
  by (simp_all add: poll_ok_def poll_kept_def)

lemma validatePolledSession_None:
  assumes "validatePolledSession kind sid prev cur now = None" "\<not> IsZero (sl_Deadline prev)"
  shows "lifecycle_ok kind sid (sl_Deadline prev) cur" "sl_Deadline cur = sl_Deadline prev"
    "kind = ''SIGN'' \<and> sl_StartedAt prev \<noteq> None \<Longrightarrow>
       sl_StartedAt cur = sl_StartedAt prev \<and> sl_ExecutionExpiresAt cur = sl_ExecutionExpiresAt prev"
  using assms by (auto simp: validatePolledSession_def lifecycle_Validate_iff lifecycle_ok_def split: if_splits)

lemma fold_max_snoc: "fold max (xs @ [x]) (a::'a::linorder) = max x (fold max xs a)"
  by simp

lemma lifecycle_deadline: "lifecycle_ok kind sid dl s \<Longrightarrow> \<not> IsZero (sl_Deadline s)"
  by (auto simp: lifecycle_ok_def IsZero_def zero_time_def second_def)

lemma response_poller:
  assumes "poll_response t p r now ms' = (t', p')"
  shows "(\<exists>pc. p' = p\<lparr>po_pc := pc\<rparr>) \<or>
    (\<exists>res :: messagesResult. p' = p\<lparr>po_baseline := mr_Session res, po_pc := PDeliver ms' (mr_Messages res = [])\<rparr> \<and>
       validatePolledSession (poll_kind (t_frameCtx t)) (fc_SessionID (t_frameCtx t)) (po_baseline p) (mr_Session res) now = None)"
proof (cases r)
  case (Inl e)
  then show ?thesis using assms by (auto simp: poll_response_def poll_exit_def split: if_splits)
next
  case (Inr res)
  have "(\<exists>pc. p' = p\<lparr>po_pc := pc\<rparr>) \<or>
      (p' = p\<lparr>po_baseline := mr_Session res, po_pc := PDeliver ms' (mr_Messages res = [])\<rparr> \<and>
       validatePolledSession (poll_kind (t_frameCtx t)) (fc_SessionID (t_frameCtx t)) (po_baseline p) (mr_Session res) now = None)"
    using assms Inr by (auto simp: poll_response_def poll_exit_def split: if_splits option.splits)
  then show ?thesis by blast
qed

lemma response_poll:
  assumes "poll_response t p r now ms' = (t', p')" "poll_ok (t_frameCtx t) p"
    and fc: "sl_Deadline (po_baseline p) = sl_Deadline (fc_Session (t_frameCtx t))"
  shows "poll_ok (t_frameCtx t) p' \<and> poll_kept (t_frameCtx t) p p' \<and>
    sl_Deadline (po_baseline p') = sl_Deadline (fc_Session (t_frameCtx t))"
proof (cases "\<exists>pc. p' = p\<lparr>po_pc := pc\<rparr>")
  case True
  then show ?thesis using assms by auto
next
  case False
  then obtain res :: messagesResult where res: "p' = p\<lparr>po_baseline := mr_Session res, po_pc := PDeliver ms' (mr_Messages res = [])\<rparr>"
    "validatePolledSession (poll_kind (t_frameCtx t)) (fc_SessionID (t_frameCtx t)) (po_baseline p) (mr_Session res) now = None"
    using response_poller [OF assms(1)] by blast
  have "\<not> IsZero (sl_Deadline (po_baseline p))" using assms(2) lifecycle_deadline by (auto simp: poll_ok_def)
  note v = validatePolledSession_None [OF res(2) this]
  show ?thesis using v assms(2) fc unfolding res(1) by (auto simp: poll_ok_def poll_kept_def)
qed

lemma deliver_poll:
  assumes "(t', p') \<in> set (poll_deliver t p)" "poll_ok fc p"
  shows "poll_ok fc p' \<and> poll_kept fc p p' \<and> po_baseline p' = po_baseline p"
proof (cases "po_pc p")
  case (PDeliver ms none)
  then show ?thesis using assms
    by (cases ms) (auto simp: poll_deliver_def poll_exit_def poll_ok_def poll_kept_def max.commute split: if_splits)
qed (use assms in \<open>simp_all add: poll_deliver_def\<close>)

lemma idle_poll:
  assumes "poll_top t p = (t', p') \<or> (t', p') \<in> set (poll_sleep t p timer)"
  shows "\<exists>pc. p' = p\<lparr>po_pc := pc\<rparr>"
  using assms by (auto simp: poll_top_def poll_sleep_def poll_exit_def split: if_splits)

definition sys_poll_ok :: "frameContext \<Rightarrow> transport_sys \<Rightarrow> bool" where
  "sys_poll_ok fc s \<longleftrightarrow> sys_inv s \<and> t_frameCtx (ts_t s) = fc \<and>
     (\<forall>p. ts_poller s = Some p \<longrightarrow> poll_ok fc p \<and> sl_Deadline (po_baseline p) = sl_Deadline (fc_Session fc))"

definition polls_kept :: "frameContext \<Rightarrow> transport_sys \<Rightarrow> transport_sys \<Rightarrow> bool" where
  "polls_kept fc s s' \<longleftrightarrow> (\<forall>p. ts_poller s = Some p \<longrightarrow> (\<exists>p'. ts_poller s' = Some p' \<and> poll_kept fc p p'))"

lemma sys_poll_step:
  assumes "transport_step s s'" "sys_poll_ok fc s"
    and start: "lifecycle_ok (poll_kind fc) (fc_SessionID fc) (sl_Deadline (fc_Session fc)) (fc_Session fc)"
  shows "sys_poll_ok fc s' \<and> polls_kept fc s s'"
proof -
  have inv: "sys_inv s'" "t_frameCtx (ts_t s') = fc"
    using sys_step [OF assms(1)] assms(2) by (auto simp: sys_poll_ok_def stopped_as_def)
  have "(\<forall>p. ts_poller s' = Some p \<longrightarrow> poll_ok fc p \<and> sl_Deadline (po_baseline p) = sl_Deadline (fc_Session fc)) \<and>
      polls_kept fc s s'"
    using assms(1,2) inv
  proof (induction rule: transport_step.induct)
    case (TStart s launch t')
    then show ?case using start
      by (auto simp: sys_poll_ok_def sys_inv_def polls_kept_def transport_Start_def poll_begin_def poll_ok_def
          split: if_splits)
  next
    case (TTop s p t' p')
    then show ?case using idle_poll [of "ts_t s" p t' p'] by (auto simp: sys_poll_ok_def polls_kept_def)
  next
    case (TResponse s p r ms' now t' p')
    then show ?case using response_poll [OF TResponse.hyps(4)] by (auto simp: sys_poll_ok_def polls_kept_def)
  next
    case (TDeliver s p t' p')
    then show ?case using deliver_poll [OF TDeliver.hyps(2), of fc] by (auto simp: sys_poll_ok_def polls_kept_def)
  next
    case (TSleep s p t' p' timer)
    then show ?case using idle_poll [of "ts_t s" p t' p' timer] by (auto simp: sys_poll_ok_def polls_kept_def)
  qed (auto simp: sys_poll_ok_def polls_kept_def)
  then show ?thesis using inv by (simp add: sys_poll_ok_def)
qed

lemma sys_poll_steps:
  assumes "transport_steps s s'" "sys_poll_ok fc s"
    and "lifecycle_ok (poll_kind fc) (fc_SessionID fc) (sl_Deadline (fc_Session fc)) (fc_Session fc)"
  shows "sys_poll_ok fc s' \<and> polls_kept fc s s'"
  using assms
proof (induction rule: transport_steps.induct)
  case (steps_more s s' s'')
  then have "sys_poll_ok fc s'" "polls_kept fc s s'" by auto
  then show ?case
    using sys_poll_step [OF steps_more.hyps(2) _ steps_more.prems(2)] poll_kept_trans unfolding polls_kept_def by meson
qed (simp add: polls_kept_def)

section \<open>Properties\<close>

text \<open>
  C25. Dispatch is linearised against stop: under every interleaving an execution is
  begun at most once, a stopped transport never begins one, keeps its first stop
  reason, and has cancelled an execution begun before; the inbound channel never
  holds more than its capacity.
\<close>

theorem dispatch_at_most_once:
  assumes "transport_steps (transport_init fc d) s"
  shows "t_runs (ts_t s) \<le> 1 \<and> length (t_inbound (ts_t s)) \<le> inbound_capacity \<and>
    (t_done (ts_t s) \<and> t_runs (ts_t s) = 1 \<longrightarrow> t_dispatchCancelled (ts_t s)) \<and>
    (\<forall>s'. transport_steps s s' \<and> t_done (ts_t s) \<longrightarrow>
       t_done (ts_t s') \<and> t_err (ts_t s') = t_err (ts_t s) \<and> t_runs (ts_t s') = t_runs (ts_t s))"
proof -
  have inv: "sys_inv s" using sys_steps [OF assms] by simp
  have "t_done (ts_t s') \<and> t_err (ts_t s') = t_err (ts_t s) \<and> t_runs (ts_t s') = t_runs (ts_t s)"
    if "transport_steps s s'" "t_done (ts_t s)" for s'
    using sys_steps [OF that(1) inv] that(2) by (simp add: stopped_as_def)
  then show ?thesis using inv by (auto simp: sys_inv_def transport_inv_def)
qed

definition ex_frame_ctx :: frameContext where
  "ex_frame_ctx = \<lparr>fc_Session = ex_session, fc_IntentID = ''i1'', fc_OrgID = ''o'', fc_SessionID = ''s1'',
     fc_Stage = ''sign'', fc_Protocol = ''gg''\<rparr>"

definition ex_transport :: transport_sys where
  "ex_transport = (transport_init ex_frame_ctx 1)\<lparr>ts_t :=
     (NewHTTPTransport ex_frame_ctx 1)\<lparr>t_dispatched := True, t_runs := 1\<rparr>\<rparr>"

lemma ex_transport_reach: "transport_steps (transport_init ex_frame_ctx 1) ex_transport"
proof -
  have "transport_Dispatch None (NewHTTPTransport ex_frame_ctx 1) =
      (None, (NewHTTPTransport ex_frame_ctx 1)\<lparr>t_dispatched := True, t_runs := 1\<rparr>)"
    by (simp add: transport_Dispatch_def NewHTTPTransport_def)
  then show ?thesis unfolding ex_transport_def
    by (intro steps_more [OF steps_refl] TDispatch [of None]) (simp add: transport_init_def)
qed

theorem dispatch_at_most_once_witness:
  "t_runs (ts_t ex_transport) = 1 \<and> t_runs (ts_t ex_transport) \<le> 1 \<and> length (t_inbound (ts_t ex_transport)) \<le> inbound_capacity"
  using dispatch_at_most_once [OF ex_transport_reach] by (simp add: ex_transport_def)


definition ex_polling :: transport_sys where
  "ex_polling = \<lparr>ts_t = (NewHTTPTransport ex_frame_ctx 1)\<lparr>t_pollStopped := Some False\<rparr>,
     ts_poller = Some (poll_begin ex_frame_ctx)\<rparr>"


text \<open>
  The mailbox cursor of the poller is the largest delivery number it has put
  into the inbound channel, 0 before the first: it never moves back, and everything
  delivered so far lies at or below it, so it is not asked for again.
\<close>

theorem cursor_is_last_delivered:
  assumes "transport_steps (transport_init fc d) s" "ts_poller s = Some p" "transport_steps s s'"
    and "lifecycle_ok (poll_kind fc) (fc_SessionID fc) (sl_Deadline (fc_Session fc)) (fc_Session fc)"
  shows "(\<forall>m\<in>set (po_delivered p). im_DeliverySeq m \<le> po_afterSeq p) \<and>
    (po_afterSeq p = 0 \<or> po_afterSeq p \<in> im_DeliverySeq ` set (po_delivered p)) \<and>
    (\<exists>p'. ts_poller s' = Some p' \<and> po_afterSeq p \<le> po_afterSeq p' \<and>
       (\<exists>ms. po_delivered p' = po_delivered p @ ms))"
proof -
  have fold: "(\<forall>x\<in>set xs. x \<le> fold max xs a) \<and> a \<le> fold max xs a \<and> (fold max xs a = a \<or> fold max xs a \<in> set xs)"
    for xs :: "u64 list" and a
  proof (induction xs arbitrary: a)
    case (Cons x xs)
    show ?case using Cons.IH [of "max x a"] by (auto simp: max_def split: if_splits)
  qed simp
  have "sys_poll_ok fc (transport_init fc d)"
    using sys_inv_init by (simp add: sys_poll_ok_def transport_init_def NewHTTPTransport_def)
  with assms have ok: "sys_poll_ok fc s" using sys_poll_steps by metis
  with assms have "polls_kept fc s s'" using sys_poll_steps by metis
  then have "\<exists>p'. ts_poller s' = Some p' \<and> po_afterSeq p \<le> po_afterSeq p' \<and>
      (\<exists>ms. po_delivered p' = po_delivered p @ ms)"
    using assms(2) by (auto simp: polls_kept_def poll_kept_def)
  moreover have "po_afterSeq p = fold max (map im_DeliverySeq (po_delivered p)) 0"
    using ok assms(2) by (auto simp: sys_poll_ok_def poll_ok_def)
  ultimately show ?thesis using fold [where xs = "map im_DeliverySeq (po_delivered p)" and a = 0] by force
qed


end
