(* ===== verification/Permits.thy ===== *)
theory Permits
  imports Prelude
begin

text \<open>
  Concurrency permits of the scheduler (\<open>src/internal/worker/permits.go\<close>): the
  pool is a buffered channel of slots, a token gives its slot back once, a lease
  bundles the tokens of one job. A receive on an empty channel blocks; releasing
  is therefore partial (\<^term>\<open>None\<close> is "blocks"), and that it never blocks is
  proved. The gauge \<open>metrics.SetDKGGuard\<close> is left out.
\<close>

section \<open>Pool and tokens\<close>

record permitPool =
  pp_capacity :: nat
  pp_slots :: nat

definition newPermitPool :: "int \<Rightarrow> permitPool" where
  "newPermitPool capacity =
     (let c = (if capacity < 1 then 1 else capacity) in \<lparr>pp_capacity = nat c, pp_slots = 0\<rparr>)"

record permitToken =
  pt_once :: bool

text \<open>Sending to and receiving from the slot channel; \<^term>\<open>None\<close> when the channel is not ready.\<close>

definition send_slot :: "permitPool \<Rightarrow> permitPool option" where
  "send_slot p = (if pp_slots p < pp_capacity p then Some (p\<lparr>pp_slots := pp_slots p + 1\<rparr>) else None)"

definition recv_slot :: "permitPool \<Rightarrow> permitPool option" where
  "recv_slot p = (if 0 < pp_slots p then Some (p\<lparr>pp_slots := pp_slots p - 1\<rparr>) else None)"

definition tryAcquire :: "permitPool \<Rightarrow> permitToken option \<times> permitPool" where
  "tryAcquire p =
     (case send_slot p of Some p' \<Rightarrow> (Some \<lparr>pt_once = False\<rparr>, p') | None \<Rightarrow> (None, p))"

text \<open>\<open>release\<close> on a nil token does nothing; on a live one the \<open>once\<close> body runs one time.\<close>

definition token_release :: "permitToken option \<Rightarrow> permitPool \<Rightarrow> (permitToken option \<times> permitPool) option" where
  "token_release t p =
     (case t of
        None \<Rightarrow> Some (None, p)
      | Some tok \<Rightarrow>
          if pt_once tok then Some (Some tok, p)
          else (case recv_slot p of
                  None \<Rightarrow> None
                | Some p' \<Rightarrow> Some (Some (tok\<lparr>pt_once := True\<rparr>), p')))"

section \<open>Scheduler permits and leases\<close>

text \<open>\<open>sp_wakeup\<close> is the content of the one-place wake-up channel shared with the scheduler.\<close>

record schedulerPermits =
  sp_general :: permitPool
  sp_dkg :: permitPool
  sp_wakeup :: bool

definition newSchedulerPermits :: "int \<Rightarrow> schedulerPermits" where
  "newSchedulerPermits maxConcurrent =
     \<lparr>sp_general = newPermitPool maxConcurrent, sp_dkg = newPermitPool 1, sp_wakeup = False\<rparr>"

record jobPermitLease =
  jl_general :: "permitToken option"
  jl_dkg :: "permitToken option"
  jl_once :: bool

definition tryAcquireSIGN :: "schedulerPermits \<Rightarrow> jobPermitLease option \<times> schedulerPermits" where
  "tryAcquireSIGN p =
     (case tryAcquire (sp_general p) of
        (None, g) \<Rightarrow> (None, p\<lparr>sp_general := g\<rparr>)
      | (Some general, g) \<Rightarrow>
          (Some \<lparr>jl_general = Some general, jl_dkg = None, jl_once = False\<rparr>, p\<lparr>sp_general := g\<rparr>))"

definition tryAcquireDKG :: "schedulerPermits \<Rightarrow> (jobPermitLease option \<times> schedulerPermits) option" where
  "tryAcquireDKG p =
     (case tryAcquire (sp_dkg p) of
        (None, d) \<Rightarrow> Some (None, p\<lparr>sp_dkg := d\<rparr>)
      | (Some guard, d) \<Rightarrow>
          (case tryAcquire (sp_general p) of
             (None, g) \<Rightarrow>
               (case token_release (Some guard) d of
                  None \<Rightarrow> None
                | Some (_, d') \<Rightarrow> Some (None, p\<lparr>sp_dkg := d', sp_general := g\<rparr>))
           | (Some general, g) \<Rightarrow>
               Some (Some \<lparr>jl_general = Some general, jl_dkg = Some guard, jl_once = False\<rparr>,
                     p\<lparr>sp_dkg := d, sp_general := g\<rparr>)))"

definition lease_Release :: "jobPermitLease \<Rightarrow> schedulerPermits \<Rightarrow> (jobPermitLease \<times> schedulerPermits) option" where
  "lease_Release l p =
     (if jl_once l then Some (l, p)
      else (case token_release (jl_general l) (sp_general p) of
              None \<Rightarrow> None
            | Some (general, g) \<Rightarrow>
                (case token_release (jl_dkg l) (sp_dkg p) of
                   None \<Rightarrow> None
                 | Some (dkg, d) \<Rightarrow>
                     Some (\<lparr>jl_general = general, jl_dkg = dkg, jl_once = True\<rparr>,
                           p\<lparr>sp_general := g, sp_dkg := d, sp_wakeup := True\<rparr>))))"

section \<open>The contract of a counting semaphore\<close>

text \<open>
  What the leases need of a pool: acquiring succeeds exactly below capacity,
  giving back succeeds exactly while something is held, and both count.
\<close>

locale counting_semaphore =
  fixes acquire :: "'s \<Rightarrow> 's option" and giveback :: "'s \<Rightarrow> 's option"
    and held :: "'s \<Rightarrow> nat" and cap :: "'s \<Rightarrow> nat"
  assumes acquire_iff: "acquire s = None \<longleftrightarrow> \<not> held s < cap s"
    and acquire_counts: "acquire s = Some s' \<Longrightarrow> held s' = Suc (held s) \<and> cap s' = cap s"
    and giveback_iff: "giveback s = None \<longleftrightarrow> held s = 0"
    and giveback_counts: "giveback s = Some s' \<Longrightarrow> held s = Suc (held s') \<and> cap s' = cap s"
begin

lemma acquire_bound: "acquire s = Some s' \<Longrightarrow> held s' \<le> cap s'"
  using acquire_iff [of s] acquire_counts by fastforce

lemma acquire_cases:
  obtains (full) "acquire s = None" "held s \<ge> cap s"
  | (got) s' where "acquire s = Some s'" "held s < cap s" "held s' = Suc (held s)" "cap s' = cap s"
  using acquire_iff [of s] acquire_counts by (cases "acquire s") auto

lemma giveback_ready: "0 < held s \<Longrightarrow> \<exists>s'. giveback s = Some s' \<and> held s = Suc (held s') \<and> cap s' = cap s"
  using giveback_iff [of s] giveback_counts by (cases "giveback s") auto

end

interpretation pool: counting_semaphore send_slot recv_slot pp_slots pp_capacity
  by unfold_locales (auto simp: send_slot_def recv_slot_def split: if_splits)

section \<open>All leases of a scheduler\<close>

text \<open>The permits with every lease handed out so far; any holder may release at any time, repeatedly.\<close>

type_synonym permit_sys = "schedulerPermits \<times> jobPermitLease list"

inductive permit_step :: "permit_sys \<Rightarrow> permit_sys \<Rightarrow> bool" where
  AcqSIGN: "tryAcquireSIGN p = (Some l, p') \<Longrightarrow> permit_step (p, ls) (p', ls @ [l])"
| AcqSIGN_full: "tryAcquireSIGN p = (None, p') \<Longrightarrow> permit_step (p, ls) (p', ls)"
| AcqDKG: "tryAcquireDKG p = Some (Some l, p') \<Longrightarrow> permit_step (p, ls) (p', ls @ [l])"
| AcqDKG_full: "tryAcquireDKG p = Some (None, p') \<Longrightarrow> permit_step (p, ls) (p', ls)"
| ReleaseL: "i < length ls \<Longrightarrow> lease_Release (ls ! i) p = Some (l', p') \<Longrightarrow>
    permit_step (p, ls) (p', ls[i := l'])"
| Wakeup_taken: "permit_step (p, ls) (p\<lparr>sp_wakeup := False\<rparr>, ls)"

inductive permit_reach :: "int \<Rightarrow> permit_sys \<Rightarrow> bool" for n where
  permit_init: "permit_reach n (newSchedulerPermits n, [])"
| permit_next: "permit_reach n s \<Longrightarrow> permit_step s s' \<Longrightarrow> permit_reach n s'"

definition active :: "jobPermitLease \<Rightarrow> bool" where
  "active l \<longleftrightarrow> \<not> jl_once l"

definition active_dkg :: "jobPermitLease \<Rightarrow> bool" where
  "active_dkg l \<longleftrightarrow> \<not> jl_once l \<and> jl_dkg l \<noteq> None"

definition lease_wf :: "jobPermitLease \<Rightarrow> bool" where
  "lease_wf l \<longleftrightarrow> jl_general l = Some \<lparr>pt_once = jl_once l\<rparr> \<and>
     jl_dkg l \<in> {None, Some \<lparr>pt_once = jl_once l\<rparr>}"

definition permit_inv :: "int \<Rightarrow> permit_sys \<Rightarrow> bool" where
  "permit_inv n s \<longleftrightarrow> (case s of (p, ls) \<Rightarrow>
     pp_capacity (sp_general p) = nat (max 1 n) \<and> pp_capacity (sp_dkg p) = 1 \<and>
     pp_slots (sp_general p) = length (filter active ls) \<and>
     pp_slots (sp_dkg p) = length (filter active_dkg ls) \<and>
     pp_slots (sp_general p) \<le> pp_capacity (sp_general p) \<and>
     pp_slots (sp_dkg p) \<le> pp_capacity (sp_dkg p) \<and>
     (\<forall>l\<in>set ls. lease_wf l))"

lemma length_filter_update:
  "i < length xs \<Longrightarrow> length (filter P (xs[i := y])) + (if P (xs ! i) then 1 else 0) =
     length (filter P xs) + (if P y then 1 else 0)"
proof (induction xs arbitrary: i)
  case (Cons x xs)
  then show ?case by (cases i) auto
qed simp

lemma length_filter_nth_pos: "i < length xs \<Longrightarrow> P (xs ! i) \<Longrightarrow> 0 < length (filter P xs)"
  by (metis length_greater_0_conv filter_empty_conv nth_mem)

lemma permit_inv_init: "permit_inv n (newSchedulerPermits n, [])"
  by (auto simp: permit_inv_def newSchedulerPermits_def newPermitPool_def Let_def)

text \<open>The result of one release of an unreleased lease, given that its slots are counted.\<close>

lemma lease_Release_ready:
  assumes wf: "lease_wf l" and act: "\<not> jl_once l"
    and g: "0 < pp_slots (sp_general p)" and d: "jl_dkg l \<noteq> None \<Longrightarrow> 0 < pp_slots (sp_dkg p)"
  shows "\<exists>l' p'. lease_Release l p = Some (l', p') \<and> lease_wf l' \<and> jl_once l' \<and>
    (jl_dkg l' = None \<longleftrightarrow> jl_dkg l = None) \<and> sp_wakeup p' \<and>
    pp_slots (sp_general p) = Suc (pp_slots (sp_general p')) \<and>
    pp_capacity (sp_general p') = pp_capacity (sp_general p) \<and>
    pp_slots (sp_dkg p) = pp_slots (sp_dkg p') + (if jl_dkg l = None then 0 else 1) \<and>
    pp_capacity (sp_dkg p') = pp_capacity (sp_dkg p)"
proof -
  from pool.giveback_ready [OF g] obtain g' where g': "recv_slot (sp_general p) = Some g'"
    "pp_slots (sp_general p) = Suc (pp_slots g')" "pp_capacity g' = pp_capacity (sp_general p)" by blast
  show ?thesis
  proof (cases "jl_dkg l")
    case None
    then show ?thesis
      using wf act g' by (simp add: lease_Release_def token_release_def lease_wf_def)
  next
    case (Some t)
    then obtain d' where "recv_slot (sp_dkg p) = Some d'" "pp_slots (sp_dkg p) = Suc (pp_slots d')"
      "pp_capacity d' = pp_capacity (sp_dkg p)"
      using pool.giveback_ready [OF d] by auto
    then show ?thesis
      using Some wf act g' by (simp add: lease_Release_def token_release_def lease_wf_def)
  qed
qed

lemma lease_Release_counted:
  assumes inv: "permit_inv n (p, ls)" and i: "i < length ls"
  shows "\<exists>l' p'. lease_Release (ls ! i) p = Some (l', p') \<and> jl_once l' \<and> permit_inv n (p', ls[i := l'])"
proof (cases "jl_once (ls ! i)")
  case True
  then show ?thesis using inv by (simp add: lease_Release_def)
next
  case False
  have wf: "lease_wf (ls ! i)" using inv i by (auto simp: permit_inv_def)
  have g: "0 < pp_slots (sp_general p)"
    using inv length_filter_nth_pos [OF i, of active] False by (simp add: permit_inv_def active_def)
  have d: "0 < pp_slots (sp_dkg p)" if "jl_dkg (ls ! i) \<noteq> None"
    using inv length_filter_nth_pos [OF i, of active_dkg] False that
    by (simp add: permit_inv_def active_dkg_def)
  obtain l' p' where r: "lease_Release (ls ! i) p = Some (l', p')" "lease_wf l'" "jl_once l'"
    "jl_dkg l' = None \<longleftrightarrow> jl_dkg (ls ! i) = None"
    "pp_slots (sp_general p) = Suc (pp_slots (sp_general p'))"
    "pp_capacity (sp_general p') = pp_capacity (sp_general p)"
    "pp_slots (sp_dkg p) = pp_slots (sp_dkg p') + (if jl_dkg (ls ! i) = None then 0 else 1)"
    "pp_capacity (sp_dkg p') = pp_capacity (sp_dkg p)"
    using lease_Release_ready [OF wf False g] d by metis
  have "permit_inv n (p', ls[i := l'])"
    using inv r False length_filter_update [OF i, of active l'] length_filter_update [OF i, of active_dkg l']
    by (auto simp: permit_inv_def active_def active_dkg_def dest!: set_update_subset_insert [THEN subsetD]
        split: if_splits)
  with r show ?thesis by blast
qed

lemma tryAcquire_cases:
  obtains (full) "tryAcquire p = (None, p)" "pp_slots p \<ge> pp_capacity p"
  | (got) p' where "tryAcquire p = (Some \<lparr>pt_once = False\<rparr>, p')" "pp_slots p < pp_capacity p"
      "pp_slots p' = Suc (pp_slots p)" "pp_capacity p' = pp_capacity p" "recv_slot p' = Some p"
proof (cases rule: pool.acquire_cases [of p])
  case full
  then show ?thesis by (intro that(1)) (simp_all add: tryAcquire_def)
next
  case (got s')
  then show ?thesis
    by (intro that(2) [of s']) (auto simp: tryAcquire_def send_slot_def recv_slot_def)
qed

text \<open>The guard taken by a failed DKG attempt is given back, so a failed attempt changes nothing.\<close>

lemma tryAcquireSIGN_cases:
  obtains (full) "tryAcquireSIGN p = (None, p)" "pp_slots (sp_general p) \<ge> pp_capacity (sp_general p)"
  | (got) g where "tryAcquireSIGN p = (Some \<lparr>jl_general = Some \<lparr>pt_once = False\<rparr>, jl_dkg = None, jl_once = False\<rparr>, p\<lparr>sp_general := g\<rparr>)"
      "pp_slots (sp_general p) < pp_capacity (sp_general p)"
      "pp_slots g = Suc (pp_slots (sp_general p))" "pp_capacity g = pp_capacity (sp_general p)"
proof (cases rule: tryAcquire_cases [of "sp_general p"])
  case full
  then show ?thesis by (intro that(1)) (simp_all add: tryAcquireSIGN_def)
next
  case (got g)
  then show ?thesis by (intro that(2) [of g]) (simp_all add: tryAcquireSIGN_def)
qed

lemma tryAcquireDKG_cases:
  obtains (full) "tryAcquireDKG p = Some (None, p)"
      "pp_slots (sp_dkg p) \<ge> pp_capacity (sp_dkg p) \<or> pp_slots (sp_general p) \<ge> pp_capacity (sp_general p)"
  | (got) g d where "tryAcquireDKG p = Some (Some \<lparr>jl_general = Some \<lparr>pt_once = False\<rparr>,
        jl_dkg = Some \<lparr>pt_once = False\<rparr>, jl_once = False\<rparr>, p\<lparr>sp_dkg := d, sp_general := g\<rparr>)"
      "pp_slots (sp_general p) < pp_capacity (sp_general p)" "pp_slots (sp_dkg p) < pp_capacity (sp_dkg p)"
      "pp_slots g = Suc (pp_slots (sp_general p))" "pp_capacity g = pp_capacity (sp_general p)"
      "pp_slots d = Suc (pp_slots (sp_dkg p))" "pp_capacity d = pp_capacity (sp_dkg p)"
proof (cases rule: tryAcquire_cases [of "sp_dkg p"])
  case full
  then show ?thesis by (intro that(1)) (simp_all add: tryAcquireDKG_def)
next
  case dkg: (got d)
  show ?thesis
  proof (cases rule: tryAcquire_cases [of "sp_general p"])
    case full
    then show ?thesis using dkg by (intro that(1)) (simp_all add: tryAcquireDKG_def token_release_def)
  next
    case (got g)
    then show ?thesis using dkg by (intro that(2) [of g d]) (simp_all add: tryAcquireDKG_def)
  qed
qed

lemma permit_inv_step:
  assumes "permit_inv n s" "permit_step s s'"
  shows "permit_inv n s'"
  using assms(2,1)
proof (induction rule: permit_step.induct)
  case (AcqSIGN p l p' ls)
  then show ?case
    by (cases rule: tryAcquireSIGN_cases [of p]) (auto simp: permit_inv_def active_def active_dkg_def lease_wf_def)
next
  case (AcqSIGN_full p p' ls)
  then show ?case by (cases rule: tryAcquireSIGN_cases [of p]) auto
next
  case (AcqDKG p l p' ls)
  then show ?case
    by (cases rule: tryAcquireDKG_cases [of p]) (auto simp: permit_inv_def active_def active_dkg_def lease_wf_def)
next
  case (AcqDKG_full p p' ls)
  then show ?case by (cases rule: tryAcquireDKG_cases [of p]) auto
next
  case (ReleaseL i ls p l' p')
  then show ?case using lease_Release_counted [OF ReleaseL.prems ReleaseL.hyps(1)] by auto
next
  case (Wakeup_taken p ls)
  then show ?case by (simp add: permit_inv_def)
qed

lemma permit_reach_inv: "permit_reach n s \<Longrightarrow> permit_inv n s"
  by (induction rule: permit_reach.induct) (auto intro: permit_inv_init permit_inv_step)

section \<open>Properties\<close>

text \<open>
  C11. Permits are conserved under every sequence of acquisitions and (repeated)
  releases: the occupied slots are exactly the unreleased leases, so at most
  \<open>max 1 maxConcurrent\<close> jobs and at most one DKG job hold a lease, and releasing
  any lease ever handed out returns at once instead of blocking on the channel.
\<close>

theorem permits_conserved:
  assumes "permit_reach n (p, ls)"
  shows "length (filter active ls) \<le> nat (max 1 n) \<and> length (filter active_dkg ls) \<le> 1 \<and>
    pp_slots (sp_general p) = length (filter active ls) \<and>
    pp_slots (sp_dkg p) = length (filter active_dkg ls) \<and>
    (\<forall>i < length ls. lease_Release (ls ! i) p \<noteq> None)"
  using permit_reach_inv [OF assms] lease_Release_counted [of n p ls]
  by (auto simp: permit_inv_def) fastforce

text \<open>
  C12. A job is refused exactly when there is no room for it: SIGN when all
  general slots are taken, DKG when a DKG job is active or all general slots are
  taken; a refused attempt leaves the permits as they were (the DKG guard taken
  first is put back).
\<close>

theorem permit_refusal_exact:
  assumes "permit_reach n (p, ls)"
  shows "(fst (tryAcquireSIGN p) = None \<longleftrightarrow> length (filter active ls) = nat (max 1 n)) \<and>
    (\<exists>r. tryAcquireDKG p = Some r \<and>
       (fst r = None \<longleftrightarrow> filter active_dkg ls \<noteq> [] \<or> length (filter active ls) = nat (max 1 n)) \<and>
       (fst r = None \<longrightarrow> snd r = p)) \<and>
    (fst (tryAcquireSIGN p) = None \<longrightarrow> snd (tryAcquireSIGN p) = p)"
proof -
  have inv: "pp_capacity (sp_general p) = nat (max 1 n)" "pp_capacity (sp_dkg p) = 1"
    "pp_slots (sp_general p) = length (filter active ls)"
    "pp_slots (sp_dkg p) = length (filter active_dkg ls)"
    "pp_slots (sp_general p) \<le> pp_capacity (sp_general p)"
    using permit_reach_inv [OF assms] by (simp_all add: permit_inv_def)
  have "fst (tryAcquireSIGN p) = None \<longleftrightarrow> length (filter active ls) = nat (max 1 n)"
    "fst (tryAcquireSIGN p) = None \<longrightarrow> snd (tryAcquireSIGN p) = p"
    using inv by (cases rule: tryAcquireSIGN_cases [of p]; force)+
  moreover have dkg: "filter active_dkg ls \<noteq> [] \<longleftrightarrow> pp_capacity (sp_dkg p) \<le> pp_slots (sp_dkg p)"
    using inv(2,4) by (cases "filter active_dkg ls") simp_all
  moreover have "\<exists>r. tryAcquireDKG p = Some r \<and>
       (fst r = None \<longleftrightarrow> filter active_dkg ls \<noteq> [] \<or> length (filter active ls) = nat (max 1 n)) \<and>
       (fst r = None \<longrightarrow> snd r = p)"
    unfolding dkg using inv(1,3,5) by (cases rule: tryAcquireDKG_cases [of p]) auto
  ultimately show ?thesis by blast
qed

text \<open>Two leases on two slots, one of them released twice.\<close>

definition ex_permits :: permit_sys where
  "ex_permits = (let p0 = newSchedulerPermits 2; r1 = the (tryAcquireDKG p0); l1 = the (fst r1);
     r2 = tryAcquireSIGN (snd r1); l2 = the (fst r2); r3 = the (lease_Release l1 (snd r2))
     in (snd r3, [fst r3, l2]))"

lemma ex_permits_reach: "permit_reach 2 ex_permits"
proof -
  let ?r1 = "the (tryAcquireDKG (newSchedulerPermits 2))"
  let ?r2 = "tryAcquireSIGN (snd ?r1)"
  let ?r3 = "the (lease_Release (the (fst ?r1)) (snd ?r2))"
  have "permit_reach 2 (snd ?r1, [] @ [the (fst ?r1)])"
    by (rule permit_next [OF permit_init AcqDKG]) code_simp
  then have "permit_reach 2 (snd ?r2, ([] @ [the (fst ?r1)]) @ [the (fst ?r2)])"
    by (rule permit_next [OF _ AcqSIGN]) code_simp
  then have "permit_reach 2 (snd ?r3, (([] @ [the (fst ?r1)]) @ [the (fst ?r2)])[0 := fst ?r3])"
    by (rule permit_next [OF _ ReleaseL]) code_simp+
  then show ?thesis by (simp add: ex_permits_def Let_def)
qed

theorem permits_conserved_witness:
  "length (filter active (snd ex_permits)) \<le> 2 \<and> length (filter active_dkg (snd ex_permits)) \<le> 1 \<and>
   lease_Release (snd ex_permits ! 0) (fst ex_permits) \<noteq> None \<and> length (snd ex_permits) = 2"
proof -
  have "length (snd ex_permits) = 2" by code_simp
  then show ?thesis
    using permits_conserved [of 2 "fst ex_permits" "snd ex_permits"] ex_permits_reach by simp
qed

theorem permit_refusal_exact_witness:
  "fst (tryAcquireSIGN (fst ex_permits)) \<noteq> None"
proof -
  have "length (filter active (snd ex_permits)) = 1" by code_simp
  then show ?thesis
    using permit_refusal_exact [of 2 "fst ex_permits" "snd ex_permits"] ex_permits_reach by simp
qed

end
