(* ===== verification/Scheduler.thy ===== *)
theory Scheduler
  imports Permits Monolith "HOL-Library.Multiset"
begin

text \<open>
  The polling scheduler (\<open>src/internal/worker/scheduler.go\<close>). The decision for one
  listed intent is one function; \<open>sched_step\<close> interleaves the decisions of a batch with
  everything that runs beside the scheduler: sessions giving back their lease and
  ending, the admission switch, wake-ups, and cancellation. Gauges and logs are left
  out. The float factor of the backoff enters as its comparison with 1 and the scaled
  duration it gives, both parameters.
\<close>

section \<open>Kinds and backoff\<close>

datatype intentKind = KindDKG | KindSIGN

definition classifyIntentKind :: "string \<Rightarrow> intentKind option" where
  "classifyIntentKind raw =
     (let t = ToUpper (TrimSpace raw)
      in if t = ''DKG'' then Some KindDKG else if t = ''SIGN'' then Some KindSIGN else None)"

record schedulerConfig =
  cg_SigningDisabled :: bool
  cg_MinInterval :: duration
  cg_MaxInterval :: duration
  cg_FactorGrows :: bool

definition nextBackoff :: "(duration \<Rightarrow> duration) \<Rightarrow> duration \<Rightarrow> schedulerConfig \<Rightarrow> duration" where
  "nextBackoff scaled current cfg =
     (let minI = (if cg_MinInterval cfg \<le> 0 then millisecond else cg_MinInterval cfg);
          current = (if current \<le> 0 then minI else current)
      in if \<not> cg_FactorGrows cfg
         then (let current = (if current < minI then minI else current)
               in if cg_MaxInterval cfg > 0 \<and> current > cg_MaxInterval cfg then cg_MaxInterval cfg else current)
         else (let nxt = scaled current; nxt = (if nxt < minI then minI else nxt)
               in if cg_MaxInterval cfg > 0 \<and> nxt > cg_MaxInterval cfg then cg_MaxInterval cfg else nxt))"

definition max_duration :: duration where
  "max_duration = 2 ^ 63 - 1"

definition oldestPending :: "intent list \<Rightarrow> intentKind \<Rightarrow> time" where
  "oldestPending intents want =
     foldl (\<lambda>oldest i.
       if classifyIntentKind (in_Type i) \<noteq> Some want \<or> IsZero (in_CreatedAt i) then oldest
       else if IsZero oldest \<or> in_CreatedAt i < oldest then in_CreatedAt i else oldest) zero_time intents"

text \<open>In nanoseconds, saturating like \<open>Time.Sub\<close>.\<close>

definition oldestPendingAge :: "intent list \<Rightarrow> intentKind \<Rightarrow> time \<Rightarrow> duration" where
  "oldestPendingAge intents want now =
     (let oldest = oldestPending intents want
      in if IsZero oldest then 0 else max 0 (min max_duration (now - oldest)))"

section \<open>State\<close>

text \<open>A launched session: its lease, and whether its goroutine has ended.\<close>

record job =
  jb_kind :: intentKind
  jb_intentID :: string
  jb_lease :: jobPermitLease
  jb_ended :: bool

record scheduler =
  sd_cfg :: schedulerConfig
  sd_permits :: schedulerPermits
  sd_dkgAdmissionOpen :: bool
  sd_inFlight :: "string list"

definition NewScheduler :: "schedulerConfig \<Rightarrow> int \<Rightarrow> scheduler" where
  "NewScheduler cfg maxConcurrent =
     \<lparr>sd_cfg = cfg, sd_permits = newSchedulerPermits (if maxConcurrent \<le> 0 then 1 else maxConcurrent),
      sd_dkgAdmissionOpen = False, sd_inFlight = []\<rparr>"

definition Wake :: "scheduler \<Rightarrow> scheduler" where
  "Wake s = s\<lparr>sd_permits := (sd_permits s)\<lparr>sp_wakeup := True\<rparr>\<rparr>"

definition SetDKGAdmissionOpen :: "bool \<Rightarrow> scheduler \<Rightarrow> scheduler" where
  "SetDKGAdmissionOpen opn s =
     (let s = s\<lparr>sd_dkgAdmissionOpen := opn\<rparr> in if opn then Wake s else s)"

text \<open>An empty id is not tracked: the reservation succeeds and its release does nothing.\<close>

definition reserveIntentID :: "string \<Rightarrow> scheduler \<Rightarrow> scheduler option" where
  "reserveIntentID i s =
     (if i = '''' then Some s
      else if i \<in> set (sd_inFlight s) then None
      else Some (s\<lparr>sd_inFlight := i # sd_inFlight s\<rparr>))"

definition releaseIntent :: "string \<Rightarrow> scheduler \<Rightarrow> scheduler" where
  "releaseIntent i s = (if i = '''' then s else s\<lparr>sd_inFlight := remove1 i (sd_inFlight s)\<rparr>)"

text \<open>
  One turn of the loop of \<open>dispatchBatch\<close>: the flag \<open>dkgConsidered\<close>, the session it
  launches if any, the scheduler. \<open>provisioningReady\<close> is what the hint says. None is
  blocking on a permit channel, which does not happen.
\<close>

definition admit ::
  "intentKind \<Rightarrow> string \<Rightarrow> (jobPermitLease option \<times> schedulerPermits) option \<Rightarrow> scheduler \<Rightarrow>
   (job option \<times> scheduler) option" where
  "admit kind i acquired s =
     (case acquired of
        None \<Rightarrow> None
      | Some (None, p) \<Rightarrow> Some (None, releaseIntent i (s\<lparr>sd_permits := p\<rparr>))
      | Some (Some l, p) \<Rightarrow>
          Some (Some \<lparr>jb_kind = kind, jb_intentID = i, jb_lease = l, jb_ended = False\<rparr>, s\<lparr>sd_permits := p\<rparr>))"

definition dispatch_intent ::
  "bool \<Rightarrow> bool \<Rightarrow> intent \<Rightarrow> scheduler \<Rightarrow> (bool \<times> job option \<times> scheduler) option" where
  "dispatch_intent provisioningReady dkgConsidered i s =
     (case classifyIntentKind (in_Type i) of
        None \<Rightarrow> Some (dkgConsidered, None, s)
      | Some KindDKG \<Rightarrow>
          if dkgConsidered then Some (dkgConsidered, None, s)
          else if \<not> sd_dkgAdmissionOpen s then Some (True, None, s)
          else if \<not> provisioningReady then Some (True, None, s)
          else (case reserveIntentID (in_IntentID i) s of
                  None \<Rightarrow> Some (True, None, s)
                | Some s' \<Rightarrow> map_option (Pair True) (admit KindDKG (in_IntentID i) (tryAcquireDKG (sd_permits s')) s'))
      | Some KindSIGN \<Rightarrow>
          if cg_SigningDisabled (sd_cfg s) then Some (dkgConsidered, None, s)
          else (case reserveIntentID (in_IntentID i) s of
                  None \<Rightarrow> Some (dkgConsidered, None, s)
                | Some s' \<Rightarrow> map_option (Pair dkgConsidered)
                    (admit KindSIGN (in_IntentID i) (Some (tryAcquireSIGN (sd_permits s'))) s')))"

section \<open>Interleaving\<close>

text \<open>
  The scheduler with all sessions launched so far and the batch being dispatched (its
  rest, the flag, and the kinds launched by it).
\<close>

record sched_sys =
  ss_sched :: scheduler
  ss_jobs :: "job list"
  ss_batch :: "(intent list \<times> bool \<times> intentKind list) option"

inductive sched_step :: "sched_sys \<Rightarrow> sched_sys \<Rightarrow> bool" where
  SPoll: "ss_batch s = None \<Longrightarrow>
    sched_step s (s\<lparr>ss_batch := Some (intents, False, []),
      ss_sched := (ss_sched s)\<lparr>sd_permits := (sd_permits (ss_sched s))\<lparr>sp_wakeup := False\<rparr>\<rparr>\<rparr>)"
| SReturn: "sched_step s (s\<lparr>ss_batch := None\<rparr>)"
| SSkip: "\<lbrakk>ss_batch s = Some (i # rest, considered, launched);
      dispatch_intent ready considered i (ss_sched s) = Some (considered', None, sd')\<rbrakk> \<Longrightarrow>
    sched_step s (s\<lparr>ss_sched := sd', ss_batch := Some (rest, considered', launched)\<rparr>)"
| SLaunch: "\<lbrakk>ss_batch s = Some (i # rest, considered, launched);
      dispatch_intent ready considered i (ss_sched s) = Some (considered', Some j, sd')\<rbrakk> \<Longrightarrow>
    sched_step s (s\<lparr>ss_sched := sd', ss_jobs := ss_jobs s @ [j],
      ss_batch := Some (rest, considered', jb_kind j # launched)\<rparr>)"
| SRelease: "\<lbrakk>k < length (ss_jobs s); lease_Release (jb_lease (ss_jobs s ! k)) (sd_permits (ss_sched s)) = Some (l', p')\<rbrakk> \<Longrightarrow>
    sched_step s (s\<lparr>ss_sched := (ss_sched s)\<lparr>sd_permits := p'\<rparr>,
      ss_jobs := (ss_jobs s)[k := (ss_jobs s ! k)\<lparr>jb_lease := l'\<rparr>]\<rparr>)"
| SEnd: "\<lbrakk>k < length (ss_jobs s); \<not> jb_ended (ss_jobs s ! k); jl_once (jb_lease (ss_jobs s ! k))\<rbrakk> \<Longrightarrow>
    sched_step s (s\<lparr>ss_sched := releaseIntent (jb_intentID (ss_jobs s ! k)) (ss_sched s),
      ss_jobs := (ss_jobs s)[k := (ss_jobs s ! k)\<lparr>jb_ended := True\<rparr>]\<rparr>)"
| SAdmission: "sched_step s (s\<lparr>ss_sched := SetDKGAdmissionOpen opn (ss_sched s)\<rparr>)"
| SWake: "sched_step s (s\<lparr>ss_sched := Wake (ss_sched s)\<rparr>)"

inductive sched_reach :: "schedulerConfig \<Rightarrow> int \<Rightarrow> sched_sys \<Rightarrow> bool" for cfg n where
  sched_init: "sched_reach cfg n \<lparr>ss_sched = NewScheduler cfg n, ss_jobs = [], ss_batch = None\<rparr>"
| sched_next: "sched_reach cfg n s \<Longrightarrow> sched_step s s' \<Longrightarrow> sched_reach cfg n s'"

section \<open>Invariant\<close>

definition with_id :: "string \<Rightarrow> scheduler \<Rightarrow> scheduler" where
  "with_id i s = (if i = '''' then s else s\<lparr>sd_inFlight := i # sd_inFlight s\<rparr>)"

lemma reserve_Some: "reserveIntentID i s = Some s' \<longleftrightarrow> (i = '''' \<or> i \<notin> set (sd_inFlight s)) \<and> s' = with_id i s"
  by (auto simp: reserveIntentID_def with_id_def)

lemma with_id_simps [simp]:
  "sd_permits (with_id i s) = sd_permits s" "sd_cfg (with_id i s) = sd_cfg s"
  "sd_dkgAdmissionOpen (with_id i s) = sd_dkgAdmissionOpen s"
  "releaseIntent i (with_id i s\<lparr>sd_permits := sd_permits s\<rparr>) = s"
  by (simp_all add: with_id_def releaseIntent_def)

definition fresh_lease :: "intentKind \<Rightarrow> jobPermitLease" where
  "fresh_lease kind = \<lparr>jl_general = Some \<lparr>pt_once = False\<rparr>,
     jl_dkg = (if kind = KindDKG then Some \<lparr>pt_once = False\<rparr> else None), jl_once = False\<rparr>"

text \<open>A decision changes nothing, or it launches one session with a fresh lease and a free id.\<close>

definition launches :: "intentKind \<Rightarrow> intent \<Rightarrow> scheduler \<Rightarrow> job \<Rightarrow> scheduler \<Rightarrow> bool" where
  "launches kind i s j s' \<longleftrightarrow>
     j = \<lparr>jb_kind = kind, jb_intentID = in_IntentID i, jb_lease = fresh_lease kind, jb_ended = False\<rparr> \<and>
     (in_IntentID i = '''' \<or> in_IntentID i \<notin> set (sd_inFlight s)) \<and>
     (\<exists>p'. s' = with_id (in_IntentID i) s\<lparr>sd_permits := p'\<rparr> \<and>
        (case kind of KindDKG \<Rightarrow> tryAcquireDKG (sd_permits s) = Some (Some (fresh_lease kind), p')
         | KindSIGN \<Rightarrow> tryAcquireSIGN (sd_permits s) = (Some (fresh_lease kind), p')))"

lemma admit_DKG:
  assumes "i = '''' \<or> i \<notin> set (sd_inFlight s)"
  shows "admit KindDKG i (tryAcquireDKG (sd_permits (with_id i s))) (with_id i s) = Some (None, s) \<or>
    (\<exists>p'. tryAcquireDKG (sd_permits s) = Some (Some (fresh_lease KindDKG), p') \<and>
       admit KindDKG i (tryAcquireDKG (sd_permits (with_id i s))) (with_id i s) =
         Some (Some \<lparr>jb_kind = KindDKG, jb_intentID = i, jb_lease = fresh_lease KindDKG, jb_ended = False\<rparr>,
               with_id i s\<lparr>sd_permits := p'\<rparr>))"
proof (cases rule: tryAcquireDKG_cases [of "sd_permits s"])
  case full
  then show ?thesis by (simp add: admit_def)
next
  case (got g d)
  then show ?thesis by (simp add: admit_def fresh_lease_def)
qed

lemma admit_SIGN:
  assumes "i = '''' \<or> i \<notin> set (sd_inFlight s)"
  shows "admit KindSIGN i (Some (tryAcquireSIGN (sd_permits (with_id i s)))) (with_id i s) = Some (None, s) \<or>
    (\<exists>p'. tryAcquireSIGN (sd_permits s) = (Some (fresh_lease KindSIGN), p') \<and>
       admit KindSIGN i (Some (tryAcquireSIGN (sd_permits (with_id i s)))) (with_id i s) =
         Some (Some \<lparr>jb_kind = KindSIGN, jb_intentID = i, jb_lease = fresh_lease KindSIGN, jb_ended = False\<rparr>,
               with_id i s\<lparr>sd_permits := p'\<rparr>))"
proof (cases rule: tryAcquireSIGN_cases [of "sd_permits s"])
  case full
  then show ?thesis by (simp add: admit_def)
next
  case (got g)
  then show ?thesis by (simp add: admit_def fresh_lease_def)
qed

lemma dispatch_cases:
  obtains (skip) c' where "dispatch_intent ready c i s = Some (c', None, s)" "c \<Longrightarrow> c'"
  | (dkg) j s' where "dispatch_intent ready c i s = Some (True, Some j, s')" "launches KindDKG i s j s'"
      "classifyIntentKind (in_Type i) = Some KindDKG" "\<not> c" "sd_dkgAdmissionOpen s" "ready"
  | (sign) j s' where "dispatch_intent ready c i s = Some (c, Some j, s')" "launches KindSIGN i s j s'"
      "classifyIntentKind (in_Type i) = Some KindSIGN" "\<not> cg_SigningDisabled (sd_cfg s)"
proof (cases "classifyIntentKind (in_Type i)")
  case None
  then show ?thesis using skip [of c] by (simp add: dispatch_intent_def)
next
  case kind: (Some kind)
  show ?thesis
  proof (cases kind)
    case KindDKG
    show ?thesis
    proof (cases "c \<or> \<not> sd_dkgAdmissionOpen s \<or> \<not> ready \<or> reserveIntentID (in_IntentID i) s = None")
      case True
      then show ?thesis using skip [of True] skip [of c] kind KindDKG by (auto simp: dispatch_intent_def)
    next
      case False
      then obtain s' where s': "reserveIntentID (in_IntentID i) s = Some s'" by auto
      note r = this [unfolded reserve_Some]
      show ?thesis
        using admit_DKG [of "in_IntentID i" s] r False kind KindDKG s' skip [of True] dkg
        by (auto simp: dispatch_intent_def launches_def)
    qed
  next
    case KindSIGN
    show ?thesis
    proof (cases "cg_SigningDisabled (sd_cfg s) \<or> reserveIntentID (in_IntentID i) s = None")
      case True
      then show ?thesis using skip [of c] kind KindSIGN by (auto simp: dispatch_intent_def)
    next
      case False
      then obtain s' where s': "reserveIntentID (in_IntentID i) s = Some s'" by auto
      note r = this [unfolded reserve_Some]
      show ?thesis
        using admit_SIGN [of "in_IntentID i" s] r False kind KindSIGN s' skip [of c] sign
        by (auto simp: dispatch_intent_def launches_def)
    qed
  qed
qed

definition running_ids :: "job list \<Rightarrow> string list" where
  "running_ids js = map jb_intentID (filter (\<lambda>j. \<not> jb_ended j \<and> jb_intentID j \<noteq> '''') js)"

definition job_wf :: "schedulerConfig \<Rightarrow> job \<Rightarrow> bool" where
  "job_wf cfg j \<longleftrightarrow> (jl_dkg (jb_lease j) \<noteq> None \<longleftrightarrow> jb_kind j = KindDKG) \<and>
     (jb_ended j \<longrightarrow> jl_once (jb_lease j)) \<and> (cg_SigningDisabled cfg \<longrightarrow> jb_kind j = KindDKG)"

definition batch_wf :: "(intent list \<times> bool \<times> intentKind list) option \<Rightarrow> bool" where
  "batch_wf b \<longleftrightarrow> (case b of None \<Rightarrow> True | Some (_, considered, launched) \<Rightarrow>
     length (filter (\<lambda>k. k = KindDKG) launched) \<le> (if considered then 1 else 0))"

definition sched_inv :: "schedulerConfig \<Rightarrow> int \<Rightarrow> sched_sys \<Rightarrow> bool" where
  "sched_inv cfg n s \<longleftrightarrow> sd_cfg (ss_sched s) = cfg \<and>
     permit_inv n (sd_permits (ss_sched s), map jb_lease (ss_jobs s)) \<and>
     distinct (sd_inFlight (ss_sched s)) \<and> mset (sd_inFlight (ss_sched s)) = mset (running_ids (ss_jobs s)) \<and>
     (\<forall>j\<in>set (ss_jobs s). job_wf cfg j) \<and> batch_wf (ss_batch s)"

lemma permit_inv_wake [simp]: "permit_inv n (p\<lparr>sp_wakeup := b\<rparr>, ls) = permit_inv n (p, ls)"
  by (simp add: permit_inv_def)

lemma running_ids_snoc:
  "running_ids (js @ [j]) = running_ids js @ (if \<not> jb_ended j \<and> jb_intentID j \<noteq> '''' then [jb_intentID j] else [])"
  by (simp add: running_ids_def)

lemma running_ids_lease [simp]:
  "k < length js \<Longrightarrow> running_ids (js[k := (js ! k)\<lparr>jb_lease := l\<rparr>]) = running_ids js"
proof (induction js arbitrary: k)
  case (Cons j js)
  then show ?case by (cases k) (auto simp: running_ids_def)
qed simp

lemma running_ids_end:
  assumes "k < length js" "\<not> jb_ended (js ! k)"
  shows "mset (running_ids (js[k := (js ! k)\<lparr>jb_ended := True\<rparr>])) =
    mset (running_ids js) - (if jb_intentID (js ! k) = '''' then {#} else {#jb_intentID (js ! k)#})"
  using assms
proof (induction js arbitrary: k)
  case (Cons j js)
  show ?case
  proof (cases k)
    case 0
    then show ?thesis using Cons.prems by (auto simp: running_ids_def)
  next
    case (Suc k')
    have in_ids: "jb_intentID (js ! k') \<noteq> '''' \<Longrightarrow> jb_intentID (js ! k') \<in> set (running_ids js)"
      using Cons.prems Suc nth_mem [of k' js] by (auto simp: running_ids_def)
    show ?thesis
      using Cons.IH [of k'] Cons.prems Suc in_ids by (auto simp: running_ids_def)
  qed
qed simp

lemma sched_inv_launch:
  assumes inv: "sched_inv cfg n s" and l: "launches kind i (ss_sched s) j sd'"
    and wf: "job_wf cfg j" and b: "batch_wf b"
  shows "sched_inv cfg n (s\<lparr>ss_sched := sd', ss_jobs := ss_jobs s @ [j], ss_batch := b\<rparr>)"
proof -
  let ?p = "sd_permits (ss_sched s)" and ?ls = "map jb_lease (ss_jobs s)"
  have step: "permit_step (?p, ?ls) (sd_permits sd', ?ls @ [jb_lease j])"
    using l by (cases kind) (auto simp: launches_def intro: AcqDKG AcqSIGN)
  have "permit_inv n (sd_permits sd', map jb_lease (ss_jobs s @ [j]))"
    using permit_inv_step [OF _ step] inv by (simp add: sched_inv_def)
  moreover have "distinct (sd_inFlight sd') \<and> mset (sd_inFlight sd') = mset (running_ids (ss_jobs s @ [j]))"
    using inv l by (auto simp: sched_inv_def launches_def with_id_def running_ids_snoc)
  moreover have "sd_cfg sd' = cfg" using inv l by (auto simp: sched_inv_def launches_def)
  ultimately show ?thesis using inv wf b by (auto simp: sched_inv_def)
qed

lemma launches_wf:
  "launches kind i s j s' \<Longrightarrow> (cg_SigningDisabled cfg \<Longrightarrow> kind = KindDKG) \<Longrightarrow> job_wf cfg j \<and> jb_kind j = kind"
  by (cases kind) (auto simp: launches_def job_wf_def fresh_lease_def)

lemma sched_inv_step:
  assumes "sched_step s s'" "sched_inv cfg n s"
  shows "sched_inv cfg n s'"
  using assms
proof (induction rule: sched_step.induct)
  case (SPoll s intents)
  then show ?case by (simp add: sched_inv_def batch_wf_def)
next
  case (SReturn s)
  then show ?case by (simp add: sched_inv_def batch_wf_def)
next
  case (SSkip s i rest considered launched ready considered' sd')
  have "sd' = ss_sched s \<and> (considered \<longrightarrow> considered')"
    using SSkip.hyps(2) by (cases rule: dispatch_cases [of ready considered i "ss_sched s"]) auto
  then show ?case using SSkip by (cases considered) (auto simp: sched_inv_def batch_wf_def split: if_splits)
next
  case (SLaunch s i rest considered launched ready considered' j sd')
  have b: "length (filter (\<lambda>k. k = KindDKG) launched) \<le> (if considered then 1 else 0)"
    using SLaunch.prems SLaunch.hyps(1) by (simp add: sched_inv_def batch_wf_def)
  show ?case
  proof (cases rule: dispatch_cases [of ready considered i "ss_sched s"])
    case (skip c')
    then show ?thesis using SLaunch.hyps(2) by simp
  next
    case (dkg j' s')
    then have "launches KindDKG i (ss_sched s) j sd'" "considered'" using SLaunch.hyps(2) by auto
    then show ?thesis using sched_inv_launch [OF SLaunch.prems] launches_wf b dkg(4)
      by (simp add: batch_wf_def)
  next
    case (sign j' s')
    then have l: "launches KindSIGN i (ss_sched s) j sd'" "considered' = considered" using SLaunch.hyps(2) by auto
    have "sd_cfg (ss_sched s) = cfg" using SLaunch.prems by (simp add: sched_inv_def)
    then have "job_wf cfg j \<and> jb_kind j = KindSIGN" using launches_wf [OF l(1), of cfg] sign(4) by blast
    then show ?thesis using sched_inv_launch [OF SLaunch.prems l(1)] b l(2) by (simp add: batch_wf_def)
  qed
next
  case (SRelease k s l' p')
  let ?js = "ss_jobs s"
  have k: "k < length (map jb_lease ?js)" using SRelease.hyps(1) by simp
  have inv: "permit_inv n (sd_permits (ss_sched s), map jb_lease ?js)" using SRelease.prems by (simp add: sched_inv_def)
  obtain l'' p'' where r: "lease_Release (map jb_lease ?js ! k) (sd_permits (ss_sched s)) = Some (l'', p'')" "jl_once l''"
    "permit_inv n (p'', (map jb_lease ?js)[k := l''])"
    using lease_Release_counted [OF inv k] by blast
  then have eq: "l'' = l'" "p'' = p'" using SRelease.hyps k by simp_all
  have dkg: "jl_dkg l' \<noteq> None \<longleftrightarrow> jl_dkg (jb_lease (?js ! k)) \<noteq> None"
    using SRelease.hyps(2) by (auto simp: lease_Release_def token_release_def split: if_splits option.splits)
  have "job_wf cfg ((?js ! k)\<lparr>jb_lease := l'\<rparr>)"
    using SRelease.prems SRelease.hyps(1) r(2) dkg eq by (auto simp: sched_inv_def job_wf_def)
  then have "\<forall>j\<in>set (?js[k := (?js ! k)\<lparr>jb_lease := l'\<rparr>]). job_wf cfg j"
    using SRelease.prems set_update_subset_insert [of ?js k] by (auto simp: sched_inv_def)
  then show ?case
    using SRelease.prems SRelease.hyps(1) r(3) eq by (simp add: sched_inv_def map_update)
next
  case (SEnd k s)
  let ?js = "ss_jobs s" and ?i = "jb_intentID (ss_jobs s ! k)"
  have ids: "mset (sd_inFlight (releaseIntent ?i (ss_sched s))) =
      mset (running_ids (?js[k := (?js ! k)\<lparr>jb_ended := True\<rparr>]))"
    using SEnd.prems running_ids_end [OF SEnd.hyps(1,2)]
    by (auto simp: sched_inv_def releaseIntent_def)
  have lease: "map jb_lease (?js[k := (?js ! k)\<lparr>jb_ended := True\<rparr>]) = map jb_lease ?js"
    using SEnd.hyps(1) by (simp add: map_update list_update_same_conv)
  have "job_wf cfg ((?js ! k)\<lparr>jb_ended := True\<rparr>)"
    using SEnd.prems SEnd.hyps by (auto simp: sched_inv_def job_wf_def)
  then have "\<forall>j\<in>set (?js[k := (?js ! k)\<lparr>jb_ended := True\<rparr>]). job_wf cfg j"
    using SEnd.prems set_update_subset_insert [of ?js k] by (auto simp: sched_inv_def)
  then show ?case using SEnd.prems ids lease
    by (simp add: sched_inv_def) (simp add: releaseIntent_def distinct_remove1)
next
  case (SAdmission s opn)
  then show ?case by (auto simp: sched_inv_def SetDKGAdmissionOpen_def Wake_def Let_def)
next
  case (SWake s)
  then show ?case by (simp add: sched_inv_def Wake_def)
qed

lemma sched_reach_inv: "sched_reach cfg n s \<Longrightarrow> sched_inv cfg n s"
proof (induction rule: sched_reach.induct)
  case sched_init
  have "permit_inv n (newSchedulerPermits (if n \<le> 0 then 1 else n), [])"
    by (auto simp: permit_inv_def newSchedulerPermits_def newPermitPool_def Let_def)
  then show ?case by (simp add: sched_inv_def NewScheduler_def running_ids_def batch_wf_def)
qed (rule sched_inv_step)

section \<open>Properties\<close>

text \<open>
  C27. Under every interleaving of dispatching, releases and ending sessions the
  scheduler runs at most \<open>max 1 maxConcurrent\<close> sessions holding a lease and at most one
  DKG session among them, never two live sessions for one intent id, launches at most
  one DKG session per polled batch, and no SIGN session at all when signing is
  disabled; the ids in flight are exactly those of the sessions not yet ended.
\<close>

theorem scheduler_safe:
  assumes "sched_reach cfg n s"
  shows "length (filter (\<lambda>j. active (jb_lease j)) (ss_jobs s)) \<le> nat (max 1 n) \<and>
    length (filter (\<lambda>j. active (jb_lease j) \<and> jb_kind j = KindDKG) (ss_jobs s)) \<le> 1 \<and>
    distinct (running_ids (ss_jobs s)) \<and>
    set (sd_inFlight (ss_sched s)) = set (running_ids (ss_jobs s)) \<and>
    (cg_SigningDisabled cfg \<longrightarrow> (\<forall>j\<in>set (ss_jobs s). jb_kind j = KindDKG)) \<and>
    (\<forall>rest considered launched. ss_batch s = Some (rest, considered, launched) \<longrightarrow>
       length (filter (\<lambda>k. k = KindDKG) launched) \<le> 1)"
proof -
  note inv = sched_reach_inv [OF assms, unfolded sched_inv_def]
  have p: "permit_inv n (sd_permits (ss_sched s), map jb_lease (ss_jobs s))" using inv by simp
  have "length (filter (\<lambda>j. active (jb_lease j)) (ss_jobs s)) \<le> nat (max 1 n)"
    using p by (simp add: permit_inv_def filter_map o_def)
  moreover have "filter (\<lambda>j. active_dkg (jb_lease j)) (ss_jobs s) =
      filter (\<lambda>j. active (jb_lease j) \<and> jb_kind j = KindDKG) (ss_jobs s)"
    using inv by (intro filter_cong) (auto simp: job_wf_def active_def active_dkg_def)
  then have "length (filter (\<lambda>j. active (jb_lease j) \<and> jb_kind j = KindDKG) (ss_jobs s)) \<le> 1"
    using p by (simp add: permit_inv_def filter_map o_def)
  moreover have "distinct (running_ids (ss_jobs s)) \<and> set (sd_inFlight (ss_sched s)) = set (running_ids (ss_jobs s))"
    using inv by (metis mset_eq_imp_distinct_iff mset_eq_setD)
  moreover have "length (filter (\<lambda>k. k = KindDKG) launched) \<le> 1" if "ss_batch s = Some (rest, considered, launched)"
    for rest considered launched
    using inv that by (cases considered) (simp_all add: batch_wf_def)
  ultimately show ?thesis using inv by (auto simp: job_wf_def)
qed

definition ex_cfg :: schedulerConfig where
  "ex_cfg = \<lparr>cg_SigningDisabled = False, cg_MinInterval = second, cg_MaxInterval = 10 * second, cg_FactorGrows = True\<rparr>"

definition ex_intent :: "string \<Rightarrow> string \<Rightarrow> intent" where
  "ex_intent kind i = (claim_Intent id Some ex_claim)\<lparr>in_Type := kind, in_IntentID := i\<rparr>"

definition ex_sched :: sched_sys where
  "ex_sched = (let s0 = \<lparr>ss_sched = NewScheduler ex_cfg 2, ss_jobs = [], ss_batch = Some ([ex_intent ''SIGN'' ''a''], False, [])\<rparr>;
     d = the (dispatch_intent True False (ex_intent ''SIGN'' ''a'') (ss_sched s0))
     in s0\<lparr>ss_sched := snd (snd d), ss_jobs := [the (fst (snd d))], ss_batch := Some ([], False, [KindSIGN])\<rparr>)"

lemma ex_sched_reach: "sched_reach ex_cfg 2 ex_sched"
proof -
  define d where "d = the (dispatch_intent True False (ex_intent ''SIGN'' ''a'') (NewScheduler ex_cfg 2))"
  define s0 where "s0 = \<lparr>ss_sched = NewScheduler ex_cfg 2, ss_jobs = [], ss_batch = Some ([ex_intent ''SIGN'' ''a''], False, [])\<rparr>"
  have "sched_step \<lparr>ss_sched = NewScheduler ex_cfg 2, ss_jobs = [], ss_batch = None\<rparr> s0"
    using SPoll [of "\<lparr>ss_sched = NewScheduler ex_cfg 2, ss_jobs = [], ss_batch = None\<rparr>" "[ex_intent ''SIGN'' ''a'']"]
    by (simp add: s0_def NewScheduler_def newSchedulerPermits_def)
  then have r0: "sched_reach ex_cfg 2 s0" by (rule sched_next [OF sched_init])
  have "classifyIntentKind ''SIGN'' = Some KindSIGN" by code_simp
  then have "dispatch_intent True False (ex_intent ''SIGN'' ''a'') (NewScheduler ex_cfg 2) =
      Some (False, Some (the (fst (snd d))), snd (snd d)) \<and> jb_kind (the (fst (snd d))) = KindSIGN"
    unfolding d_def
    by (simp add: dispatch_intent_def ex_intent_def ex_cfg_def NewScheduler_def reserveIntentID_def
        newSchedulerPermits_def newPermitPool_def Let_def admit_def tryAcquireSIGN_def tryAcquire_def send_slot_def)
  then have "sched_step s0 (s0\<lparr>ss_sched := snd (snd d), ss_jobs := [the (fst (snd d))], ss_batch := Some ([], False, [KindSIGN])\<rparr>)"
    using SLaunch [of s0 "ex_intent ''SIGN'' ''a''" "[]" False "[]" True False "the (fst (snd d))" "snd (snd d)"]
    by (simp add: s0_def)
  from sched_next [OF r0 this] show ?thesis by (simp add: ex_sched_def Let_def s0_def d_def)
qed

theorem scheduler_safe_witness:
  "length (filter (\<lambda>j. active (jb_lease j)) (ss_jobs ex_sched)) \<le> 2 \<and> length (ss_jobs ex_sched) = 1"
  using scheduler_safe [OF ex_sched_reach] by (simp add: ex_sched_def Let_def)


text \<open>
  The polling backoff stays within its bounds for every factor: never below the
  minimum interval (1 ms when none is configured), never above the maximum when one is
  configured that is not below the minimum, whatever the scaled value is.
\<close>

theorem nextBackoff_bounds:
  assumes "cg_MaxInterval cfg \<le> 0 \<or> (if cg_MinInterval cfg \<le> 0 then millisecond else cg_MinInterval cfg) \<le> cg_MaxInterval cfg"
  shows "(if cg_MinInterval cfg \<le> 0 then millisecond else cg_MinInterval cfg) \<le> nextBackoff scaled current cfg \<and>
    (0 < cg_MaxInterval cfg \<longrightarrow> nextBackoff scaled current cfg \<le> cg_MaxInterval cfg) \<and>
    0 < nextBackoff scaled current cfg"
  using assms by (auto simp: nextBackoff_def Let_def millisecond_def)


end
