(* ===== verification/Terminal.thy ===== *)
theory Terminal
  imports Discovery
begin

text \<open>
  Publication of DKG terminal results (\<open>src/internal/terminal\<close>): retry delays
  (\<open>retry.go\<close>), jobs and the publish loop (\<open>publisher.go\<close>), the single slot
  (\<open>single_slot.go\<close>). Durations are 64-bit in the code; the product that could overflow
  is wrapped here. The jittered delay, a float product, is a parameter; alerts and the
  pauses of the loop are part of its result, metrics are left out.
\<close>

section \<open>Retry delays\<close>

datatype retryKind = RetryTransient | RetryProtocol

record retryConfig =
  rc_InitialDelay :: duration
  rc_MaxDelay :: duration
  rc_ProtocolDelay :: duration
  rc_MaxProtocolDelay :: duration
  rc_JitterZero :: bool

text \<open>Go's integer division truncates toward zero.\<close>

definition quot :: "int \<Rightarrow> int \<Rightarrow> int" where
  "quot a b = sgn a * sgn b * (\<bar>a\<bar> div \<bar>b\<bar>)"

definition cappedExponential :: "duration \<Rightarrow> duration \<Rightarrow> nat \<Rightarrow> duration" where
  "cappedExponential initial maximum attempt =
     (if attempt \<le> 1 then initial
      else (let shift = attempt - 1 in
            if shift \<ge> 63 \<or> initial > quot maximum (2 ^ shift) then maximum
            else (let delay = wrap64 (initial * 2 ^ shift)
                  in if delay > maximum then maximum else delay)))"

definition NewExponentialRetryPolicy_ok :: "retryConfig \<Rightarrow> bool" where
  "NewExponentialRetryPolicy_ok c =
     (\<not> (rc_InitialDelay c \<le> 0 \<or> rc_MaxDelay c < rc_InitialDelay c \<or>
         rc_ProtocolDelay c \<le> 0 \<or> rc_MaxProtocolDelay c < rc_ProtocolDelay c))"

definition NextDelay :: "(duration \<Rightarrow> duration) \<Rightarrow> retryConfig \<Rightarrow> nat \<Rightarrow> retryKind \<Rightarrow> duration" where
  "NextDelay jitter c attempt kind =
     (let initial = (if kind = RetryProtocol then rc_ProtocolDelay c else rc_InitialDelay c);
          maximum = (if kind = RetryProtocol then rc_MaxProtocolDelay c else rc_MaxDelay c);
          delay = cappedExponential initial maximum attempt
      in if delay \<le> 0 \<or> rc_JitterZero c then delay
         else (let jittered = jitter delay
               in if jittered > maximum then maximum else if jittered < 0 then 0 else jittered))"

definition DefaultRetryPolicy :: retryConfig where
  "DefaultRetryPolicy = \<lparr>rc_InitialDelay = 250 * millisecond, rc_MaxDelay = 30 * second, rc_ProtocolDelay = 5 * second,
     rc_MaxProtocolDelay = 120 * second, rc_JitterZero = False\<rparr>"

definition nextAttempt :: "u64 \<Rightarrow> u64" where
  "nextAttempt attempt = (if attempt = - 1 then attempt else attempt + 1)"

section \<open>Jobs\<close>

record artifactInput =
  ar_inPartyID :: string
  ar_inPurpose :: string
  ar_inFingerprint :: bytes

record completedInput =
  ci_IntentID :: string
  ci_SessionID :: string
  ci_KeyID :: string
  ci_DescriptorFingerprint :: bytes
  ci_AccountPublicKey :: bytes
  ci_ChainCodeHash :: bytes
  ci_Primary :: artifactInput
  ci_Recovery :: artifactInput

record tjob =
  tj_intentID :: string
  tj_body :: bytes
  tj_status :: string
  tj_fingerprint :: bytes

text \<open>
  \<open>json.Marshal\<close> copies a raw message without the white space between tokens and with
  the three HTML characters escaped; the flags say whether the position is inside a
  string and right after a backslash.
\<close>

fun compact_html :: "bool \<Rightarrow> bool \<Rightarrow> bytes \<Rightarrow> bytes" where
  "compact_html inStr esc [] = []"
| "compact_html inStr esc (c # cs) =
     (if \<not> inStr \<and> is_ws c then compact_html inStr False cs
      else (if c \<in> {CHR ''<'', CHR ''>'', CHR ''&''} then CHR 0x5C # ''u00'' @ hex_encode [c] else [c]) @
           (if c = CHR 0x22 \<and> \<not> esc then compact_html (\<not> inStr) False cs
            else compact_html inStr (inStr \<and> c = CHR 0x5C \<and> \<not> esc) cs))"

definition request_body :: "bytes \<Rightarrow> bytes \<Rightarrow> bytes" where
  "request_body terminalBytes fingerprint =
     CHR 0x7B # marshal_string ''terminalResult'' @ '':'' @ compact_html False False terminalBytes @ '','' @
     marshal_string ''terminalResultFingerprint'' @ '':'' @ marshal_string (digest_String fingerprint) @ [CHR 0x7D]"

definition newJob ::
  "(bytes \<Rightarrow> bytes) \<Rightarrow> (bytes \<Rightarrow> bytes option) \<Rightarrow> (bytes \<Rightarrow> bool) \<Rightarrow> terminalResultV1 \<Rightarrow> (contract_err, tjob) result" where
  "newJob sha jcs pubkey_ok r =
     bind_res (CanonicalTerminalResultBytes jcs pubkey_ok r) (\<lambda>terminalBytes.
       (let fingerprint = digestFor sha terminalBytes
        in Inr \<lparr>tj_intentID = tr_IntentID r, tj_body = request_body terminalBytes fingerprint,
                tj_status = tr_Status r, tj_fingerprint = fingerprint\<rparr>))"

definition artifact_result :: "artifactInput \<Rightarrow> artifactResultV1" where
  "artifact_result a = \<lparr>ar_ArtifactFingerprint = digest_String (ar_inFingerprint a), ar_PartyID = ar_inPartyID a,
     ar_Purpose = ar_inPurpose a\<rparr>"

definition completed_result :: "completedInput \<Rightarrow> terminalResultV1" where
  "completed_result i = \<lparr>tr_IntentID = ci_IntentID i, tr_KeyID = ci_KeyID i,
     tr_Result = Some \<lparr>cr_AccountPublicKey = hex_encode (ci_AccountPublicKey i),
       cr_Artifacts = [artifact_result (ci_Primary i), artifact_result (ci_Recovery i)],
       cr_ChainCodeHash = digest_String (ci_ChainCodeHash i),
       cr_DescriptorFingerprint = digest_String (ci_DescriptorFingerprint i)\<rparr>,
     tr_ResultKind = ''mpc-dkg-terminal-result'', tr_ResultVersion = 1, tr_SessionID = ci_SessionID i,
     tr_Status = ''COMPLETED''\<rparr>"

definition NewCompletedJob where
  "NewCompletedJob sha jcs pubkey_ok i = newJob sha jcs pubkey_ok (completed_result i)"

definition failed_result :: "string \<Rightarrow> string \<Rightarrow> string \<Rightarrow> terminalResultV1" where
  "failed_result intentID sessionID keyID = \<lparr>tr_IntentID = intentID, tr_KeyID = keyID, tr_Result = None,
     tr_ResultKind = ''mpc-dkg-terminal-result'', tr_ResultVersion = 1, tr_SessionID = sessionID, tr_Status = ''FAILED''\<rparr>"

definition NewFailedJob where
  "NewFailedJob sha jcs pubkey_ok intentID sessionID keyID =
     newJob sha jcs pubkey_ok (failed_result intentID sessionID keyID)"

definition tjob_valid :: "tjob \<Rightarrow> bool" where
  "tjob_valid j = (tj_intentID j \<noteq> '''' \<and> tj_body j \<noteq> [])"

section \<open>Publishing\<close>

record outcome =
  oc_Kind :: string
  oc_AuthoritativeStatus :: string
  oc_AuthoritativeFingerprint :: bytes

definition response_names :: "string list" where
  "response_names = [''authoritativeResultFingerprint'', ''authoritativeStatus'', ''httpStatus'', ''outcome'']"

text \<open>Every reason for refusing a response is the same here: None.\<close>

definition decode_response :: "bytes \<Rightarrow> (string \<times> string \<times> int \<times> string) option" where
  "decode_response body =
     (case json_parse body of
        None \<Rightarrow> None
      | Some v \<Rightarrow>
          (case DecodeClosed response_names v of
             Inl _ \<Rightarrow> None
           | Inr as \<Rightarrow>
               (case (get_string as ''authoritativeResultFingerprint'', get_string as ''authoritativeStatus'',
                      get_int as ''httpStatus'', get_string as ''outcome'') of
                  (Inr fp, Inr st, Inr h, Inr oc) \<Rightarrow> Some (fp, st, h, oc)
                | _ \<Rightarrow> None)))"

definition validateResponse :: "terminalHTTPResponse \<Rightarrow> tjob \<Rightarrow> outcome option" where
  "validateResponse response j =
     (case decode_response (th_Body response) of
        None \<Rightarrow> None
      | Some (fp, status, h, oc) \<Rightarrow>
          if h \<noteq> th_StatusCode response then None
          else if status \<notin> {''COMPLETED'', ''FAILED'', ''TIMED_OUT''} then None
          else (case parseSHA256Digest fp of
                  None \<Rightarrow> None
                | Some fingerprint \<Rightarrow>
                    if th_StatusCode response = 200 then
                      (if oc \<noteq> ''ACCEPTED'' \<and> oc \<noteq> ''EXACT_REPLAY'' then None
                       else if status \<noteq> tj_status j \<or> fingerprint \<noteq> tj_fingerprint j then None
                       else Some \<lparr>oc_Kind = oc, oc_AuthoritativeStatus = status, oc_AuthoritativeFingerprint = fingerprint\<rparr>)
                    else if th_StatusCode response = 409 then
                      (if oc \<noteq> ''TERMINAL_CONFLICT'' then None
                       else Some \<lparr>oc_Kind = oc, oc_AuthoritativeStatus = status, oc_AuthoritativeFingerprint = fingerprint\<rparr>)
                    else None))"

text \<open>
  One turn of the loop: \<open>ctx\<close> is the context error at its top, \<open>post\<close> what posting the
  body gives, \<open>after\<close> the context error seen after a failed post, \<open>sleep\<close> the error of
  the pause.
\<close>

record turn =
  tu_ctx :: "ctx_err option"
  tu_post :: "bytes \<Rightarrow> terminalHTTPResponse \<times> merr err"
  tu_after :: "ctx_err option"
  tu_sleep :: "ctx_err option"

datatype publish_end = Published outcome | Stopped ctx_err

datatype publish_act = Post string bytes | Alert int string | Pause duration

text \<open>The step of one turn: what it does, and how the loop ends if it does.\<close>

definition publish_turn :: "(nat \<Rightarrow> retryKind \<Rightarrow> duration) \<Rightarrow> tjob \<Rightarrow> nat \<Rightarrow> turn \<Rightarrow> publish_act list \<times> publish_end option" where
  "publish_turn delay j attempt t =
     (case tu_ctx t of
        Some e \<Rightarrow> ([], Some (Stopped e))
      | None \<Rightarrow>
          (let retry = (\<lambda>kind. (Pause (delay attempt kind), map_option Stopped (tu_sleep t)));
               post = Post (tj_intentID j) (tj_body j)
           in (case tu_post t (tj_body j) of
                 (response, Some _) \<Rightarrow>
                   (case tu_after t of
                      Some e \<Rightarrow> ([post], Some (Stopped e))
                    | None \<Rightarrow> ([post, fst (retry RetryTransient)], snd (retry RetryTransient)))
               | (response, None) \<Rightarrow>
                   if th_ProtocolViolation response \<noteq> '''' then
                     ([post, Alert (th_StatusCode response) (th_ProtocolViolation response), fst (retry RetryProtocol)],
                      snd (retry RetryProtocol))
                   else if th_StatusCode response \<ge> 500 then
                     ([post, fst (retry RetryTransient)], snd (retry RetryTransient))
                   else if th_StatusCode response = 200 \<or> th_StatusCode response = 409 then
                     (case validateResponse response j of
                        Some oc \<Rightarrow>
                          (post # (if oc_Kind oc = ''TERMINAL_CONFLICT''
                                   then [Alert (th_StatusCode response) ''terminal_conflict''] else []), Some (Published oc))
                      | None \<Rightarrow>
                          ([post, Alert (th_StatusCode response) ''malformed_authoritative_response'',
                            fst (retry RetryProtocol)], snd (retry RetryProtocol)))
                   else ([post, Alert (th_StatusCode response) ''unexpected_http_status'', fst (retry RetryProtocol)],
                         snd (retry RetryProtocol)))))"

text \<open>The loop over the turns so far; None: it is still running.\<close>

fun publish_loop ::
  "(nat \<Rightarrow> retryKind \<Rightarrow> duration) \<Rightarrow> tjob \<Rightarrow> u64 \<Rightarrow> turn list \<Rightarrow> publish_act list \<times> publish_end option" where
  "publish_loop delay j attempt [] = ([], None)"
| "publish_loop delay j attempt (t # ts) =
     (case publish_turn delay j (unat attempt) t of
        (acts, Some r) \<Rightarrow> (acts, Some r)
      | (acts, None) \<Rightarrow>
          (case publish_loop delay j (nextAttempt attempt) ts of (acts', r) \<Rightarrow> (acts @ acts', r)))"

definition Publish ::
  "(nat \<Rightarrow> retryKind \<Rightarrow> duration) \<Rightarrow> tjob \<Rightarrow> turn list \<Rightarrow> (publish_act list \<times> publish_end option) option" where
  "Publish delay j ts = (if \<not> tjob_valid j then None else Some (publish_loop delay j 1 ts))"

section \<open>The single slot\<close>

record singleSlot =
  sg_started :: bool
  sg_occupied :: bool

datatype slot_err = ErrPublisherNotStarted | ErrPublisherAlreadyStarted | ErrPublisherSlotOccupied | ErrJobInvalid | ErrSlotCtx ctx_err

definition slot_Start :: "ctx_err option \<Rightarrow> singleSlot \<Rightarrow> slot_err err \<times> singleSlot" where
  "slot_Start ctx s =
     (if sg_started s then (Some ErrPublisherAlreadyStarted, s)
      else (case ctx of Some e \<Rightarrow> (Some (ErrSlotCtx e), s) | None \<Rightarrow> (None, s\<lparr>sg_started := True\<rparr>)))"

definition slot_Handoff :: "ctx_err option \<Rightarrow> ctx_err option \<Rightarrow> tjob \<Rightarrow> singleSlot \<Rightarrow> slot_err err \<times> singleSlot" where
  "slot_Handoff ctx lifecycle j s =
     (if \<not> tjob_valid j then (Some ErrJobInvalid, s)
      else (case ctx of
              Some e \<Rightarrow> (Some (ErrSlotCtx e), s)
            | None \<Rightarrow>
                if \<not> sg_started s then (Some ErrPublisherNotStarted, s)
                else (case lifecycle of
                        Some e \<Rightarrow> (Some (ErrSlotCtx e), s)
                      | None \<Rightarrow>
                          if sg_occupied s then (Some ErrPublisherSlotOccupied, s)
                          else (None, s\<lparr>sg_occupied := True\<rparr>))))"

definition slot_publication_done :: "singleSlot \<Rightarrow> singleSlot" where
  "slot_publication_done s = s\<lparr>sg_occupied := False\<rparr>"

text \<open>Publications in flight beside the slot.\<close>

inductive slot_step :: "singleSlot \<times> tjob list \<Rightarrow> singleSlot \<times> tjob list \<Rightarrow> bool" where
  LStart: "slot_Start ctx s = (e, s') \<Longrightarrow> slot_step (s, js) (s', js)"
| LHandoff: "slot_Handoff ctx lifecycle j s = (None, s') \<Longrightarrow> slot_step (s, js) (s', j # js)"
| LRefuse: "slot_Handoff ctx lifecycle j s = (Some e, s') \<Longrightarrow> slot_step (s, js) (s', js)"
| LDone: "j \<in> set js \<Longrightarrow> slot_step (s, js) (slot_publication_done s, remove1 j js)"

inductive slot_reach :: "singleSlot \<times> tjob list \<Rightarrow> bool" where
  slot_init: "slot_reach (\<lparr>sg_started = False, sg_occupied = False\<rparr>, [])"
| slot_next: "slot_reach s \<Longrightarrow> slot_step s s' \<Longrightarrow> slot_reach s'"

lemma slot_reach_one: "slot_reach s \<Longrightarrow> length (snd s) = (if sg_occupied (fst s) then 1 else 0) \<and>
    (sg_occupied (fst s) \<longrightarrow> sg_started (fst s))"
proof (induction rule: slot_reach.induct)
  case (slot_next s s')
  from slot_next.hyps(2) slot_next.IH show ?case
  proof (induction rule: slot_step.induct)
    case (LStart ctx s e s' js)
    then show ?case by (auto simp: slot_Start_def split: if_splits option.splits)
  next
    case (LHandoff ctx lifecycle j s s' js)
    then show ?case by (auto simp: slot_Handoff_def split: if_splits option.splits)
  next
    case (LRefuse ctx lifecycle j s e s' js)
    then show ?case by (auto simp: slot_Handoff_def split: if_splits option.splits)
  next
    case (LDone j js s)
    then show ?case by (cases js) (auto simp: slot_publication_done_def split: if_splits)
  qed
qed simp

section \<open>Properties\<close>

lemma int_div_less_iff:
  assumes "0 < (d::int)"
  shows "a div d < i \<longleftrightarrow> a < i * d"
proof
  assume "a div d < i"
  then have "(a div d + 1) * d \<le> i * d" using assms by (intro mult_right_mono) auto
  moreover have "a div d * d + a mod d = a" "a mod d < d" using assms by simp_all
  moreover have "(a div d + 1) * d = a div d * d + d" by (simp add: distrib_right)
  ultimately show "a < i * d" by linarith
next
  assume "a < i * d"
  show "a div d < i"
  proof (rule ccontr)
    assume "\<not> a div d < i"
    then have "i * d \<le> (a div d) * d" using assms by (intro mult_right_mono) auto
    moreover have "a div d * d + a mod d = a" "0 \<le> a mod d" using assms by simp_all
    ultimately show False using \<open>a < i * d\<close> by linarith
  qed
qed

lemma capped_min:
  assumes "0 < initial" "initial \<le> maximum" "maximum < 2 ^ 63" "1 \<le> attempt"
  shows "cappedExponential initial maximum attempt = min (initial * 2 ^ (attempt - 1)) maximum"
proof (cases "attempt = 1")
  case True
  then show ?thesis using assms by (simp add: cappedExponential_def)
next
  case False
  then obtain k where k: "attempt = Suc k" "0 < k" using assms(4) by (cases attempt) auto
  have quot: "quot maximum (2 ^ k) = maximum div 2 ^ k" using assms by (simp add: quot_def)
  have le: "initial > maximum div 2 ^ k \<longleftrightarrow> maximum < initial * 2 ^ k"
    by (rule int_div_less_iff) simp
  show ?thesis
  proof (cases "k \<ge> 63")
    case True
    have "(2::int) ^ 63 \<le> 2 ^ k" using True by (intro power_increasing) auto
    also have "\<dots> \<le> initial * 2 ^ k" using assms(1) by simp
    finally have "maximum < initial * 2 ^ k" using assms(3) by linarith
    then show ?thesis using True k by (simp add: cappedExponential_def Let_def)
  next
    case small: False
    show ?thesis
    proof (cases "maximum < initial * 2 ^ k")
      case True
      then show ?thesis using le quot k by (simp add: cappedExponential_def Let_def)
    next
      case fits: False
      then have "wrap64 (initial * 2 ^ k) = initial * 2 ^ k"
        using assms by (intro wrap64_id) (auto intro: order.trans [of _ 0])
      then show ?thesis using small fits le quot k
        by (simp add: cappedExponential_def Let_def)
    qed
  qed
qed

text \<open>
  C31. The capped exponential delay never overflows: for every attempt number it is
  exactly the smaller of \<open>initial * 2^(attempt-1)\<close> and the cap, and the delay the policy
  returns after jitter lies between 0 and the cap of its kind, whatever the jitter gives.
\<close>

theorem retry_delay_capped:
  assumes "NewExponentialRetryPolicy_ok c" "rc_MaxDelay c < 2 ^ 63" "rc_MaxProtocolDelay c < 2 ^ 63" "1 \<le> attempt"
  shows "cappedExponential (rc_InitialDelay c) (rc_MaxDelay c) attempt =
      min (rc_InitialDelay c * 2 ^ (attempt - 1)) (rc_MaxDelay c) \<and>
    0 \<le> NextDelay jitter c attempt kind \<and>
    NextDelay jitter c attempt kind \<le> (if kind = RetryProtocol then rc_MaxProtocolDelay c else rc_MaxDelay c)"
proof -
  have c: "0 < rc_InitialDelay c" "rc_InitialDelay c \<le> rc_MaxDelay c" "0 < rc_ProtocolDelay c"
    "rc_ProtocolDelay c \<le> rc_MaxProtocolDelay c" using assms(1) by (auto simp: NewExponentialRetryPolicy_ok_def)
  have "0 < (2::int) ^ (attempt - 1)" by simp
  then have "0 < rc_InitialDelay c * 2 ^ (attempt - 1)" "0 < rc_ProtocolDelay c * 2 ^ (attempt - 1)"
    using c(1,3) by (simp_all del: zero_less_power)
  then show ?thesis
    using c assms(2,3,4) capped_min [of "rc_InitialDelay c" "rc_MaxDelay c" attempt]
      capped_min [of "rc_ProtocolDelay c" "rc_MaxProtocolDelay c" attempt]
    by (auto simp: NextDelay_def Let_def)
qed

theorem retry_delay_capped_witness:
  "cappedExponential (250 * millisecond) (30 * second) 200 = 30 * second \<and>
   NextDelay (\<lambda>d. 2 * d) DefaultRetryPolicy 200 RetryTransient \<le> 30 * second"
proof -
  have "NewExponentialRetryPolicy_ok DefaultRetryPolicy" "rc_MaxDelay DefaultRetryPolicy < 2 ^ 63"
    "rc_MaxProtocolDelay DefaultRetryPolicy < 2 ^ 63" by code_simp+
  moreover have "cappedExponential (250 * millisecond) (30 * second) 200 = 30 * second" by code_simp
  ultimately show ?thesis using retry_delay_capped [of DefaultRetryPolicy 200 "\<lambda>d. 2 * d" RetryTransient]
    by (simp add: DefaultRetryPolicy_def)
qed

lemma turn_posts:
  "set (fst (publish_turn delay j a t)) \<inter> {x. \<exists>i b. x = Post i b} \<subseteq> {Post (tj_intentID j) (tj_body j)}"
  by (auto simp: publish_turn_def Let_def split: option.splits prod.splits)

lemma turn_published:
  assumes "publish_turn delay j a t = (acts, Some (Published oc))"
  shows "tu_ctx t = None \<and> snd (tu_post t (tj_body j)) = None \<and>
    validateResponse (fst (tu_post t (tj_body j))) j = Some oc"
  using assms by (auto simp: publish_turn_def Let_def split: option.splits prod.splits if_splits)

lemma validateResponse_confirms:
  assumes "validateResponse r j = Some oc"
  shows "oc_AuthoritativeStatus oc \<in> {''COMPLETED'', ''FAILED'', ''TIMED_OUT''} \<and>
    (oc_Kind oc = ''TERMINAL_CONFLICT'' \<and> th_StatusCode r = 409 \<or>
     oc_Kind oc \<in> {''ACCEPTED'', ''EXACT_REPLAY''} \<and> th_StatusCode r = 200 \<and>
     oc_AuthoritativeStatus oc = tj_status j \<and> oc_AuthoritativeFingerprint oc = tj_fingerprint j)"
  using assms by (auto simp: validateResponse_def split: option.splits prod.splits if_splits)

lemma loop_posts:
  "Post i b \<in> set (fst (publish_loop delay j a ts)) \<Longrightarrow> i = tj_intentID j \<and> b = tj_body j"
proof (induction ts arbitrary: a)
  case (Cons t ts)
  have "Post i b \<in> set (fst (publish_turn delay j (unat a) t)) \<Longrightarrow> i = tj_intentID j \<and> b = tj_body j"
    using turn_posts [of delay j "unat a" t] by blast
  then show ?case using Cons.prems Cons.IH [of "nextAttempt a"] by (auto split: prod.splits option.splits)
qed simp

lemma loop_published:
  assumes "snd (publish_loop delay j a ts) = Some (Published oc)"
  shows "\<exists>t\<in>set ts. tu_ctx t = None \<and> snd (tu_post t (tj_body j)) = None \<and>
    validateResponse (fst (tu_post t (tj_body j))) j = Some oc"
  using assms
proof (induction ts arbitrary: a)
  case (Cons t ts)
  show ?case
  proof (cases "snd (publish_turn delay j (unat a) t)")
    case None
    then have "snd (publish_loop delay j (nextAttempt a) ts) = Some (Published oc)"
      using Cons.prems by (auto split: prod.splits)
    from Cons.IH [OF this] show ?thesis by auto
  next
    case (Some r)
    then have "publish_turn delay j (unat a) t = (fst (publish_turn delay j (unat a) t), Some (Published oc))"
      using Cons.prems by (auto split: prod.splits)
    from turn_published [OF this] show ?thesis by auto
  qed
qed simp


definition quiet :: "turn \<Rightarrow> bool" where
  "quiet t \<longleftrightarrow> tu_ctx t = None \<and> tu_after t = None \<and> tu_sleep t = None"

lemma quiet_turn: "quiet t \<Longrightarrow> snd (publish_turn delay j a t) = None \<or> (\<exists>oc. snd (publish_turn delay j a t) = Some (Published oc))"
  by (auto simp: publish_turn_def quiet_def Let_def split: option.splits prod.splits)

definition authoritative :: "tjob \<Rightarrow> turn \<Rightarrow> bool" where
  "authoritative j t \<longleftrightarrow> tu_ctx t = None \<and>
     (\<exists>r oc. tu_post t (tj_body j) = (r, None) \<and> th_ProtocolViolation r = '''' \<and> validateResponse r j = Some oc)"

lemma authoritative_turn:
  assumes "authoritative j t"
  shows "\<exists>oc. snd (publish_turn delay j a t) = Some (Published oc)"
proof -
  obtain r oc where r: "tu_post t (tj_body j) = (r, None)" "th_ProtocolViolation r = ''''" "validateResponse r j = Some oc"
    "tu_ctx t = None" using assms by (auto simp: authoritative_def)
  then have "th_StatusCode r = 200 \<or> th_StatusCode r = 409" using validateResponse_confirms [OF r(3)] by blast
  then show ?thesis using r by (auto simp: publish_turn_def Let_def)
qed

text \<open>
  C30. Publication completes: as long as its context lives, the first authoritative
  answer ends it with an outcome, however many failed, malformed or refused attempts
  came before.
\<close>

theorem publish_completes:
  assumes "tjob_valid j" "ts = pre @ t # post" "list_all quiet pre" "authoritative j t"
  shows "\<exists>acts oc. Publish delay j ts = Some (acts, Some (Published oc))"
proof -
  have "\<exists>oc. snd (publish_loop delay j a (pre @ t # post)) = Some (Published oc)" for a
    using assms(3)
  proof (induction pre arbitrary: a)
    case Nil
    then show ?case using authoritative_turn [OF assms(4), of delay "unat a"] by (auto split: prod.splits)
  next
    case (Cons u pre)
    then have u: "quiet u" and rest: "\<exists>oc. snd (publish_loop delay j (nextAttempt a) (pre @ t # post)) = Some (Published oc)"
      by auto
    from quiet_turn [OF u, of delay j "unat a"] rest show ?case by (auto split: prod.splits)
  qed
  from this [of 1] show ?thesis using assms(1,2) by (auto simp: Publish_def) (metis prod.collapse)
qed

definition ex_tjob :: tjob where
  "ex_tjob = \<lparr>tj_intentID = ''i1'', tj_body = ''b'', tj_status = ''FAILED'', tj_fingerprint = replicate 32 (CHR 0x00)\<rparr>"

definition ex_reply_json :: json where
  "ex_reply_json = JObj [(''authoritativeResultFingerprint'', JStr (digest_String (replicate 32 (CHR 0x00)))),
     (''authoritativeStatus'', JStr ''FAILED''), (''httpStatus'', JNum ''200''), (''outcome'', JStr ''ACCEPTED'')]"

definition ex_reply :: terminalHTTPResponse where
  "ex_reply = \<lparr>th_StatusCode = 200, th_Body = print_json ex_reply_json, th_ProtocolViolation = ''''\<rparr>"

definition ex_turns :: "turn list" where
  "ex_turns = [\<lparr>tu_ctx = None, tu_post = (\<lambda>_. (ex_reply, Some [SOther])), tu_after = None, tu_sleep = None\<rparr>,
     \<lparr>tu_ctx = None, tu_post = (\<lambda>_. (ex_reply, None)), tu_after = None, tu_sleep = None\<rparr>]"

lemma ex_reply_valid: "\<exists>oc. validateResponse ex_reply ex_tjob = Some oc"
proof -
  have "json_parse (th_Body ex_reply) = Some ex_reply_json"
    unfolding ex_reply_def by (simp, rule json_parse_print) code_simp
  moreover have "DecodeClosed response_names ex_reply_json =
      Inr [(''authoritativeResultFingerprint'', JStr (digest_String (replicate 32 (CHR 0x00)))),
     (''authoritativeStatus'', JStr ''FAILED''), (''httpStatus'', JNum ''200''), (''outcome'', JStr ''ACCEPTED'')]"
    by code_simp
  moreover have "parse_int64 ''200'' = Some 200" by code_simp
  moreover have "parseSHA256Digest (digest_String (replicate 32 (CHR 0x00))) = Some (replicate 32 (CHR 0x00))"
    by (rule parse_digest_String) simp
  ultimately show ?thesis
    by (simp add: validateResponse_def decode_response_def get_string_def get_int_def assigned_def ex_tjob_def)
      (simp add: ex_reply_def)
qed

lemma ex_turns_authoritative: "list_all quiet [ex_turns ! 0]" "authoritative ex_tjob (ex_turns ! 1)" "tjob_valid ex_tjob"
  using ex_reply_valid by (auto simp: quiet_def authoritative_def ex_turns_def tjob_valid_def ex_tjob_def ex_reply_def)

theorem publish_completes_witness:
  "\<exists>acts oc. Publish (\<lambda>_ _. second) ex_tjob ex_turns = Some (acts, Some (Published oc))"
  using publish_completes [OF ex_turns_authoritative(3) _ ex_turns_authoritative(1,2), of ex_turns "[]" "\<lambda>_ _. second"]
  by (simp add: ex_turns_def)


text \<open>
  C32. The single slot holds at most one publication at a time, and none before it is
  started: a hand-off while one is running is refused.
\<close>

theorem single_slot_exclusive:
  assumes "slot_reach (s, js)"
  shows "length js \<le> 1 \<and> (js \<noteq> [] \<longrightarrow> sg_started s \<and>
    (\<forall>ctx lifecycle j. fst (slot_Handoff ctx lifecycle j s) \<noteq> None))"
  using slot_reach_one [OF assms] by (auto simp: slot_Handoff_def split: if_splits option.splits)

theorem single_slot_exclusive_witness:
  "\<forall>ctx lifecycle j. fst (slot_Handoff ctx lifecycle j \<lparr>sg_started = True, sg_occupied = True\<rparr>) \<noteq> None"
proof -
  have "slot_reach (\<lparr>sg_started = True, sg_occupied = False\<rparr>, [])"
    by (rule slot_next [OF slot_init LStart [of None]]) (simp add: slot_Start_def)
  then have "slot_reach (\<lparr>sg_started = True, sg_occupied = True\<rparr>, [ex_tjob])"
    by (rule slot_next [OF _ LHandoff [of None None]]) (simp add: slot_Handoff_def tjob_valid_def ex_tjob_def)
  from single_slot_exclusive [OF this] show ?thesis by simp
qed

end
