(* ===== verification/RawJson.thy ===== *)
theory RawJson
  imports JsonText
begin

text \<open>
  Objects of raw members: what \<open>encoding/json\<close> leaves in a \<open>map[string]json.RawMessage\<close>
  and in a \<open>[]json.RawMessage\<close>. A raw member is the exact text of its value, without the
  white space around it.
\<close>

section \<open>Splitting a text\<close>

type_synonym wobj = "(string \<times> bytes) list"

definition consumed :: "string \<Rightarrow> string \<Rightarrow> string" where
  "consumed s rest = take (length s - length rest) s"

fun raw_items :: "nat \<Rightarrow> string \<Rightarrow> bytes list option" where
  "raw_items 0 s = None"
| "raw_items (Suc n) s =
     (case parse_value n s of
        None \<Rightarrow> None
      | Some (_, r) \<Rightarrow>
          (case skip_ws r of
             x # q \<Rightarrow> if x = CHR '']'' then Some [consumed s r]
                      else if x = CHR '','' then map_option ((#) (consumed s r)) (raw_items n (skip_ws q))
                      else None
           | [] \<Rightarrow> None))"

fun raw_members :: "nat \<Rightarrow> string \<Rightarrow> wobj option" where
  "raw_members 0 s = None"
| "raw_members (Suc n) s =
     (case s of
        [] \<Rightarrow> None
      | c # r0 \<Rightarrow>
          (case parse_string (Suc (length r0)) r0 of
             None \<Rightarrow> None
           | Some (k, r1) \<Rightarrow>
               (let t = skip_ws (tl (skip_ws r1))
                in (case parse_value n t of
                      None \<Rightarrow> None
                    | Some (_, r) \<Rightarrow>
                        (case skip_ws r of
                           y # q \<Rightarrow>
                             if y = CHR ''}'' then Some [(k, consumed t r)]
                             else map_option ((#) (k, consumed t r)) (raw_members n (skip_ws q))
                         | [] \<Rightarrow> None)))))"

text \<open>\<open>json.Unmarshal\<close> of a text into a map and into a slice of raw values; null gives nil.\<close>

definition raw_object :: "bytes \<Rightarrow> wobj option" where
  "raw_object raw = (case json_parse raw of
     Some (JObj []) \<Rightarrow> Some []
   | Some (JObj _) \<Rightarrow> raw_members (Suc (length raw)) (skip_ws (tl (skip_ws raw)))
   | Some JNull \<Rightarrow> Some []
   | _ \<Rightarrow> None)"

definition raw_array :: "bytes \<Rightarrow> bytes list option" where
  "raw_array raw = (case json_parse raw of
     Some (JArr []) \<Rightarrow> Some []
   | Some (JArr _) \<Rightarrow> raw_items (Suc (length raw)) (skip_ws (tl (skip_ws raw)))
   | Some JNull \<Rightarrow> Some []
   | _ \<Rightarrow> None)"

section \<open>Reading members\<close>

text \<open>A later member of the same name replaces an earlier one.\<close>

definition raw_field :: "wobj \<Rightarrow> string \<Rightarrow> bytes option" where
  "raw_field v k = map_of (rev v) k"

definition raw_count :: "wobj \<Rightarrow> nat" where
  "raw_count v = length (remdups (map fst v))"

text \<open>The members of a map decoded into a string, null and every other type leaving it empty.\<close>

definition raw_string :: "bytes option \<Rightarrow> string" where
  "raw_string r = (case Option.bind r json_parse of Some (JStr s) \<Rightarrow> s | _ \<Rightarrow> '''')"

definition closed :: "wobj \<Rightarrow> string list \<Rightarrow> bool" where
  "closed v keys = (raw_count v = length keys \<and> list_all (\<lambda>k. raw_field v k \<noteq> None) keys)"

section \<open>Printed texts split into printed values\<close>

definition printed :: "(string \<times> json) list \<Rightarrow> wobj" where
  "printed ms = map (\<lambda>(k, v). (k, print_json v)) ms"

lemma printed_simps [simp]: "printed [] = []" "printed ((k, v) # ms) = (k, print_json v) # printed ms"
  by (simp_all add: printed_def)

lemma consumed_append [simp]: "consumed (s @ r) r = s"
  by (simp add: consumed_def)

lemma raw_members_print:
  "printable_members ms \<Longrightarrow> ms \<noteq> [] \<Longrightarrow> length (print_members ms) < n \<Longrightarrow>
   raw_members n (print_members ms @ CHR ''}'' # rest) = Some (printed ms)"
proof (induction n arbitrary: ms)
  case (Suc n)
  then obtain k v ms' where ms: "ms = (k, v) # ms'" by (cases ms) auto
  have k: "parse_string (Suc (length (concat (map marshal_char k) @ CHR 0x22 # q)))
      (concat (map marshal_char k) @ CHR 0x22 # q) = Some (k, q)" for q
    using Suc.prems(1) length_marshal [of k] unfolding ms
    by (intro parse_string_marshal) (cases ms'; auto)+
  show ?case
  proof (cases ms')
    case Nil
    then show ?thesis
      using Suc.prems parse_print(1) [of v "CHR ''}'' # rest" n] k [of "CHR '':'' # print_json v @ CHR ''}'' # rest"]
      by (simp add: ms marshal_string_printable Let_def del: parse_string.simps)
  next
    case (Cons m us)
    obtain r where c: "print_members (m # us) = CHR 0x22 # r" using print_members_first by blast
    show ?thesis
      using Suc.prems Suc.IH [of "m # us"] c
        parse_print(1) [of v "CHR '','' # print_members (m # us) @ CHR ''}'' # rest" n]
        k [of "CHR '':'' # print_json v @ CHR '','' # print_members (m # us) @ CHR ''}'' # rest"]
      by (cases m) (simp add: ms Cons marshal_string_printable Let_def del: parse_string.simps)
  qed
qed simp

lemma raw_object_print:
  assumes "printable_members ms"
  shows "raw_object (print_json (JObj ms)) = Some (printed ms)"
proof -
  have p: "json_parse (print_json (JObj ms)) = Some (JObj ms)"
    using assms by (intro json_parse_print) simp
  show ?thesis
  proof (cases ms)
    case (Cons m us)
    obtain r where c: "print_members (m # us) = CHR 0x22 # r" using print_members_first by blast
    show ?thesis
      using raw_members_print [of ms "Suc (length (print_json (JObj ms)))" "[]"] assms p c
      by (simp add: raw_object_def Cons skip_ws_def is_ws_def del: raw_members.simps)
  qed (use p in \<open>simp add: raw_object_def\<close>)
qed

lemma raw_field_Some_mem: "raw_field v k = Some x \<Longrightarrow> (k, x) \<in> set v"
  unfolding raw_field_def by (metis map_of_SomeD set_rev)

lemma raw_string_print [simp]: "printable_json v \<Longrightarrow>
    raw_string (Some (print_json v)) = (case v of JStr s \<Rightarrow> s | _ \<Rightarrow> '''')"
  by (simp add: raw_string_def json_parse_print)

end
