(* ===== verification/ApprovalWire.thy ===== *)
theory ApprovalWire
  imports Discovery RawJson
begin

text \<open>
  The approval-v1 wire contract (\<open>src/internal/contract/approval\<close>): authorizations,
  decision envelopes, receipts, applications and pending pages. An \<open>Object\<close> is
  the list of raw members of theory RawJson. Everything the code takes from other packages is in the
  record \<open>crypto\<close>, a parameter: SHA-256, \<open>jcs.Transform\<close>, the derivation context hash of
  mpc-core, \<open>btcec.ParsePubKey\<close> with \<open>SerializeUncompressed\<close>, Keccak-256, base58check and
  Ed25519 verification.
\<close>

record crypto =
  cx_sha :: "bytes \<Rightarrow> bytes"
  cx_jcs :: "bytes \<Rightarrow> bytes option"
  cx_derivationHash :: "derivationContext \<Rightarrow> string option"
  cx_pubkey :: "bytes \<Rightarrow> bytes option"
  cx_keccak :: "bytes \<Rightarrow> bytes"
  cx_b58encode :: "bytes \<Rightarrow> nat \<Rightarrow> string"
  cx_b58decode :: "string \<Rightarrow> (bytes \<times> nat) option"
  cx_verify :: "bytes \<Rightarrow> bytes \<Rightarrow> bytes \<Rightarrow> bool"

section \<open>Objects\<close>

datatype wire_err = ErrInvalid | ErrContract contract_err

definition parse_object :: "crypto \<Rightarrow> bytes \<Rightarrow> nat \<Rightarrow> bool \<Rightarrow> (wire_err, wobj) result" where
  "parse_object cx raw maximum canonical =
     (if raw = [] \<or> length raw > maximum \<or> \<not> utf8_valid raw then Inl ErrInvalid
      else (case json_parse raw of
              None \<Rightarrow> Inl (ErrContract (ErrDecode (DecodeJson ErrSyntax)))
            | Some value \<Rightarrow>
                (case rejectDuplicateKeys (tokens value) True of
                   Some e \<Rightarrow> Inl (ErrContract (ErrDecode (DecodeJson e)))
                 | None \<Rightarrow>
                     (case raw_object raw of
                        None \<Rightarrow> Inl (ErrContract (ErrDecode ErrNotAnObject))
                      | Some fs \<Rightarrow>
                          if value = JNull then Inl ErrInvalid
                          else check_res (if canonical then map_option ErrContract (requireCanonicalJCS (cx_jcs cx) raw) else None)
                                 (Inr fs)))))"

definition str :: "wobj \<Rightarrow> string \<Rightarrow> string" where
  "str v k = raw_string (raw_field v k)"

definition integer :: "wobj \<Rightarrow> string \<Rightarrow> int" where
  "integer v k = (case raw_field v k of
     None \<Rightarrow> - 1
   | Some raw \<Rightarrow>
       if raw = [] \<or> \<not> is_digit (hd raw) then - 1
       else (case json_parse raw of
               Some (JNum s) \<Rightarrow> (case parse_int64 s of Some n \<Rightarrow> n | None \<Rightarrow> - 1)
             | _ \<Rightarrow> - 1))"

definition isNull :: "wobj \<Rightarrow> string \<Rightarrow> bool" where
  "isNull v k = (raw_field v k = Some ''null'')"

definition rawObject :: "wobj \<Rightarrow> string \<Rightarrow> wobj" where
  "rawObject v k = (case Option.bind (raw_field v k) raw_object of Some o' \<Rightarrow> o' | None \<Rightarrow> [])"

text \<open>\<open>unicode.IsControl\<close> on valid UTF-8: C0, DEL, and C1, which is encoded with the lead byte C2.\<close>

fun has_control :: "string \<Rightarrow> bool" where
  "has_control [] = False"
| "has_control (c # cs) = (byte_val c < 32 \<or> byte_val c = 127 \<or>
     (byte_val c = 0xC2 \<and> (case cs of [] \<Rightarrow> False | d # _ \<Rightarrow> 0x80 \<le> byte_val d \<and> byte_val d \<le> 0x9F)) \<or> has_control cs)"

definition bounded :: "string \<Rightarrow> nat \<Rightarrow> bool" where
  "bounded s maximum = (s \<noteq> [] \<and> length s \<le> maximum \<and> utf8_valid s \<and> \<not> has_control s)"

definition ValidReference :: "string \<Rightarrow> bool" where
  "ValidReference value = bounded value 128"

definition hex256 :: "string \<Rightarrow> bool" where
  "hex256 s = (length s = 64 \<and> list_all is_lower_hex s)"

text \<open>The pattern of a timestamp with milliseconds, digit by digit.\<close>

definition timestampPattern :: "string \<Rightarrow> bool" where
  "timestampPattern s = (length s = 24 \<and>
     list_all (\<lambda>i. is_digit (s ! i)) [0, 1, 2, 3, 5, 6, 8, 9, 11, 12, 14, 15, 17, 18, 20, 21, 22] \<and>
     s ! 4 = CHR ''-'' \<and> s ! 7 = CHR ''-'' \<and> s ! 10 = CHR ''T'' \<and> s ! 13 = CHR '':'' \<and> s ! 16 = CHR '':'' \<and>
     s ! 19 = CHR ''.'' \<and> s ! 23 = CHR ''Z'')"

definition format_millis :: "time \<Rightarrow> string" where
  "format_millis t =
     (let s = t div second; n = s div 86400; r = s mod 86400
      in (case civil_of_days n of (y, m, d) \<Rightarrow>
            pad 4 y @ ''-'' @ pad 2 m @ ''-'' @ pad 2 d @ ''T'' @ pad 2 (r div 3600) @ '':'' @
            pad 2 (r mod 3600 div 60) @ '':'' @ pad 2 (r mod 60) @ ''.'' @ pad 3 (t mod second div millisecond) @ ''Z''))"

definition timestamp :: "string \<Rightarrow> bool" where
  "timestamp s = (timestampPattern s \<and>
     (case parse_instant True s of None \<Rightarrow> False | Some (t, _) \<Rightarrow> t div millisecond > 0 \<and> format_millis t = s))"

definition reason_code_ok :: "string \<Rightarrow> bool" where
  "reason_code_ok s = (case s of
     [] \<Rightarrow> False
   | c # cs \<Rightarrow> 65 \<le> byte_val c \<and> byte_val c \<le> 90 \<and> length cs \<le> 63 \<and>
       list_all (\<lambda>d. (65 \<le> byte_val d \<and> byte_val d \<le> 90) \<or> is_digit d \<or> d = CHR ''_'') cs)"

definition validReason :: "wobj \<Rightarrow> string \<Rightarrow> bool \<Rightarrow> bool" where
  "validReason v key rejected =
     (if \<not> rejected then isNull v key
      else (let r = rawObject v key in
            closed r [''code'', ''text''] \<and> reason_code_ok (str r ''code'') \<and> bounded (str r ''text'') 512))"

section \<open>Authorization\<close>

definition authorization_names :: "string list" where
  "authorization_names = [''version'', ''orgId'', ''requestId'', ''ledgerTransactionId'', ''clientReference'', ''accountId'',
     ''walletId'', ''keyId'', ''descriptorFingerprint'', ''derivationContextHash'', ''derivationContext'', ''chain'',
     ''fromAddress'', ''toAddress'', ''asset'', ''tokenStandard'', ''tokenContractCanonical'', ''tokenDecimals'',
     ''amountAtomic'', ''transferKind'', ''internalRecipient'', ''networkFeeAsset'', ''maxNetworkFeeAtomic'',
     ''requestedChainParams'']"

definition derivation_names :: "string list" where
  "derivation_names = [''profileId'', ''profileTemplateId'', ''profileVersion'', ''chain'', ''algorithm'', ''curve'', ''scheme'',
     ''accountPath'', ''childPath'', ''fullPath'', ''addressEncoding'', ''expectedAddress'', ''expectedPublicKey'',
     ''publicKeyFormat'', ''descriptorVersion'', ''keyVersion'']"

definition version_names :: "string list" where
  "version_names = [''profileVersion'', ''descriptorVersion'', ''keyVersion'']"

definition derivation_context :: "wobj \<Rightarrow> string \<Rightarrow> derivationContext" where
  "derivation_context d chain =
     \<lparr>dc_ProfileID = str d ''profileId'', dc_ProfileTemplateID = str d ''profileTemplateId'', dc_Chain = chain,
      dc_Algorithm = str d ''algorithm'', dc_Curve = str d ''curve'', dc_Scheme = str d ''scheme'',
      dc_AccountPath = str d ''accountPath'', dc_ChildPath = str d ''childPath'', dc_FullPath = str d ''fullPath'',
      dc_AddressEncoding = str d ''addressEncoding'', dc_ExpectedAddress = str d ''expectedAddress'',
      dc_ExpectedPublicKey = str d ''expectedPublicKey'', dc_PublicKeyFormat = str d ''publicKeyFormat'',
      dc_DescriptorVersion = word_of_int (integer d ''descriptorVersion''),
      dc_ProfileVersion = word_of_int (integer d ''profileVersion''), dc_KeyVersion = word_of_int (integer d ''keyVersion'')\<rparr>"

definition publicKeyAddressBytes :: "crypto \<Rightarrow> bytes \<Rightarrow> bytes" where
  "publicKeyAddressBytes cx publicKey = drop 12 (cx_keccak cx (drop 1 publicKey))"

definition validateTransferAsset :: "wobj \<Rightarrow> string \<Rightarrow> string \<Rightarrow> wire_err err" where
  "validateTransferAsset v native standard =
     (let amount = str v ''amountAtomic''; cap = str v ''maxNetworkFeeAtomic'' in
      or_err (fail_if (\<not> canonical_digits amount \<or> amount = ''0'' \<or> \<not> canonical_digits cap \<or>
         \<not> bounded (str v ''asset'') 128 \<or> str v ''networkFeeAsset'' \<noteq> native) ErrInvalid)
      (or_err (fail_if (\<not> digits_int amount < 2 ^ 256) ErrInvalid)
      (if isNull v ''tokenStandard''
       then fail_if (\<not> isNull v ''tokenContractCanonical'' \<or> \<not> isNull v ''tokenDecimals'' \<or> str v ''asset'' \<noteq> native) ErrInvalid
       else fail_if (str v ''tokenStandard'' \<noteq> standard \<or> \<not> canonicalEVMAddress (str v ''tokenContractCanonical'') \<or>
         integer v ''tokenDecimals'' < 0 \<or> integer v ''tokenDecimals'' > 255) ErrInvalid)))"

definition validateEthereumAuthorization :: "crypto \<Rightarrow> wobj \<Rightarrow> bytes \<Rightarrow> wire_err err" where
  "validateEthereumAuthorization cx v publicKey =
     (let d = rawObject v ''derivationContext''; expected = ''0x'' @ hex_encode (publicKeyAddressBytes cx publicKey) in
      or_err (fail_if (str v ''fromAddress'' \<noteq> expected \<or> str d ''addressEncoding'' \<noteq> ''evm_hex'' \<or>
         \<not> canonicalEVMAddress (str v ''toAddress'') \<or> \<not> canonicalEVMAddress (str v ''fromAddress'')) ErrInvalid)
      (or_err (validateTransferAsset v ''ETH'' ''erc20'')
      (if isNull v ''requestedChainParams'' then None
       else (let p = rawObject v ''requestedChainParams''; q = rawObject p ''ethereum'' in
             or_err (fail_if (\<not> closed p [''ethereum''] \<or> \<not> closed q [''maxFeePerGas'', ''maxPriorityFeePerGas''] \<or>
                \<not> canonical_digits (str q ''maxFeePerGas'') \<or> \<not> canonical_digits (str q ''maxPriorityFeePerGas'')) ErrInvalid)
             (fail_if (digits_int (str q ''maxPriorityFeePerGas'') > digits_int (str q ''maxFeePerGas'')) ErrInvalid)))))"

definition canonicalTronAddress :: "crypto \<Rightarrow> string \<Rightarrow> bool" where
  "canonicalTronAddress cx s = (case cx_b58decode cx s of
     None \<Rightarrow> False
   | Some (payload, version) \<Rightarrow> version = 0x41 \<and> length payload = 20 \<and> cx_b58encode cx payload version = s)"

definition validateTronAuthorization :: "crypto \<Rightarrow> wobj \<Rightarrow> bytes \<Rightarrow> wire_err err" where
  "validateTronAuthorization cx v publicKey =
     (let d = rawObject v ''derivationContext''; expected = cx_b58encode cx (publicKeyAddressBytes cx publicKey) 0x41 in
      or_err (fail_if (str v ''fromAddress'' \<noteq> expected \<or> str d ''addressEncoding'' \<noteq> ''tron_base58'' \<or>
         \<not> canonicalTronAddress cx (str v ''toAddress'') \<or> \<not> canonicalTronAddress cx (str v ''fromAddress'')) ErrInvalid)
      (or_err (validateTransferAsset v ''TRX'' ''trc20'')
      (or_err (fail_if (isNull v ''tokenStandard'' \<and> digits_int (str v ''amountAtomic'') > 9007199254740991) ErrInvalid)
      (if isNull v ''requestedChainParams'' then None
       else (let p = rawObject v ''requestedChainParams''; q = rawObject p ''tron'' in
             fail_if (\<not> closed p [''tron''] \<or> \<not> closed q [''feeLimitSun''] \<or>
                (\<not> isNull q ''feeLimitSun'' \<and> \<not> canonical_digits (str q ''feeLimitSun''))) ErrInvalid)))))"

definition authorizationValidator :: "crypto \<Rightarrow> string \<Rightarrow> (wobj \<Rightarrow> bytes \<Rightarrow> wire_err err) option" where
  "authorizationValidator cx chain =
     (if chain = ''ethereum:mainnet'' \<or> chain = ''ethereum:sepolia'' then Some (validateEthereumAuthorization cx)
      else if chain = ''tron:mainnet'' \<or> chain = ''tron:nile'' then Some (validateTronAuthorization cx)
      else None)"

definition derivation_fields_ok :: "wobj \<Rightarrow> bool" where
  "derivation_fields_ok d = list_all (\<lambda>k.
     if k \<in> set version_names then 1 \<le> integer d k \<and> integer d k \<le> 2147483647 else bounded (str d k) 1024) (map fst d)"

text \<open>The derivation context of an authorization, up to the public key it names.\<close>

definition authorization_key :: "crypto \<Rightarrow> wobj \<Rightarrow> (wire_err, bytes) result" where
  "authorization_key cx v =
     (let chain = str v ''chain''; d = rawObject v ''derivationContext'' in
      check_res (fail_if (\<not> closed d derivation_names) ErrInvalid)
      (check_res (fail_if (\<not> derivation_fields_ok d) ErrInvalid)
      (check_res (fail_if (str d ''algorithm'' \<noteq> ''ECDSA'' \<or> str d ''curve'' \<noteq> ''secp256k1'' \<or>
         str d ''scheme'' \<noteq> ''bip32_secp256k1'' \<or> str d ''publicKeyFormat'' \<noteq> ''uncompressed_hex'' \<or>
         str d ''chain'' \<noteq> chain \<or> str d ''expectedAddress'' \<noteq> str v ''fromAddress'') ErrInvalid)
      (check_res (fail_if (cx_derivationHash cx (derivation_context d chain) \<noteq>
         Some (str v ''derivationContextHash'')) ErrInvalid)
      (case hex_decode (str d ''expectedPublicKey'') of
         None \<Rightarrow> Inl ErrInvalid
       | Some pubRaw \<Rightarrow>
           check_res (fail_if (length pubRaw \<noteq> 65 \<or> byte_val (hd pubRaw) \<noteq> 4) ErrInvalid)
           (case cx_pubkey cx pubRaw of None \<Rightarrow> Inl ErrInvalid | Some pub \<Rightarrow> Inr pub))))))"

definition check_recipient :: "wobj \<Rightarrow> wire_err err" where
  "check_recipient v =
     (if str v ''transferKind'' = ''INTERNAL_TRANSFER''
      then (let r = rawObject v ''internalRecipient'' in
            fail_if (\<not> closed r [''accountId'', ''walletId''] \<or> \<not> bounded (str r ''accountId'') 128 \<or>
              \<not> bounded (str r ''walletId'') 128) ErrInvalid)
      else fail_if (str v ''transferKind'' \<noteq> ''EXTERNAL_WITHDRAWAL'' \<or> \<not> isNull v ''internalRecipient'') ErrInvalid)"

definition ParseAuthorization :: "crypto \<Rightarrow> bytes \<Rightarrow> (wire_err, wobj) result" where
  "ParseAuthorization cx raw =
     bind_res (parse_object cx raw 16384 True) (\<lambda>v.
     check_res (fail_if (\<not> closed v authorization_names \<or> integer v ''version'' \<noteq> 1) ErrInvalid)
     (check_res (fail_if (list_ex (\<lambda>k. \<not> bounded (str v k) 128)
        [''orgId'', ''requestId'', ''ledgerTransactionId'', ''accountId'', ''walletId'', ''keyId'']) ErrInvalid)
     (check_res (fail_if (\<not> isNull v ''clientReference'' \<and> \<not> bounded (str v ''clientReference'') 128) ErrInvalid)
     (check_res (fail_if (parseSHA256Digest (str v ''descriptorFingerprint'') = None) (ErrContract ErrDescriptorFingerprint))
     (check_res (fail_if (\<not> hex256 (str v ''derivationContextHash'')) ErrInvalid)
     (case authorizationValidator cx (str v ''chain'') of
        None \<Rightarrow> Inl ErrInvalid
      | Some validateChain \<Rightarrow>
          bind_res (authorization_key cx v) (\<lambda>pub.
          check_res (validateChain v pub)
          (check_res (check_recipient v) (Inr v)))))))))"

section \<open>Decisions and receipts\<close>

definition DecisionDomain :: string where
  "DecisionDomain = ''brosettlement.co-signer.approval-decision/v1'' @ [CHR 0x0A]"

definition envelope_names :: "string list" where
  "envelope_names = [''version'', ''domain'', ''audience'', ''orgId'', ''requestId'', ''authorizationHash'', ''decision'', ''reason'',
     ''source'', ''externalDecisionReference'', ''decidedAt'', ''signingKeyId'']"

definition ParseDecisionEnvelope :: "crypto \<Rightarrow> bytes \<Rightarrow> (wire_err, wobj) result" where
  "ParseDecisionEnvelope cx raw =
     bind_res (parse_object cx raw 4096 True) (\<lambda>v.
     check_res (fail_if (\<not> closed v envelope_names \<or> integer v ''version'' \<noteq> 1 \<or>
        str v ''domain'' \<noteq> ''brosettlement.co-signer.approval-decision'' \<or>
        str v ''audience'' \<noteq> ''brosettlement-transfer-approval'') ErrInvalid)
     (check_res (fail_if (list_ex (\<lambda>k. \<not> bounded (str v k) 128) [''orgId'', ''requestId'', ''signingKeyId'']) ErrInvalid)
     (let decision = str v ''decision''; source = str v ''source'' in
      check_res (fail_if (\<not> hex256 (str v ''authorizationHash'') \<or> \<not> timestamp (str v ''decidedAt'') \<or>
         (decision \<noteq> ''APPROVED'' \<and> decision \<noteq> ''REJECTED'') \<or> \<not> validReason v ''reason'' (decision = ''REJECTED'') \<or>
         (source \<noteq> ''external'' \<and> source \<noteq> ''auto_approve'') \<or>
         (\<not> isNull v ''externalDecisionReference'' \<and> \<not> bounded (str v ''externalDecisionReference'') 128) \<or>
         (source = ''auto_approve'' \<and> (decision \<noteq> ''APPROVED'' \<or> \<not> isNull v ''externalDecisionReference''))) ErrInvalid)
      (Inr v))))"

record receipt =
  rt_Envelope :: wobj
  rt_EnvelopeBytes :: bytes
  rt_Signature :: bytes

definition wire_base64 :: "string \<Rightarrow> int \<Rightarrow> (wire_err, bytes) result" where
  "wire_base64 s n = (case standardBase64 s n of Some b \<Rightarrow> Inr b | None \<Rightarrow> Inl ErrInvalid)"

definition ParseReceipt :: "crypto \<Rightarrow> bytes \<Rightarrow> (wire_err, receipt) result" where
  "ParseReceipt cx raw =
     bind_res (parse_object cx raw 8192 False) (\<lambda>v.
     check_res (fail_if (\<not> closed v [''version'', ''envelopeBase64'', ''signatureBase64''] \<or> integer v ''version'' \<noteq> 1) ErrInvalid)
     (bind_res (wire_base64 (str v ''envelopeBase64'') (- 1)) (\<lambda>envelope.
      bind_res (wire_base64 (str v ''signatureBase64'') 64) (\<lambda>signature.
      bind_res (ParseDecisionEnvelope cx envelope) (\<lambda>parsed.
      Inr \<lparr>rt_Envelope = parsed, rt_EnvelopeBytes = envelope, rt_Signature = signature\<rparr>)))))"

record trustedReceipt =
  tv_OrgID :: string
  tv_RequestID :: string
  tv_AuthorizationHash :: string
  tv_SigningKeyID :: string
  tv_PublicKey :: bytes
  tv_Eligible :: bool

definition VerifyReceipt :: "crypto \<Rightarrow> bytes \<Rightarrow> trustedReceipt \<Rightarrow> (wire_err, receipt) result" where
  "VerifyReceipt cx raw trusted =
     bind_res (ParseReceipt cx raw) (\<lambda>r.
     check_res (fail_if (list_ex (\<lambda>(k, want). str (rt_Envelope r) k \<noteq> want)
        [(''orgId'', tv_OrgID trusted), (''requestId'', tv_RequestID trusted),
         (''authorizationHash'', tv_AuthorizationHash trusted), (''signingKeyId'', tv_SigningKeyID trusted)]) ErrInvalid)
     (check_res (fail_if (\<not> tv_Eligible trusted \<or> length (tv_PublicKey trusted) \<noteq> 32 \<or>
        \<not> cx_verify cx (tv_PublicKey trusted) (DecisionDomain @ rt_EnvelopeBytes r) (rt_Signature r)) ErrInvalid)
     (Inr r)))"

definition SameReceipt :: "crypto \<Rightarrow> bytes \<Rightarrow> bytes \<Rightarrow> (wire_err, bool) result" where
  "SameReceipt cx left right =
     bind_res (ParseReceipt cx left) (\<lambda>a.
     bind_res (ParseReceipt cx right) (\<lambda>b.
     Inr (rt_EnvelopeBytes a = rt_EnvelopeBytes b \<and> rt_Signature a = rt_Signature b)))"

definition ParseOrganizationResponse :: "crypto \<Rightarrow> bytes \<Rightarrow> string \<Rightarrow> string \<Rightarrow> string \<Rightarrow> (wire_err, wobj) result" where
  "ParseOrganizationResponse cx raw orgID requestID authorizationHash =
     bind_res (parse_object cx raw 65536 False) (\<lambda>v.
     (let status = str v ''status'' in
      check_res (fail_if (\<not> closed v [''version'', ''orgId'', ''requestId'', ''authorizationHash'', ''status'', ''reason'',
           ''decisionReference''] \<or> integer v ''version'' \<noteq> 1 \<or> str v ''orgId'' \<noteq> orgID \<or> str v ''requestId'' \<noteq> requestID \<or>
         str v ''authorizationHash'' \<noteq> authorizationHash \<or>
         (status \<noteq> ''PENDING'' \<and> status \<noteq> ''APPROVED'' \<and> status \<noteq> ''REJECTED'') \<or>
         \<not> validReason v ''reason'' (status = ''REJECTED'') \<or>
         (\<not> isNull v ''decisionReference'' \<and> \<not> bounded (str v ''decisionReference'') 128) \<or>
         (status = ''PENDING'' \<and> \<not> isNull v ''decisionReference'')) ErrInvalid)
      (Inr v)))"

definition application_ok :: "string \<Rightarrow> string \<Rightarrow> bool" where
  "application_ok outcome disposition =
     ((outcome = ''ACCEPTED'' \<and> disposition = ''APPLIED'') \<or>
      (outcome = ''EXACT_REPLAY'' \<and> (disposition = ''APPLIED'' \<or> disposition = ''NOT_APPLIED_CANCELLED'')) \<or>
      (outcome = ''NOT_APPLIED_CANCELLED'' \<and> disposition = outcome) \<or>
      (outcome = ''TERMINAL_CONFLICT'' \<and> disposition = outcome))"

definition ParseDecisionApplication :: "crypto \<Rightarrow> bytes \<Rightarrow> (wire_err, wobj) result" where
  "ParseDecisionApplication cx raw =
     bind_res (parse_object cx raw 4096 False) (\<lambda>v.
     check_res (fail_if (\<not> closed v [''version'', ''requestId'', ''outcome'', ''disposition''] \<or>
        integer v ''version'' \<noteq> 1 \<or> \<not> bounded (str v ''requestId'') 128) ErrInvalid)
     (check_res (fail_if (\<not> application_ok (str v ''outcome'') (str v ''disposition'')) ErrInvalid) (Inr v)))"

section \<open>Pending pages\<close>

definition hash :: "crypto \<Rightarrow> bytes \<Rightarrow> string" where
  "hash cx raw = hex_encode (cx_sha cx raw)"

record pendingItem =
  pi_RequestID :: string
  pi_CreatedAt :: string
  pi_Authorization :: bytes
  pi_AuthorizationHash :: string

definition OrganizationID :: "crypto \<Rightarrow> pendingItem \<Rightarrow> (wire_err, string) result" where
  "OrganizationID cx item = (case cx_jcs cx (pi_Authorization item) of
     None \<Rightarrow> Inl (ErrContract ErrJCSTransform)
   | Some auth \<Rightarrow>
       bind_res (ParseAuthorization cx auth) (\<lambda>a.
       check_res (fail_if (pi_RequestID item \<noteq> str a ''requestId'' \<or> hash cx auth \<noteq> pi_AuthorizationHash item) ErrInvalid)
       (Inr (str a ''orgId''))))"

text \<open>The loop over the rows: the ids seen, the previous creation time and id, and the organization of the page.\<close>

fun page_rows :: "crypto \<Rightarrow> bytes list \<Rightarrow> string list \<Rightarrow> string \<Rightarrow> string \<Rightarrow> string \<Rightarrow> wire_err err" where
  "page_rows cx [] seen previousTime previousID pageOrgID = None"
| "page_rows cx (item # items) seen previousTime previousID pageOrgID =
     (case parse_object cx item 32768 False of
        Inl e \<Rightarrow> Some e
      | Inr row \<Rightarrow>
          or_err (fail_if (\<not> closed row [''requestId'', ''createdAt'', ''authorization'', ''authorizationHash''] \<or>
             \<not> timestamp (str row ''createdAt'')) ErrInvalid)
          (let id' = str row ''requestId''; created = str row ''createdAt'' in
           or_err (fail_if (id' \<in> set seen \<or> str_less created previousTime \<or>
              (created = previousTime \<and> \<not> str_less previousID id')) ErrInvalid)
           (case OrganizationID cx \<lparr>pi_RequestID = id', pi_CreatedAt = '''',
                pi_Authorization = the (raw_field row ''authorization''),
                pi_AuthorizationHash = str row ''authorizationHash''\<rparr> of
              Inl e \<Rightarrow> Some e
            | Inr orgID \<Rightarrow>
                or_err (fail_if (pageOrgID \<noteq> '''' \<and> pageOrgID \<noteq> orgID) ErrInvalid)
                (page_rows cx items (id' # seen) created id' orgID))))"

definition ParsePendingPage :: "crypto \<Rightarrow> bytes \<Rightarrow> wire_err err" where
  "ParsePendingPage cx raw = (case parse_object cx raw 2097152 False of
     Inl e \<Rightarrow> Some e
   | Inr v \<Rightarrow>
       or_err (fail_if (\<not> closed v [''version'', ''items'', ''nextCursor''] \<or> integer v ''version'' \<noteq> 1) ErrInvalid)
       (or_err (fail_if (\<not> isNull v ''nextCursor'' \<and>
          (str v ''nextCursor'' = [] \<or> length (str v ''nextCursor'') > 4096)) ErrInvalid)
       (or_err (fail_if (\<not> isNull v ''nextCursor'' \<and>
          list_ex (\<lambda>c. byte_val c < 0x21 \<or> byte_val c > 0x7E) (str v ''nextCursor'')) ErrInvalid)
       (case Option.bind (raw_field v ''items'') raw_array of
          None \<Rightarrow> Some ErrInvalid
        | Some items \<Rightarrow>
            or_err (fail_if (isNull v ''items'' \<or> length items > 100) ErrInvalid)
            (page_rows cx items [] '''' '''' '''')))))"

section \<open>Evaluation of printed objects\<close>

lemma printable_member: "printable_members ms \<Longrightarrow> (k, v) \<in> set ms \<Longrightarrow> printable_json v"
  by (induction ms rule: induct_list012) (auto elim: printable_members.elims)

lemma raw_field_printed: "raw_field (printed ms) k = map_option print_json (map_of (rev ms) k)"
  unfolding raw_field_def printed_def rev_map [symmetric] by (simp add: rev_map map_of_map)

lemma raw_count_printed: "raw_count (printed ms) = length (remdups (map fst ms))"
  unfolding raw_count_def printed_def by (simp add: comp_def case_prod_unfold)

lemma field_printable:
  "printable_members ms \<Longrightarrow> map_of (rev ms) k = Some v \<Longrightarrow> printable_json v"
  using printable_member map_of_SomeD [of "rev ms" k v] by auto

lemma str_printed:
  "printable_members ms \<Longrightarrow> str (printed ms) k = (case map_of (rev ms) k of Some (JStr s) \<Rightarrow> s | _ \<Rightarrow> '''')"
  using field_printable [of ms k]
  by (cases "map_of (rev ms) k") (auto simp: str_def raw_field_printed raw_string_def json_parse_print)

lemma print_null_iff: "printable_json v \<Longrightarrow> print_json v = ''null'' \<longleftrightarrow> v = JNull"
  using json_parse_print [of v] json_parse_print [of JNull] by auto

lemma isNull_printed:
  "printable_members ms \<Longrightarrow> isNull (printed ms) k \<longleftrightarrow> map_of (rev ms) k = Some JNull"
  using field_printable [of ms k] print_null_iff
  by (cases "map_of (rev ms) k") (auto simp: isNull_def raw_field_printed)

lemma rawObject_printed:
  "printable_members ms \<Longrightarrow>
   rawObject (printed ms) k = (case map_of (rev ms) k of Some (JObj o') \<Rightarrow> printed o' | _ \<Rightarrow> [])"
proof -
  assume p: "printable_members ms"
  show ?thesis
  proof (cases "map_of (rev ms) k")
    case (Some v)
    then have v: "printable_json v" using field_printable [OF p] by simp
    then show ?thesis
      using Some raw_object_print [of "case v of JObj o' \<Rightarrow> o' | _ \<Rightarrow> []"]
      by (cases v) (auto simp: rawObject_def raw_field_printed raw_object_def json_parse_print
          simp del: print_json.simps)
  qed (simp add: rawObject_def raw_field_printed)
qed

lemma integer_printed:
  "printable_members ms \<Longrightarrow>
   integer (printed ms) k = (case map_of (rev ms) k of
     Some (JNum s) \<Rightarrow> (case parse_int64 s of Some n \<Rightarrow> n | None \<Rightarrow> - 1) | _ \<Rightarrow> - 1)"
proof -
  assume p: "printable_members ms"
  show ?thesis
  proof (cases "map_of (rev ms) k")
    case (Some v)
    then have v: "printable_json v" using field_printable [OF p] by simp
    then have "json_parse (print_json v) = Some v" by (rule json_parse_print)
    with Some v show ?thesis
      using canonical_digits_digits
      by (cases v) (auto simp: integer_def raw_field_printed list_all_iff dest!: hd_in_set split: option.splits)
  qed (simp add: integer_def raw_field_printed)
qed

lemma closed_printed:
  "closed (printed ms) keys \<longleftrightarrow>
   length (remdups (map fst ms)) = length keys \<and> list_all (\<lambda>k. k \<in> set (map fst ms)) keys"
  by (auto simp: closed_def raw_count_printed raw_field_printed list_all_iff map_of_eq_None_iff
      image_iff split: option.splits)

lemma printable_append [simp]: "printable (s @ t) \<longleftrightarrow> printable s \<and> printable t"
  by (simp add: printable_def)

lemma printable_marshal_char: "printable [c] \<Longrightarrow> printable (marshal_char c)"
  by (auto simp: marshal_char_def printable_def hex_encode_single hex_char_def byte_val_def byte_of_nat_def)

lemma printable_marshal: "printable s \<Longrightarrow> printable (marshal_string s)"
proof -
  assume p: "printable s"
  then have "printable (concat (map marshal_char s))"
  proof (induction s)
    case (Cons c s)
    then show ?case using printable_marshal_char [of c] by (simp add: printable_def)
  qed (simp add: printable_def)
  with p show ?thesis by (simp add: marshal_string_printable) (simp add: printable_def byte_val_def)
qed

lemma length_marshal_string: "printable s \<Longrightarrow> length (marshal_string s) \<le> 6 * length s + 2"
proof -
  have "length (marshal_char c) \<le> 6" for c
    by (simp add: marshal_char_def hex_encode_def split: option.split)
  then have "length (concat (map marshal_char s)) \<le> 6 * length s"
    by (induction s) (auto simp: add_mono)
  then show "printable s \<Longrightarrow> ?thesis" by (simp add: marshal_string_printable)
qed

text \<open>An upper bound of the length of a printed text, computed on integers.\<close>

fun text_bound :: "json \<Rightarrow> int" and items_bound :: "json list \<Rightarrow> int" and members_bound :: "(string \<times> json) list \<Rightarrow> int" where
  "text_bound (JStr s) = 6 * int (length s) + 2"
| "text_bound (JNum s) = int (length s)"
| "text_bound (JArr vs) = 2 + items_bound vs"
| "text_bound (JObj ms) = 2 + members_bound ms"
| "text_bound _ = 5"
| "items_bound [] = 0"
| "items_bound (v # vs) = 1 + text_bound v + items_bound vs"
| "members_bound [] = 0"
| "members_bound ((k, v) # ms) = 4 + 6 * int (length k) + text_bound v + members_bound ms"

lemma printed_text:
  shows "printable_json v \<Longrightarrow> printable (print_json v) \<and> int (length (print_json v)) \<le> text_bound v"
    and "printable_items vs \<Longrightarrow> printable (print_items vs) \<and> int (length (print_items vs)) \<le> items_bound vs"
    and "printable_members ms \<Longrightarrow> printable (print_members ms) \<and> int (length (print_members ms)) \<le> members_bound ms"
proof (induction v and vs and ms rule: print_json_print_items_print_members.induct)
  case (3 s)
  then show ?case using canonical_digits_digits [of s] by (force simp: printable_def list_all_iff is_digit_def)
next
  case (4 s)
  then show ?case using printable_marshal [of s] length_marshal_string [of s] by simp
next
  case (11 k v)
  then show ?case using printable_marshal [of k] length_marshal_string [of k] by (simp add: printable_def byte_val_def)
next
  case (12 k v m ms)
  then show ?case using printable_marshal [of k] length_marshal_string [of k] by (simp add: printable_def byte_val_def)
qed (auto simp: printable_def byte_val_def)

lemma utf8_valid_printable: "printable s \<Longrightarrow> utf8_valid s"
proof -
  have "printable s \<Longrightarrow> length s \<le> n \<Longrightarrow> utf8_valid_fuel n s" for n
  proof (induction n arbitrary: s)
    case (Suc n)
    then show ?case by (cases s) (auto simp: printable_def)
  qed simp
  then show "printable s \<Longrightarrow> ?thesis" by (auto simp: utf8_valid_def)
qed

lemma parse_object_printed:
  assumes "printable_members ms" "keys_distinct (JObj ms)" "text_bound (JObj ms) \<le> int maximum"
    "canonical \<Longrightarrow> numbers_ok (JObj ms) \<and> cx_jcs cx (print_json (JObj ms)) = Some (print_json (JObj ms))"
  shows "parse_object cx (print_json (JObj ms)) maximum canonical = Inr (printed ms)"
proof -
  have p: "json_parse (print_json (JObj ms)) = Some (JObj ms)"
    using assms(1) by (intro json_parse_print) simp
  have d: "rejectDuplicateKeys (tokens (JObj ms)) True = None"
    using assms(2) by (simp only: rejectDuplicateKeys_iff)
  have j: "canonical \<Longrightarrow> requireCanonicalJCS (cx_jcs cx) (print_json (JObj ms)) = None"
  proof -
    assume "canonical"
    then have "validateJSONTokens (tokens (JObj ms)) True = None"
      using assms(2,4) by (simp only: validateJSONTokens_iff simp_thms)
    with p assms(4) \<open>canonical\<close> show ?thesis
      by (simp add: requireCanonicalJCS_def canonicalJCS_def fail_if_def del: print_json.simps tokens.simps)
  qed
  have "printable (print_json (JObj ms))" "int (length (print_json (JObj ms))) \<le> text_bound (JObj ms)"
    using printed_text(1) [of "JObj ms"] assms(1) by simp_all
  then have "utf8_valid (print_json (JObj ms))" "length (print_json (JObj ms)) \<le> maximum"
    using utf8_valid_printable assms(3) by auto
  then show ?thesis
    using p d j raw_object_print [OF assms(1)]
    by (auto simp: parse_object_def guard_eval simp del: print_json.simps tokens.simps)
      (simp_all)
qed

lemma bounded_text: "printable s \<Longrightarrow> bounded s m \<longleftrightarrow> s \<noteq> [] \<and> length s \<le> m"
proof -
  have "printable s \<Longrightarrow> \<not> has_control s" by (induction s) (auto simp: printable_def)
  then show "printable s \<Longrightarrow> ?thesis" using utf8_valid_printable by (auto simp: bounded_def)
qed

text \<open>Strings of printed objects are printable, so only their lengths are left to evaluate.\<close>

lemma bounded_printed:
  assumes "printable_members ms"
  shows "bounded (str (printed ms) k) m \<longleftrightarrow> (case map_of (rev ms) k of Some (JStr s) \<Rightarrow> s \<noteq> [] \<and> length s \<le> m | _ \<Rightarrow> False)"
proof -
  have "printable s" if "map_of (rev ms) k = Some (JStr s)" for s
    using field_printable [OF assms that] by simp
  then show ?thesis
    using str_printed [OF assms, of k] bounded_text
    by (auto simp: bounded_def split: option.splits json.splits)
qed

lemmas printed_eval = str_printed isNull_printed rawObject_printed integer_printed

section \<open>What an accepted authorization says\<close>

lemma digits_int_val: "digits_int s = int (digits_val s)"
proof -
  have "foldl (\<lambda>a c. 10 * a + int (digit_val c)) (int n) s = int (foldl (\<lambda>a c. 10 * a + digit_val c) n s)" for n
  proof (induction s arbitrary: n)
    case (Cons c s)
    from Cons.IH [of "10 * n + digit_val c"] show ?case by simp
  qed simp
  from this [of 0] show ?thesis by (simp add: digits_int_def digits_val_def)
qed

lemma canonical_digits_pos: "canonical_digits s \<Longrightarrow> s \<noteq> ''0'' \<Longrightarrow> 0 < digits_int s"
proof -
  assume "canonical_digits s" "s \<noteq> ''0''"
  then obtain n where n: "s = show_nat n" by (auto simp: canonical_digits_iff)
  with \<open>s \<noteq> ''0''\<close> have "n \<noteq> 0" using show_nat_0 by metis
  with n show ?thesis by (simp add: digits_int_val)
qed

lemma parse_object_canonical:
  "parse_object cx raw maximum True = Inr v \<Longrightarrow> cx_jcs cx raw = Some raw \<and> length raw \<le> maximum \<and> raw_object raw = Some v"
  by (auto simp: parse_object_def requireCanonicalJCS_def canonicalJCS_def
      split: if_splits option.splits sum.splits)

definition chains :: "string list" where
  "chains = [''ethereum:mainnet'', ''ethereum:sepolia'', ''tron:mainnet'', ''tron:nile'']"

text \<open>The address of a public key on a chain, as both validators compute it.\<close>

definition key_address :: "crypto \<Rightarrow> string \<Rightarrow> bytes \<Rightarrow> string" where
  "key_address cx chain key =
     (if isEthereumChain chain then ''0x'' @ hex_encode (publicKeyAddressBytes cx key)
      else cx_b58encode cx (publicKeyAddressBytes cx key) 0x41)"

lemma transfer_asset_amount:
  "validateTransferAsset v native standard = None \<Longrightarrow>
   canonical_digits (str v ''amountAtomic'') \<and> 0 < digits_int (str v ''amountAtomic'') \<and>
   digits_int (str v ''amountAtomic'') < 2 ^ 256 \<and> canonical_digits (str v ''maxNetworkFeeAtomic'')"
  using canonical_digits_pos [of "str v ''amountAtomic''"]
  by (auto simp: validateTransferAsset_def Let_def)

lemma chain_validator_accepts:
  assumes "authorizationValidator cx chain = Some f" "f v key = None"
  shows "chain \<in> set chains" and "str v ''fromAddress'' = key_address cx chain key"
    and "canonical_digits (str v ''amountAtomic'')" "0 < digits_int (str v ''amountAtomic'')"
    "digits_int (str v ''amountAtomic'') < 2 ^ 256" "canonical_digits (str v ''maxNetworkFeeAtomic'')"
    and "isEthereumChain chain \<Longrightarrow> canonicalEVMAddress (str v ''toAddress'') \<and> canonicalEVMAddress (str v ''fromAddress'') \<and>
      validateTransferAsset v ''ETH'' ''erc20'' = None"
    and "\<not> isEthereumChain chain \<Longrightarrow> canonicalTronAddress cx (str v ''toAddress'') \<and> canonicalTronAddress cx (str v ''fromAddress'') \<and>
      validateTransferAsset v ''TRX'' ''trc20'' = None"
proof -
  consider (e) "f = validateEthereumAuthorization cx" "chain \<in> {''ethereum:mainnet'', ''ethereum:sepolia''}"
    | (t) "f = validateTronAuthorization cx" "chain \<in> {''tron:mainnet'', ''tron:nile''}"
    using assms(1) by (auto simp: authorizationValidator_def split: if_splits)
  then have *: "chain \<in> set chains \<and> str v ''fromAddress'' = key_address cx chain key \<and>
      (\<exists>native standard. validateTransferAsset v native standard = None) \<and>
      (isEthereumChain chain \<longrightarrow> canonicalEVMAddress (str v ''toAddress'') \<and> canonicalEVMAddress (str v ''fromAddress'') \<and>
        validateTransferAsset v ''ETH'' ''erc20'' = None) \<and>
      (\<not> isEthereumChain chain \<longrightarrow> canonicalTronAddress cx (str v ''toAddress'') \<and> canonicalTronAddress cx (str v ''fromAddress'') \<and>
        validateTransferAsset v ''TRX'' ''trc20'' = None)"
  proof cases
    case e
    then have "isEthereumChain chain" by (auto simp: isEthereumChain_def ethereumChainID_def)
    with e assms(2) show ?thesis
      by (auto simp: validateEthereumAuthorization_def Let_def chains_def key_address_def)
  next
    case t
    then have "\<not> isEthereumChain chain" by (auto simp: isEthereumChain_def ethereumChainID_def)
    with t assms(2) show ?thesis
      by (auto simp: validateTronAuthorization_def Let_def chains_def key_address_def)
  qed
  then show "chain \<in> set chains" "str v ''fromAddress'' = key_address cx chain key"
    "canonical_digits (str v ''amountAtomic'')" "0 < digits_int (str v ''amountAtomic'')"
    "digits_int (str v ''amountAtomic'') < 2 ^ 256" "canonical_digits (str v ''maxNetworkFeeAtomic'')"
    "isEthereumChain chain \<Longrightarrow> canonicalEVMAddress (str v ''toAddress'') \<and> canonicalEVMAddress (str v ''fromAddress'') \<and>
      validateTransferAsset v ''ETH'' ''erc20'' = None"
    "\<not> isEthereumChain chain \<Longrightarrow> canonicalTronAddress cx (str v ''toAddress'') \<and> canonicalTronAddress cx (str v ''fromAddress'') \<and>
      validateTransferAsset v ''TRX'' ''trc20'' = None"
    using transfer_asset_amount by blast+
qed

lemma authorization_key_accepts:
  "authorization_key cx v = Inr key \<Longrightarrow>
   (\<exists>pubRaw. hex_decode (str (rawObject v ''derivationContext'') ''expectedPublicKey'') = Some pubRaw \<and> cx_pubkey cx pubRaw = Some key) \<and>
   cx_derivationHash cx (derivation_context (rawObject v ''derivationContext'') (str v ''chain'')) =
     Some (str v ''derivationContextHash'') \<and>
   str (rawObject v ''derivationContext'') ''expectedAddress'' = str v ''fromAddress''"
  by (auto simp: authorization_key_def Let_def split: option.splits)

lemma ParseAuthorization_accepts:
  assumes "ParseAuthorization cx raw = Inr v"
  obtains f key where "cx_jcs cx raw = Some raw" "raw_object raw = Some v"
    "closed v authorization_names" "bounded (str v ''orgId'') 128" "bounded (str v ''requestId'') 128"
    "authorizationValidator cx (str v ''chain'') = Some f" "f v key = None" "authorization_key cx v = Inr key"
proof -
  from assms obtain x where x: "parse_object cx raw 16384 True = Inr x"
    by (auto simp: ParseAuthorization_def)
  obtain f where f: "authorizationValidator cx (str x ''chain'') = Some f"
    using assms x by (cases "authorizationValidator cx (str x ''chain'')") (auto simp: ParseAuthorization_def)
  from assms x f have "x = v" "closed x authorization_names" "bounded (str x ''orgId'') 128" "bounded (str x ''requestId'') 128"
    and "\<exists>key. authorization_key cx x = Inr key \<and> f x key = None"
    by (auto simp: ParseAuthorization_def)
  then show ?thesis using that f parse_object_canonical [OF x] by blast
qed

text \<open>
  C5. An accepted authorization is in canonical form and binds its sender: the sending address is
  the address, on a supported chain, of the public key in its derivation context, whose
  hash is the one it carries. Its amount is a positive number of at most 256 bits.
\<close>

theorem authorization_binds_sender:
  assumes "ParseAuthorization cx raw = Inr v"
  shows "cx_jcs cx raw = Some raw \<and> str v ''chain'' \<in> set chains \<and>
    (\<exists>pubRaw key. hex_decode (str (rawObject v ''derivationContext'') ''expectedPublicKey'') = Some pubRaw \<and>
      cx_pubkey cx pubRaw = Some key \<and> str v ''fromAddress'' = key_address cx (str v ''chain'') key) \<and>
    cx_derivationHash cx (derivation_context (rawObject v ''derivationContext'') (str v ''chain'')) =
      Some (str v ''derivationContextHash'') \<and>
    0 < digits_int (str v ''amountAtomic'') \<and> digits_int (str v ''amountAtomic'') < 2 ^ 256"
proof -
  obtain f key where a: "cx_jcs cx raw = Some raw" "authorizationValidator cx (str v ''chain'') = Some f"
    "f v key = None" "authorization_key cx v = Inr key"
    using assms by (rule ParseAuthorization_accepts)
  show ?thesis
    using a(1) authorization_key_accepts [OF a(4)] chain_validator_accepts(1,2,4,5) [OF a(2,3)] by blast
qed

section \<open>What an accepted receipt and page say\<close>

lemma VerifyReceipt_accepts:
  assumes "VerifyReceipt cx raw trusted = Inr r"
  shows "ParseReceipt cx raw = Inr r" "tv_Eligible trusted" "length (tv_PublicKey trusted) = 32"
    "cx_verify cx (tv_PublicKey trusted) (DecisionDomain @ rt_EnvelopeBytes r) (rt_Signature r)"
    "str (rt_Envelope r) ''orgId'' = tv_OrgID trusted" "str (rt_Envelope r) ''requestId'' = tv_RequestID trusted"
    "str (rt_Envelope r) ''authorizationHash'' = tv_AuthorizationHash trusted"
    "str (rt_Envelope r) ''signingKeyId'' = tv_SigningKeyID trusted"
  using assms by (auto simp: VerifyReceipt_def)

lemma ParseReceipt_envelope: "ParseReceipt cx raw = Inr r \<Longrightarrow> ParseDecisionEnvelope cx (rt_EnvelopeBytes r) = Inr (rt_Envelope r)"
  by (auto simp: ParseReceipt_def)

lemma SameReceipt_iff:
  "SameReceipt cx x y = Inr True \<longleftrightarrow> (\<exists>a b. ParseReceipt cx x = Inr a \<and> ParseReceipt cx y = Inr b \<and> a = b)"
proof -
  have eq: "a = b" if "ParseReceipt cx x = Inr a" "ParseReceipt cx y = Inr b"
    "rt_EnvelopeBytes a = rt_EnvelopeBytes b" "rt_Signature a = rt_Signature b" for a b
    using ParseReceipt_envelope [OF that(1)] ParseReceipt_envelope [OF that(2)] that(3,4)
    by (intro receipt.equality) simp_all
  show ?thesis
  proof (cases "ParseReceipt cx x"; cases "ParseReceipt cx y")
    fix a b
    assume "ParseReceipt cx x = Inr a" "ParseReceipt cx y = Inr b"
    then show ?thesis using eq by (auto simp: SameReceipt_def)
  qed (simp_all add: SameReceipt_def)
qed

definition row_before :: "string \<Rightarrow> string \<Rightarrow> wobj \<Rightarrow> bool" where
  "row_before created request row =
     (str_less created (str row ''createdAt'') \<or> (created = str row ''createdAt'' \<and> str_less request (str row ''requestId'')))"

definition row_org :: "crypto \<Rightarrow> wobj \<Rightarrow> (wire_err, string) result" where
  "row_org cx row = OrganizationID cx \<lparr>pi_RequestID = str row ''requestId'', pi_CreatedAt = '''',
     pi_Authorization = the (raw_field row ''authorization''), pi_AuthorizationHash = str row ''authorizationHash''\<rparr>"

lemma row_before_trans:
  "row_before t i a \<Longrightarrow> row_before (str a ''createdAt'') (str a ''requestId'') b \<Longrightarrow> row_before t i b"
  unfolding row_before_def by (elim disjE conjE) (simp_all add: str_less_trans [of _ "str a _"])

lemma row_before_intro:
  "\<not> str_less (str row ''createdAt'') t \<Longrightarrow> \<not> (str row ''createdAt'' = t \<and> \<not> str_less i (str row ''requestId'')) \<Longrightarrow> row_before t i row"
  using str_less_linear [of t "str row ''createdAt''"] unfolding row_before_def by blast

lemma parse_object_rows: "parse_object cx raw maximum canonical = Inr v \<Longrightarrow> raw_object raw = Some v"
  by (auto simp: parse_object_def split: if_splits option.splits)

lemma OrganizationID_nonempty: "OrganizationID cx item = Inr org \<Longrightarrow> org \<noteq> ''''"
  by (auto simp: OrganizationID_def bounded_def split: option.splits elim!: ParseAuthorization_accepts)

lemma page_rows_accepts:
  "page_rows cx items seen t i org = None \<Longrightarrow>
   \<exists>rows org'. map raw_object items = map Some rows \<and>
     sorted_wrt (\<lambda>a b. row_before (str a ''createdAt'') (str a ''requestId'') b) rows \<and>
     distinct (map (\<lambda>r. str r ''requestId'') rows) \<and> (\<forall>r \<in> set rows. str r ''requestId'' \<notin> set seen) \<and>
     (\<forall>r \<in> set rows. row_before t i r) \<and> (\<forall>r \<in> set rows. row_org cx r = Inr org') \<and> (org \<noteq> '''' \<longrightarrow> org' = org)"
proof (induction items arbitrary: seen t i org)
  case (Cons item items)
  then obtain row where row: "parse_object cx item 32768 False = Inr row" by (cases "parse_object cx item 32768 False") auto
  with Cons.prems obtain o' where o': "row_org cx row = Inr o'"
    by (cases "row_org cx row") (auto simp: row_org_def Let_def)
  let ?id = "str row ''requestId''"
  let ?created = "str row ''createdAt''"
  have head: "?id \<notin> set seen" "row_before t i row" "org \<noteq> '''' \<Longrightarrow> org = o'"
    "page_rows cx items (?id # seen) ?created ?id o' = None"
    using Cons.prems row o' by (auto simp: row_org_def Let_def intro: row_before_intro)
  obtain rows org' where r: "map raw_object items = map Some rows"
    "sorted_wrt (\<lambda>a b. row_before (str a ''createdAt'') (str a ''requestId'') b) rows"
    "distinct (map (\<lambda>r. str r ''requestId'') rows)" "\<forall>r \<in> set rows. str r ''requestId'' \<notin> set (?id # seen)"
    "\<forall>r \<in> set rows. row_before ?created ?id r" "\<forall>r \<in> set rows. row_org cx r = Inr org'" "o' \<noteq> '''' \<longrightarrow> org' = o'"
    using Cons.IH [OF head(4)] by blast
  have ne: "o' \<noteq> ''''" using o' OrganizationID_nonempty unfolding row_org_def by blast
  show ?case
  proof (intro exI [of _ "row # rows"] exI [of _ o'] conjI)
    show "distinct (map (\<lambda>r. str r ''requestId'') (row # rows))" using r(3,4) by auto
    show "\<forall>r \<in> set (row # rows). row_before t i r" using r(5) head(2) row_before_trans by auto
  qed (use r head row o' ne parse_object_rows [OF row] in auto)
qed auto


section \<open>A concrete authorization\<close>

definition ex_crypto :: crypto where
  "ex_crypto = \<lparr>cx_sha = (\<lambda>_. replicate 32 (CHR 0xAA)), cx_jcs = Some,
     cx_derivationHash = (\<lambda>_. Some (replicate 64 (CHR ''0''))), cx_pubkey = Some,
     cx_keccak = (\<lambda>_. replicate 32 (CHR 0x11)), cx_b58encode = (\<lambda>b _. b), cx_b58decode = (\<lambda>s. Some (s, 0x41)),
     cx_verify = (\<lambda>_ _ _. True)\<rparr>"

definition ex_address :: string where
  "ex_address = ''0x1111111111111111111111111111111111111111''"

definition ex_derivation :: "(string \<times> json) list" where
  "ex_derivation = [(''profileId'', JStr ''p''), (''profileTemplateId'', JStr ''t''), (''chain'', JStr ''ethereum:sepolia''), (''algorithm'', JStr ''ECDSA''), (''curve'', JStr ''secp256k1''),
     (''scheme'', JStr ''bip32_secp256k1''), (''accountPath'', JStr ''m''), (''childPath'', JStr ''0''),
     (''fullPath'', JStr ''m/0''), (''addressEncoding'', JStr ''evm_hex''), (''expectedAddress'', JStr ex_address),
     (''expectedPublicKey'', JStr (''04'' @ replicate 128 (CHR ''0''))), (''publicKeyFormat'', JStr ''uncompressed_hex''),
     (''descriptorVersion'', JNum ''1''), (''profileVersion'', JNum ''1''), (''keyVersion'', JNum ''1'')]"

definition ex_auth :: "(string \<times> json) list" where
  "ex_auth = [(''version'', JNum ''1''), (''orgId'', JStr ''org''), (''requestId'', JStr ''r1''),
     (''ledgerTransactionId'', JStr ''l''), (''clientReference'', JNull), (''accountId'', JStr ''a''), (''walletId'', JStr ''w''),
     (''keyId'', JStr ''k''), (''descriptorFingerprint'', JStr (replicate 43 (CHR ''A''))),
     (''derivationContextHash'', JStr (replicate 64 (CHR ''0''))), (''derivationContext'', JObj ex_derivation),
     (''chain'', JStr ''ethereum:sepolia''), (''fromAddress'', JStr ex_address), (''toAddress'', JStr ex_address),
     (''asset'', JStr ''ETH''), (''tokenStandard'', JNull), (''tokenContractCanonical'', JNull), (''tokenDecimals'', JNull),
     (''amountAtomic'', JStr ''5''), (''transferKind'', JStr ''EXTERNAL_WITHDRAWAL''), (''internalRecipient'', JNull),
     (''networkFeeAsset'', JStr ''ETH''), (''maxNetworkFeeAtomic'', JStr ''100''), (''requestedChainParams'', JNull)]"

definition ex_auth_raw :: bytes where
  "ex_auth_raw = print_json (JObj ex_auth)"

lemma ex_auth_printable: "printable_members ex_auth" "printable_members ex_derivation"
  by (simp_all add: ex_auth_def ex_derivation_def ex_address_def text_eval)

lemma parse_one: "parse_int64 ''1'' = Some 1"
  by code_simp

lemma ex_auth_object: "parse_object ex_crypto ex_auth_raw 16384 True = Inr (printed ex_auth)"
proof -
  have "keys_distinct (JObj ex_auth)" "text_bound (JObj ex_auth) \<le> 16384"
    by code_simp+
  moreover have "numbers_ok (JObj ex_auth)" by (simp add: ex_auth_def ex_derivation_def)
  ultimately show ?thesis
    unfolding ex_auth_raw_def using ex_auth_printable(1)
    by (intro parse_object_printed) (simp_all add: ex_crypto_def del: print_json.simps)
qed

lemma ex_auth_derivation: "rawObject (printed ex_auth) ''derivationContext'' = printed ex_derivation"
proof -
  have "map_of (rev ex_auth) ''derivationContext'' = Some (JObj ex_derivation)" by code_simp
  then show ?thesis by (simp add: rawObject_printed ex_auth_printable)
qed

lemmas ex_auth_eval = printed_eval [OF ex_auth_printable(1)] printed_eval [OF ex_auth_printable(2)]
  ex_auth_derivation closed_printed

lemma ex_auth_fields:
  "closed (printed ex_auth) authorization_names" "integer (printed ex_auth) ''version'' = 1"
  "list_all (\<lambda>k. bounded (str (printed ex_auth) k) 128)
     [''orgId'', ''requestId'', ''ledgerTransactionId'', ''accountId'', ''walletId'', ''keyId'']"
  "isNull (printed ex_auth) ''clientReference''"
  "parseSHA256Digest (str (printed ex_auth) ''descriptorFingerprint'') \<noteq> None"
  "hex256 (str (printed ex_auth) ''derivationContextHash'')"
  "str (printed ex_auth) ''chain'' = ''ethereum:sepolia''"
  unfolding list.pred_inject bounded_printed [OF ex_auth_printable(1)] unfolding ex_auth_eval by code_simp+

lemma ex_auth_key: "authorization_key ex_crypto (printed ex_auth) = Inr (CHR 0x04 # replicate 64 (CHR 0x00))"
proof -
  have "closed (printed ex_derivation) derivation_names"
    unfolding ex_auth_eval by code_simp
  moreover have "derivation_fields_ok (printed ex_derivation)"
    unfolding derivation_fields_ok_def bounded_printed [OF ex_auth_printable(2)] unfolding ex_auth_eval
    by (simp add: ex_derivation_def version_names_def ex_address_def parse_one)
  moreover have "hex_decode (str (printed ex_derivation) ''expectedPublicKey'') = Some (CHR 0x04 # replicate 64 (CHR 0x00))"
    unfolding ex_auth_eval by code_simp
  moreover have "str (printed ex_derivation) ''algorithm'' = ''ECDSA''" "str (printed ex_derivation) ''curve'' = ''secp256k1''"
    "str (printed ex_derivation) ''scheme'' = ''bip32_secp256k1''"
    "str (printed ex_derivation) ''publicKeyFormat'' = ''uncompressed_hex''"
    "str (printed ex_derivation) ''chain'' = ''ethereum:sepolia''"
    "str (printed ex_derivation) ''expectedAddress'' = str (printed ex_auth) ''fromAddress''"
    "str (printed ex_auth) ''derivationContextHash'' = replicate 64 (CHR ''0'')"
    unfolding ex_auth_eval by code_simp+
  ultimately show ?thesis
    using ex_auth_fields(7)
    by (simp add: authorization_key_def ex_auth_derivation guard_eval ex_crypto_def byte_val_def)
qed

lemma ex_auth_chain:
  "validateEthereumAuthorization ex_crypto (printed ex_auth) (CHR 0x04 # replicate 64 (CHR 0x00)) = None"
  "check_recipient (printed ex_auth) = None"
  unfolding validateEthereumAuthorization_def validateTransferAsset_def check_recipient_def Let_def ex_auth_eval
  by code_simp+

lemma ex_auth_parses: "ParseAuthorization ex_crypto ex_auth_raw = Inr (printed ex_auth)"
  using ex_auth_fields ex_auth_chain
  by (simp add: ParseAuthorization_def ex_auth_object ex_auth_key guard_eval authorizationValidator_def)

theorem authorization_binds_sender_witness:
  "str (printed ex_auth) ''chain'' \<in> set chains \<and> 0 < digits_int (str (printed ex_auth) ''amountAtomic'')"
  using authorization_binds_sender [OF ex_auth_parses] by blast

lemma raw_items_print:
  "printable_items vs \<Longrightarrow> vs \<noteq> [] \<Longrightarrow> length (print_items vs) < n \<Longrightarrow>
   raw_items n (print_items vs @ CHR '']'' # rest) = Some (map print_json vs)"
proof (induction n arbitrary: vs)
  case (Suc n)
  then obtain v vs' where vs: "vs = v # vs'" by (cases vs) auto
  show ?case
  proof (cases vs')
    case Nil
    then show ?thesis
      using Suc.prems parse_print(1) [of v "CHR '']'' # rest" n] by (simp add: vs)
  next
    case (Cons w us)
    obtain c r where c: "print_items (w # us) = c # r" "\<not> is_ws c"
      using print_items_first [of w us] Suc.prems(1) vs Cons by auto
    then have "skip_ws (print_items (w # us) @ CHR '']'' # rest) = print_items (w # us) @ CHR '']'' # rest"
      by (simp add: skip_ws_def)
    then show ?thesis
      using Suc.prems Suc.IH [of "w # us"] parse_print(1) [of v "CHR '','' # print_items (w # us) @ CHR '']'' # rest" n]
      by (simp add: vs Cons)
  qed
qed simp

lemma raw_array_print:
  assumes "printable_items vs"
  shows "raw_array (print_json (JArr vs)) = Some (map print_json vs)"
proof -
  have p: "json_parse (print_json (JArr vs)) = Some (JArr vs)"
    using assms by (intro json_parse_print) simp
  show ?thesis
  proof (cases vs)
    case (Cons v us)
    obtain c r where c: "print_items (v # us) = c # r" "\<not> is_ws c"
      using print_items_first [of v us] assms Cons by auto
    then have "skip_ws (print_items vs @ '']'') = print_items vs @ '']''"
      by (simp add: Cons skip_ws_def)
    then show ?thesis
      using raw_items_print [of vs "Suc (length (print_json (JArr vs)))" "[]"] assms p Cons
      by (simp add: raw_array_def skip_ws_def is_ws_def del: raw_items.simps)
  qed (use p in \<open>simp add: raw_array_def\<close>)
qed

definition ex_row :: "(string \<times> json) list" where
  "ex_row = [(''requestId'', JStr ''r1''), (''createdAt'', JStr ''2026-01-01T00:00:00.000Z''),
     (''authorization'', JObj ex_auth), (''authorizationHash'', JStr (hash ex_crypto ex_auth_raw))]"

definition ex_page :: "(string \<times> json) list" where
  "ex_page = [(''version'', JNum ''1''), (''items'', JArr [JObj ex_row]), (''nextCursor'', JNull)]"

lemma ex_timestamp: "timestamp ''2026-01-01T00:00:00.000Z''"
  by code_simp

lemma ex_hash: "hash ex_crypto raw = concat (replicate 32 ''aa'')"
proof -
  have "hex_encode [CHR 0xAA] = ''aa''" by code_simp
  then show ?thesis by (simp add: hash_def ex_crypto_def hex_encode_replicate)
qed

lemma ex_page_printable: "printable_members ex_row" "printable_members ex_page"
proof -
  show "printable_members ex_row"
    using ex_auth_printable(1) by (simp add: ex_row_def ex_hash text_eval) (simp add: list_all_iff)
  then show "printable_members ex_page" by (simp add: ex_page_def printable_def canonical_digits_def byte_val_def)
qed

lemma ex_row_object: "parse_object ex_crypto (print_json (JObj ex_row)) 32768 False = Inr (printed ex_row)"
proof (rule parse_object_printed)
  show "keys_distinct (JObj ex_row)" "text_bound (JObj ex_row) \<le> int 32768"
    unfolding ex_row_def ex_hash of_nat_numeral by code_simp+
qed (simp_all add: ex_page_printable)

lemma ex_row_org: "row_org ex_crypto (printed ex_row) = Inr ''org''"
proof -
  have "str (printed ex_row) ''requestId'' = str (printed ex_auth) ''requestId''" "str (printed ex_auth) ''orgId'' = ''org''"
    "str (printed ex_row) ''authorizationHash'' = concat (replicate 32 ''aa'')"
    unfolding ex_auth_eval printed_eval [OF ex_page_printable(1)] unfolding ex_row_def ex_hash by code_simp+
  moreover have "raw_field (printed ex_row) ''authorization'' = Some ex_auth_raw"
    unfolding raw_field_printed by (simp add: ex_row_def ex_auth_raw_def)
  moreover have "cx_jcs ex_crypto = Some" by (simp add: ex_crypto_def)
  ultimately show ?thesis
    by (simp add: row_org_def OrganizationID_def ex_auth_parses guard_eval ex_hash)
qed

lemma ex_page_parses: "ParsePendingPage ex_crypto (print_json (JObj ex_page)) = None"
proof -
  have "parse_object ex_crypto (print_json (JObj ex_page)) 2097152 False = Inr (printed ex_page)"
  proof (rule parse_object_printed)
    show "keys_distinct (JObj ex_page)" "text_bound (JObj ex_page) \<le> int 2097152"
      unfolding ex_page_def ex_row_def ex_hash of_nat_numeral by code_simp+
  qed (simp_all add: ex_page_printable)
  moreover have "Option.bind (raw_field (printed ex_page) ''items'') raw_array = Some [print_json (JObj ex_row)]"
    using raw_array_print [of "[JObj ex_row]"] ex_page_printable(1)
    unfolding raw_field_printed by (simp add: ex_page_def del: print_json.simps)
  moreover have "closed (printed ex_page) [''version'', ''items'', ''nextCursor'']" "integer (printed ex_page) ''version'' = 1"
    "isNull (printed ex_page) ''nextCursor''" "\<not> isNull (printed ex_page) ''items''"
    unfolding closed_printed printed_eval [OF ex_page_printable(2)] by (simp_all add: ex_page_def parse_one)
  moreover have "closed (printed ex_row) [''requestId'', ''createdAt'', ''authorization'', ''authorizationHash'']"
    "timestamp (str (printed ex_row) ''createdAt'')" "str (printed ex_row) ''createdAt'' \<noteq> ''''"
    unfolding closed_printed printed_eval [OF ex_page_printable(1)] by (simp_all add: ex_row_def ex_timestamp)
  ultimately show ?thesis
    using ex_row_object ex_row_org
    by (simp add: ParsePendingPage_def guard_eval row_org_def Let_def del: print_json.simps)
qed


end
