(* ===== verification/Prepared.thy ===== *)
theory Prepared
  imports ApprovalWire
begin

text \<open>
  Verification of a prepared transaction against the approved authorization
  (\<open>src/internal/signingpolicy/prepared.go\<close>, \<open>ethereum_prepared.go\<close>, \<open>tron_prepared.go\<close>).
  The RLP and protobuf codecs are packages outside the repository and are the record
  \<open>chainlib\<close>, a parameter: decoding gives the typed message, encoding its bytes.
\<close>

section \<open>Messages\<close>

record unsignedType2 =
  et_ChainID :: nat
  et_Nonce :: nat
  et_Priority :: nat
  et_MaxFee :: nat
  et_Gas :: nat
  et_To :: bytes
  et_Value :: nat
  et_Data :: bytes
  et_AccessList :: "bytes list"

datatype tron_type = TransferContract | TriggerSmartContract | OtherContract

record tronAny =
  ta_TypeUrl :: string
  ta_Value :: bytes
  ta_Unknown :: bytes

record tronContract =
  tc_Type :: tron_type
  tc_Parameter :: "tronAny option"
  tc_Provider :: bytes
  tc_ContractName :: bytes
  tc_PermissionId :: int
  tc_Unknown :: bytes

record tronRaw =
  rw_RefBlockBytes :: bytes
  rw_RefBlockNum :: int
  rw_RefBlockHash :: bytes
  rw_Expiration :: int
  rw_Auths :: "bytes list"
  rw_Data :: bytes
  rw_Contract :: "tronContract list"
  rw_Scripts :: bytes
  rw_Timestamp :: int
  rw_FeeLimit :: int
  rw_Unknown :: bytes

record tronTransfer =
  tt_OwnerAddress :: bytes
  tt_ToAddress :: bytes
  tt_Amount :: int
  tt_Unknown :: bytes

record tronTrigger =
  tg_OwnerAddress :: bytes
  tg_ContractAddress :: bytes
  tg_CallValue :: int
  tg_Data :: bytes
  tg_CallTokenValue :: int
  tg_TokenId :: int
  tg_Unknown :: bytes

record chainlib =
  xl_rlpDecode :: "bytes \<Rightarrow> unsignedType2 option"
  xl_rlpEncode :: "unsignedType2 \<Rightarrow> bytes option"
  xl_rawDecode :: "bytes \<Rightarrow> tronRaw option"
  xl_rawEncode :: "tronRaw \<Rightarrow> bytes option"
  xl_transferDecode :: "bytes \<Rightarrow> tronTransfer option"
  xl_transferEncode :: "tronTransfer \<Rightarrow> bytes option"
  xl_triggerDecode :: "bytes \<Rightarrow> tronTrigger option"
  xl_triggerEncode :: "tronTrigger \<Rightarrow> bytes option"
  xl_signedSize :: nat

datatype prepared_err = ErrPrepared

definition authString :: "wobj \<Rightarrow> string \<Rightarrow> string" where
  "authString a k = raw_string (raw_field a k)"

definition authObject :: "wobj \<Rightarrow> string \<Rightarrow> wobj" where
  "authObject a k = (case Option.bind (raw_field a k) raw_object of Some v \<Rightarrow> v | None \<Rightarrow> [])"

text \<open>\<open>nullEqual\<close> on an absent member compares nil bytes; \<open>json.Marshal\<close> of a nil pointer is null.\<close>

definition nullEqual :: "bytes option \<Rightarrow> json \<Rightarrow> bool" where
  "nullEqual v w = ((case v of Some raw \<Rightarrow> raw | None \<Rightarrow> []) = print_json w)"

definition json_of_string :: "string option \<Rightarrow> json" where
  "json_of_string s = (case s of Some t \<Rightarrow> JStr t | None \<Rightarrow> JNull)"

definition json_of_int :: "int option \<Rightarrow> json" where
  "json_of_int n = (case n of Some i \<Rightarrow> JNum (show_int i) | None \<Rightarrow> JNull)"

definition number :: "string \<Rightarrow> int" where
  "number v = (case parse_bigint v of Some n \<Rightarrow> n | None \<Rightarrow> 0)"

definition call_bytes :: "string \<Rightarrow> string \<Rightarrow> bytes" where
  "call_bytes address amount = (case transferCall address amount of Some b \<Rightarrow> b | None \<Rightarrow> [])"

record preparedVerification =
  pd_digest :: bytes
  pd_budget :: string

section \<open>Ethereum\<close>

definition type2_ok :: "chainlib \<Rightarrow> bytes \<Rightarrow> unsignedType2 \<Rightarrow> policy_context \<Rightarrow> bool" where
  "type2_ok xl raw tx p = (\<not> (xl_rlpEncode xl tx \<noteq> Some (tl raw) \<or> et_AccessList tx \<noteq> [] \<or> length (et_To tx) \<noteq> 20 \<or>
     show_nat (et_ChainID tx) \<noteq> ethereumChainID (pc_Chain p) \<or> show_nat (et_ChainID tx) \<noteq> pc_ChainID p \<or>
     show_nat (et_Nonce tx) \<noteq> pc_Nonce p \<or> show_nat (et_Gas tx) \<noteq> pc_GasLimit p \<or>
     show_nat (et_MaxFee tx) \<noteq> pc_MaxFeePerGas p \<or> show_nat (et_Priority tx) \<noteq> pc_MaxPriorityFeePerGas p \<or>
     et_Gas tx = 0 \<or> et_MaxFee tx = 0 \<or> et_Priority tx > et_MaxFee tx \<or> et_Value tx \<ge> 2 ^ 256 \<or>
     et_MaxFee tx \<ge> 2 ^ 256 \<or> et_Priority tx \<ge> 2 ^ 256 \<or> et_Gas tx \<ge> 2 ^ 64 \<or>
     int (et_Nonce tx) > maxProducerSafeInteger))"

definition verifyEthereumBytes :: "chainlib \<Rightarrow> bytes \<Rightarrow> policy_context \<Rightarrow> (prepared_err, string) result" where
  "verifyEthereumBytes xl raw p =
     (if length raw < 2 \<or> byte_val (hd raw) \<noteq> 2 then Inl ErrPrepared
      else (case xl_rlpDecode xl (tl raw) of
              None \<Rightarrow> Inl ErrPrepared
            | Some tx \<Rightarrow>
                check_res (fail_if (\<not> type2_ok xl raw tx p) ErrPrepared)
                (let to = ''0x'' @ hex_encode (et_To tx) in
                 check_res (case pc_TokenStandard p of
                     None \<Rightarrow> fail_if (pc_Asset p \<noteq> ''ETH'' \<or> to \<noteq> pc_ToAddress p \<or>
                        show_nat (et_Value tx) \<noteq> pc_AmountAtomic p \<or> et_Data tx \<noteq> []) ErrPrepared
                   | Some standard \<Rightarrow> fail_if (standard \<noteq> ''erc20'' \<or> pc_TokenContractCanonical p \<noteq> Some to \<or>
                        et_Value tx \<noteq> 0 \<or> et_Data tx \<noteq> call_bytes (pc_ToAddress p) (pc_AmountAtomic p)) ErrPrepared)
                 (Inr (show_nat (et_Gas tx * et_MaxFee tx))))))"

definition verifyEthereumPrepared ::
  "crypto \<Rightarrow> chainlib \<Rightarrow> bytes \<Rightarrow> preparedTransfer \<Rightarrow> policy_context \<Rightarrow> wobj \<Rightarrow> (prepared_err, preparedVerification) result" where
  "verifyEthereumPrepared cx xl raw prepared policy auth =
     check_res (fail_if (pr_NetworkFeeAsset prepared \<noteq> ''ETH'' \<or> \<not> nullEqual (Some (pr_FeeEvidence prepared)) JNull \<or>
        \<not> nullEqual (raw_field auth ''tokenStandard'') (json_of_string (pc_TokenStandard policy))) ErrPrepared)
     (bind_res (verifyEthereumBytes xl raw policy) (\<lambda>budget.
      (let params = authObject auth ''requestedChainParams''; p = authObject params ''ethereum'' in
       check_res (fail_if (params \<noteq> [] \<and> (authString p ''maxFeePerGas'' \<noteq> pc_MaxFeePerGas policy \<or>
          authString p ''maxPriorityFeePerGas'' \<noteq> pc_MaxPriorityFeePerGas policy)) ErrPrepared)
       (Inr \<lparr>pd_digest = cx_keccak cx raw, pd_budget = budget\<rparr>))))"

section \<open>TRON\<close>

record tronFeeParameters =
  fp_TransactionFeeSunPerBandwidth :: string
  fp_CreateAccountFeeSun :: string
  fp_CreateNewAccountFeeInSystemContractSun :: string
  fp_CreateNewAccountBandwidthRate :: string

record tronFeeQuote =
  fq_Version :: int
  fq_DestinationAccountExists :: bool
  fq_ChainParameters :: tronFeeParameters
  fq_AmountAtomic :: string
  fq_SignedTransactionBytes :: int
  fq_BandwidthBytes :: int

text \<open>
  \<open>closedStruct\<close>: no repeated key, exactly the members named by the struct tags, none of them
  null (the quote has no \<open>feeEvidence\<close> field), then each member decoded at its type.
\<close>

definition closed_members :: "string list \<Rightarrow> json \<Rightarrow> (string \<times> json) list option" where
  "closed_members names v = (case v of
     JObj ms \<Rightarrow> if keys_distinct v \<and> length ms = length names \<and>
         list_all (\<lambda>k. case map_of ms k of None \<Rightarrow> False | Some x \<Rightarrow> x \<noteq> JNull) names then Some ms else None
   | _ \<Rightarrow> None)"

definition as_string :: "json option \<Rightarrow> string option" where
  "as_string v = (case v of Some (JStr s) \<Rightarrow> Some s | _ \<Rightarrow> None)"

definition as_int :: "json option \<Rightarrow> int option" where
  "as_int v = (case v of Some (JNum s) \<Rightarrow> parse_int64 s | _ \<Rightarrow> None)"

definition as_bool :: "json option \<Rightarrow> bool option" where
  "as_bool v = (case v of Some (JBool b) \<Rightarrow> Some b | _ \<Rightarrow> None)"

definition decode_feeParameters :: "json \<Rightarrow> tronFeeParameters option" where
  "decode_feeParameters v =
     Option.bind (closed_members [''transactionFeeSunPerBandwidth'', ''createAccountFeeSun'',
       ''createNewAccountFeeInSystemContractSun'', ''createNewAccountBandwidthRate''] v) (\<lambda>ms.
     Option.bind (as_string (map_of ms ''transactionFeeSunPerBandwidth'')) (\<lambda>a.
     Option.bind (as_string (map_of ms ''createAccountFeeSun'')) (\<lambda>b.
     Option.bind (as_string (map_of ms ''createNewAccountFeeInSystemContractSun'')) (\<lambda>c.
     Option.bind (as_string (map_of ms ''createNewAccountBandwidthRate'')) (\<lambda>d.
     Some \<lparr>fp_TransactionFeeSunPerBandwidth = a, fp_CreateAccountFeeSun = b,
           fp_CreateNewAccountFeeInSystemContractSun = c, fp_CreateNewAccountBandwidthRate = d\<rparr>)))))"

definition decode_feeQuote :: "json \<Rightarrow> tronFeeQuote option" where
  "decode_feeQuote v =
     Option.bind (closed_members [''version'', ''destinationAccountExists'', ''chainParameters'', ''amountAtomic'',
       ''signedTransactionBytes'', ''bandwidthBytes''] v) (\<lambda>ms.
     Option.bind (as_int (map_of ms ''version'')) (\<lambda>version.
     Option.bind (as_bool (map_of ms ''destinationAccountExists'')) (\<lambda>ex.
     Option.bind (Option.bind (map_of ms ''chainParameters'') decode_feeParameters) (\<lambda>params.
     Option.bind (as_string (map_of ms ''amountAtomic'')) (\<lambda>amount.
     Option.bind (as_int (map_of ms ''signedTransactionBytes'')) (\<lambda>signed.
     Option.bind (as_int (map_of ms ''bandwidthBytes'')) (\<lambda>bandwidth.
     Some \<lparr>fq_Version = version, fq_DestinationAccountExists = ex, fq_ChainParameters = params,
           fq_AmountAtomic = amount, fq_SignedTransactionBytes = signed, fq_BandwidthBytes = bandwidth\<rparr>)))))))"

text \<open>\<open>strictProto\<close>: decode, no unknown fields, and the deterministic encoding gives the same bytes.\<close>

definition strictProto :: "(bytes \<Rightarrow> 'm option) \<Rightarrow> ('m \<Rightarrow> bytes option) \<Rightarrow> ('m \<Rightarrow> bytes) \<Rightarrow> bytes \<Rightarrow> 'm option" where
  "strictProto decode encode unknown raw = (case decode raw of
     None \<Rightarrow> None
   | Some m \<Rightarrow> if unknown m \<noteq> [] \<or> encode m \<noteq> Some raw then None else Some m)"

definition tronAddress :: "crypto \<Rightarrow> string \<Rightarrow> bytes" where
  "tronAddress cx address = (case cx_b58decode cx address of
     None \<Rightarrow> []
   | Some (p, v) \<Rightarrow> if v \<noteq> 0x41 \<or> length p \<noteq> 20 then [] else byte_of_nat v # p)"

text \<open>What \<open>hex.DecodeString\<close> returns beside an error: the bytes before it.\<close>

fun hex_prefix :: "string \<Rightarrow> bytes" where
  "hex_prefix (a # b # s) = (case (hex_val a, hex_val b) of
     (Some x, Some y) \<Rightarrow> byte_of_nat (16 * x + y) # hex_prefix s
   | _ \<Rightarrow> [])"
| "hex_prefix _ = []"

definition unixMilli :: "time \<Rightarrow> int" where
  "unixMilli t = t div millisecond"

definition tron_window_ok :: "tronRaw \<Rightarrow> int \<Rightarrow> bool" where
  "tron_window_ok tx ms = (\<not> (rw_Timestamp tx \<le> 0 \<or> rw_Timestamp tx > wrap64 (ms + 1000) \<or>
     wrap64 (rw_Expiration tx - ms) \<le> 60000 \<or> rw_Expiration tx \<le> rw_Timestamp tx \<or>
     wrap64 (rw_Expiration tx - rw_Timestamp tx) > 86340000))"

definition verifyTronBytes :: "crypto \<Rightarrow> chainlib \<Rightarrow> bytes \<Rightarrow> policy_context \<Rightarrow> time \<Rightarrow> prepared_err err" where
  "verifyTronBytes cx xl raw p now =
     (case strictProto (xl_rawDecode xl) (xl_rawEncode xl) rw_Unknown raw of
        None \<Rightarrow> Some ErrPrepared
      | Some tx \<Rightarrow>
          or_err (fail_if (length (rw_Contract tx) \<noteq> 1 \<or> length (rw_RefBlockBytes tx) \<noteq> 2 \<or> length (rw_RefBlockHash tx) \<noteq> 8 \<or>
             rw_RefBlockNum tx \<noteq> 0 \<or> rw_Auths tx \<noteq> [] \<or> rw_Data tx \<noteq> [] \<or> rw_Scripts tx \<noteq> [] \<or>
             \<not> tron_window_ok tx (unixMilli now) \<or> rw_FeeLimit tx < 0 \<or> rw_FeeLimit tx > maxProducerSafeInteger) ErrPrepared)
          (let c = hd (rw_Contract tx) in
           or_err (fail_if (tc_Unknown c \<noteq> [] \<or> tc_PermissionId c \<noteq> 0 \<or> tc_Provider c \<noteq> [] \<or> tc_ContractName c \<noteq> []) ErrPrepared)
           (case tc_Parameter c of
              None \<Rightarrow> Some ErrPrepared
            | Some param \<Rightarrow>
                or_err (fail_if (ta_Unknown param \<noteq> []) ErrPrepared)
                (case pc_TokenStandard p of
                   None \<Rightarrow>
                     (case strictProto (xl_transferDecode xl) (xl_transferEncode xl) tt_Unknown (ta_Value param) of
                        None \<Rightarrow> Some ErrPrepared
                      | Some v \<Rightarrow>
                          fail_if (tc_Type c \<noteq> TransferContract \<or> ta_TypeUrl param \<noteq> ''type.googleapis.com/protocol.TransferContract'' \<or>
                            tt_OwnerAddress v \<noteq> tronAddress cx (pc_FromAddress p) \<or> tt_ToAddress v \<noteq> tronAddress cx (pc_ToAddress p) \<or>
                            tt_Amount v \<le> 0 \<or> tt_Amount v > maxProducerSafeInteger \<or> show_int (tt_Amount v) \<noteq> pc_AmountAtomic p \<or>
                            rw_FeeLimit tx \<noteq> 0 \<or> pc_FeeLimitSun p \<noteq> None \<or> pc_Asset p \<noteq> ''TRX'') ErrPrepared)
                 | Some standard \<Rightarrow>
                     (let addr = tronAddress cx (pc_ToAddress p);
                          contract = (case pc_TokenContractCanonical p of
                             None \<Rightarrow> []
                           | Some t \<Rightarrow> CHR 0x41 # hex_prefix (TrimPrefix ''0x'' t))
                      in (case strictProto (xl_triggerDecode xl) (xl_triggerEncode xl) tg_Unknown (ta_Value param) of
                            None \<Rightarrow> Some ErrPrepared
                          | Some v \<Rightarrow>
                              fail_if ((standard \<noteq> ''trc20'' \<and> standard \<noteq> ''TRC20'') \<or> tc_Type c \<noteq> TriggerSmartContract \<or>
                                ta_TypeUrl param \<noteq> ''type.googleapis.com/protocol.TriggerSmartContract'' \<or>
                                tg_OwnerAddress v \<noteq> tronAddress cx (pc_FromAddress p) \<or> tg_ContractAddress v \<noteq> contract \<or>
                                length addr \<noteq> 21 \<or>
                                tg_Data v \<noteq> call_bytes (''0x'' @ hex_encode (drop 1 addr)) (pc_AmountAtomic p) \<or>
                                tg_CallValue v \<noteq> 0 \<or> tg_CallTokenValue v \<noteq> 0 \<or> tg_TokenId v \<noteq> 0 \<or>
                                pc_FeeLimitSun p \<noteq> Some (show_int (rw_FeeLimit tx)) \<or> rw_FeeLimit tx \<le> 0) ErrPrepared))))))"

fun varintSize :: "nat \<Rightarrow> nat" where
  "varintSize n = (if n \<ge> 128 then Suc (varintSize (n div 128)) else 1)"

declare varintSize.simps [simp del]

definition tronBudget :: "chainlib \<Rightarrow> bytes \<Rightarrow> policy_context \<Rightarrow> tronFeeQuote \<Rightarrow> string" where
  "tronBudget xl raw p q =
     (let params = fq_ChainParameters q;
          signed = xl_signedSize xl + length raw + varintSize (length raw) - 1;
          bandwidth = signed + 64;
          base = int bandwidth * number (fp_TransactionFeeSunPerBandwidth params);
          create = (if pc_FeeLimitSun p = None \<and> \<not> fq_DestinationAccountExists q
            then base * number (fp_CreateNewAccountBandwidthRate params) + number (fp_CreateAccountFeeSun params) +
                 number (fp_CreateNewAccountFeeInSystemContractSun params)
            else base)
      in if fq_Version q \<noteq> 1 \<or>
            list_ex (\<lambda>v. \<not> canonicalUint v) [fp_TransactionFeeSunPerBandwidth params, fp_CreateAccountFeeSun params,
              fp_CreateNewAccountFeeInSystemContractSun params, fp_CreateNewAccountBandwidthRate params, fq_AmountAtomic q] \<or>
            fq_SignedTransactionBytes q \<noteq> int signed \<or> fq_BandwidthBytes q \<noteq> int bandwidth then ''''
         else (case pc_FeeLimitSun p of
                 None \<Rightarrow> if show_int create \<noteq> fq_AmountAtomic q then '''' else show_int create
               | Some l \<Rightarrow>
                   if \<not> canonicalUint l then ''''
                   else (let budget = create + number l
                         in if show_int budget \<noteq> fq_AmountAtomic q then '''' else show_int budget)))"

definition canonicalTronPolicyToken :: "policy_context \<Rightarrow> string option" where
  "canonicalTronPolicyToken p =
     (if isTronChain (pc_Chain p) \<and> pc_TokenStandard p = Some ''TRC20'' then Some ''trc20'' else pc_TokenStandard p)"

definition verifyTronPrepared ::
  "crypto \<Rightarrow> chainlib \<Rightarrow> bytes \<Rightarrow> preparedTransfer \<Rightarrow> policy_context \<Rightarrow> wobj \<Rightarrow> time \<Rightarrow>
   (prepared_err, preparedVerification) result" where
  "verifyTronPrepared cx xl raw prepared policy auth now =
     (case Option.bind (json_parse (pr_FeeEvidence prepared)) decode_feeQuote of
        None \<Rightarrow> Inl ErrPrepared
      | Some quote \<Rightarrow>
          check_res (fail_if (pr_NetworkFeeAsset prepared \<noteq> ''TRX'' \<or>
             \<not> nullEqual (raw_field auth ''tokenStandard'') (json_of_string (canonicalTronPolicyToken policy))) ErrPrepared)
          (check_res (verifyTronBytes cx xl raw policy now)
          (let params = authObject auth ''requestedChainParams''; p = authObject params ''tron'' in
           check_res (fail_if (params \<noteq> [] \<and> raw_field p ''feeLimitSun'' \<noteq> Some ''null'' \<and>
              \<not> nullEqual (raw_field p ''feeLimitSun'') (json_of_string (pc_FeeLimitSun policy))) ErrPrepared)
           (Inr \<lparr>pd_digest = cx_sha cx raw, pd_budget = tronBudget xl raw policy quote\<rparr>))))"

section \<open>The verifier\<close>

definition verifyPrepared ::
  "crypto \<Rightarrow> chainlib \<Rightarrow> protocol \<Rightarrow> bytes \<Rightarrow> preparedTransfer \<Rightarrow> policy_context \<Rightarrow> wobj \<Rightarrow> time \<Rightarrow>
   (prepared_err, preparedVerification) result" where
  "verifyPrepared cx xl protocol raw prepared policy auth now = (case protocol of
     Ethereum \<Rightarrow> verifyEthereumPrepared cx xl raw prepared policy auth
   | Tron \<Rightarrow> verifyTronPrepared cx xl raw prepared policy auth now)"

definition approved_terms :: "policy_context \<Rightarrow> preparedTransfer \<Rightarrow> (string \<times> string) list" where
  "approved_terms policy prepared =
     [(''chain'', pc_Chain policy), (''asset'', pc_Asset policy), (''fromAddress'', pc_FromAddress policy),
      (''toAddress'', pc_ToAddress policy), (''amountAtomic'', pc_AmountAtomic policy),
      (''networkFeeAsset'', pr_NetworkFeeAsset prepared)]"

definition VerifyPrepared ::
  "crypto \<Rightarrow> chainlib \<Rightarrow> approvedExecution option \<Rightarrow> preparedTransfer option \<Rightarrow> policy_context option \<Rightarrow> bytes \<Rightarrow> string \<Rightarrow>
   string \<Rightarrow> time \<Rightarrow> (prepared_err, wobj) result" where
  "VerifyPrepared cx xl exec transfer policy digest payloadType algorithm now =
     (case (exec, transfer, policy) of
        (Some a, Some prepared, Some policy) \<Rightarrow>
          check_res (fail_if (ae_Version a \<noteq> 1 \<or> \<not> ValidReference (ae_OutgoingID a) \<or> ae_RequestID a = '''' \<or>
             pr_Version prepared \<noteq> 1 \<or> pr_Encoding prepared \<noteq> ''hex'' \<or> \<not> canonicalUint (pr_NetworkFeeBudgetAtomic prepared)) ErrPrepared)
          (case cx_jcs cx (ae_Authorization a) of
             None \<Rightarrow> Inl ErrPrepared
           | Some canonical \<Rightarrow>
               (case ParseAuthorization cx canonical of
                  Inl _ \<Rightarrow> Inl ErrPrepared
                | Inr auth \<Rightarrow>
                    check_res (fail_if (hex_encode (cx_sha cx canonical) \<noteq> ae_AuthorizationHash a \<or>
                       authString auth ''requestId'' \<noteq> ae_RequestID a) ErrPrepared)
                    (check_res (fail_if (list_ex (\<lambda>(k, w). authString auth k \<noteq> w) (approved_terms policy prepared)) ErrPrepared)
                    (check_res (fail_if (\<not> nullEqual (raw_field auth ''tokenDecimals'') (json_of_int (pc_TokenDecimals policy)) \<or>
                       \<not> nullEqual (raw_field auth ''tokenContractCanonical'') (json_of_string (pc_TokenContractCanonical policy)) \<or>
                       number (pr_NetworkFeeBudgetAtomic prepared) > number (authString auth ''maxNetworkFeeAtomic'')) ErrPrepared)
                    (case hex_decode (pr_UnsignedTransaction prepared) of
                       None \<Rightarrow> Inl ErrPrepared
                     | Some raw \<Rightarrow>
                         check_res (fail_if (raw = [] \<or> length raw > 16384 \<or> hex_encode raw \<noteq> pr_UnsignedTransaction prepared) ErrPrepared)
                         (case protocolForPayload payloadType of
                            None \<Rightarrow> Inl ErrPrepared
                          | Some protocol \<Rightarrow>
                              check_res (fail_if (algorithm \<noteq> hashAlgorithm protocol \<or> \<not> supportsChain protocol (pc_Chain policy)) ErrPrepared)
                              (bind_res (verifyPrepared cx xl protocol raw prepared policy auth now) (\<lambda>verified.
                               check_res (fail_if (pd_budget verified = '''' \<or>
                                  pd_budget verified \<noteq> pr_NetworkFeeBudgetAtomic prepared \<or> pd_digest verified \<noteq> digest) ErrPrepared)
                               (Inr auth)))))))))
      | _ \<Rightarrow> Inl ErrPrepared)"

section \<open>A verified transaction pays the approved terms\<close>

lemma authString_str: "authString = str"
  by (intro ext) (simp add: authString_def str_def)

lemma authObject_rawObject: "authObject = rawObject"
  by (intro ext) (simp add: authObject_def rawObject_def)

lemma nullEqual_Some: "nullEqual v w \<Longrightarrow> printable_json w \<Longrightarrow> v = Some (print_json w)"
  using print_json_first [of w] by (cases v) (auto simp: nullEqual_def)

lemma nullEqual_string:
  assumes "nullEqual (raw_field auth k) (json_of_string (Some s))" "printable s"
  shows "str auth k = s" "\<not> isNull auth k"
proof -
  have "raw_field auth k = Some (print_json (JStr s))"
    using nullEqual_Some [of "raw_field auth k" "JStr s"] assms by (simp add: json_of_string_def)
  then show "str auth k = s" "\<not> isNull auth k"
    using assms(2) json_parse_print [of "JStr s"] print_null_iff [of "JStr s"]
    by (simp_all add: str_def raw_string_def isNull_def)
qed

lemma nullEqual_null: "nullEqual (raw_field auth k) (json_of_string None) \<Longrightarrow> isNull auth k"
  using nullEqual_Some [of "raw_field auth k" JNull] by (simp add: json_of_string_def isNull_def)

lemma lower_hex_text: "list_all is_lower_hex h \<Longrightarrow> printable h"
  by (auto simp: printable_def list_all_iff is_lower_hex_def)

lemma hex_address_printable: "printable (''0x'' @ hex_encode b)"
proof -
  have "printable (hex_encode b)" using hex_encode_chars by (intro lower_hex_text) (auto simp: list_all_iff)
  moreover have "printable ''0x''" by code_simp
  ultimately show ?thesis by (simp only: printable_append)
qed

lemma evm_address_printable: "canonicalEVMAddress a \<Longrightarrow> printable a"
  using canonicalEVMAddress_hex [of a] lower_hex_text by (auto simp: printable_def byte_val_def)

lemma number_canonical: "canonical_digits s \<Longrightarrow> number s = digits_int s"
  by (simp add: number_def parse_bigint_canonical digits_int_val)

lemma number_show_nat [simp]: "number (show_nat n) = int n"
  by (simp add: number_def)

lemma hex_val_defined: "is_lower_hex c \<Longrightarrow> hex_val c \<noteq> None"
  by (auto simp: is_lower_hex_def hex_val_def)

lemma hex_decode_lower: "list_all is_lower_hex h \<Longrightarrow> even (length h) \<Longrightarrow> hex_decode h \<noteq> None"
proof (induction h rule: hex_decode.induct)
  case (3 a b s)
  then show ?case using hex_val_defined [of a] hex_val_defined [of b] by auto
qed auto

lemma transferCall_canonical:
  assumes "canonicalEVMAddress a" "canonical_digits m" "digits_int m < 2 ^ 256"
  shows "\<exists>b. transferCall a m = Some b"
proof -
  obtain h where h: "a = ''0x'' @ h" "length h = 40" "list_all is_lower_hex h"
    using canonicalEVMAddress_hex [OF assms(1)] by blast
  then obtain addr where d: "hex_decode h = Some addr" using hex_decode_lower by fastforce
  then have "length addr = 20" using length_hex_decode h(2) by fastforce
  moreover have "parse_bigint m = Some (digits_int m)" "0 \<le> digits_int m"
    using parse_bigint_canonical [OF assms(2)] by (simp_all add: digits_int_val)
  ultimately show ?thesis
    using assms(3) d h(1) TrimPrefix_0x [of h] by (simp add: transferCall_def)
qed

lemma VerifyPrepared_accepts:
  assumes "VerifyPrepared cx xl (Some a) (Some p) (Some pol) digest payloadType alg now = Inr auth"
  obtains canonical raw protocol ver where
    "cx_jcs cx (ae_Authorization a) = Some canonical" "ParseAuthorization cx canonical = Inr auth"
    "hash cx canonical = ae_AuthorizationHash a" "str auth ''requestId'' = ae_RequestID a"
    "list_all (\<lambda>(k, w). str auth k = w) (approved_terms pol p)"
    "nullEqual (raw_field auth ''tokenContractCanonical'') (json_of_string (pc_TokenContractCanonical pol))"
    "number (pr_NetworkFeeBudgetAtomic p) \<le> number (str auth ''maxNetworkFeeAtomic'')"
    "hex_decode (pr_UnsignedTransaction p) = Some raw"
    "protocolForPayload payloadType = Some protocol" "alg = hashAlgorithm protocol" "supportsChain protocol (str auth ''chain'')"
    "verifyPrepared cx xl protocol raw p pol auth now = Inr ver"
    "pd_budget ver = pr_NetworkFeeBudgetAtomic p" "pd_budget ver \<noteq> ''''" "pd_digest ver = digest"
proof -
  obtain canonical where c: "cx_jcs cx (ae_Authorization a) = Some canonical"
    using assms by (cases "cx_jcs cx (ae_Authorization a)") (auto simp: VerifyPrepared_def)
  moreover obtain x where x: "ParseAuthorization cx canonical = Inr x"
    using assms c by (cases "ParseAuthorization cx canonical") (auto simp: VerifyPrepared_def)
  moreover obtain raw where r: "hex_decode (pr_UnsignedTransaction p) = Some raw"
    using assms c x by (cases "hex_decode (pr_UnsignedTransaction p)") (auto simp: VerifyPrepared_def)
  moreover obtain protocol where pr: "protocolForPayload payloadType = Some protocol"
    using assms c x r by (cases "protocolForPayload payloadType") (auto simp: VerifyPrepared_def)
  moreover obtain ver where "verifyPrepared cx xl protocol raw p pol auth now = Inr ver" "x = auth"
    "pd_budget ver = pr_NetworkFeeBudgetAtomic p" "pd_budget ver \<noteq> ''''" "pd_digest ver = digest"
    using assms c x r pr by (auto simp: VerifyPrepared_def)
  moreover have "str auth ''chain'' = pc_Chain pol" "supportsChain protocol (pc_Chain pol)" "alg = hashAlgorithm protocol"
    "list_all (\<lambda>(k, w). str auth k = w) (approved_terms pol p)" "hash cx canonical = ae_AuthorizationHash a"
    "str auth ''requestId'' = ae_RequestID a"
    "nullEqual (raw_field auth ''tokenContractCanonical'') (json_of_string (pc_TokenContractCanonical pol))"
    "number (pr_NetworkFeeBudgetAtomic p) \<le> number (str auth ''maxNetworkFeeAtomic'')"
    using assms c x r pr \<open>x = auth\<close>
    by (auto simp: VerifyPrepared_def authString_str approved_terms_def hash_def)
  ultimately show ?thesis using that by metis
qed

lemma verifyEthereumBytes_accepts:
  assumes "verifyEthereumBytes xl raw pol = Inr budget"
  obtains tx where "xl_rlpDecode xl (tl raw) = Some tx" "xl_rlpEncode xl tx = Some (tl raw)" "length (et_To tx) = 20"
    "show_nat (et_ChainID tx) = ethereumChainID (pc_Chain pol)" "budget = show_nat (et_Gas tx * et_MaxFee tx)"
    "pc_TokenStandard pol = None \<longrightarrow> pc_Asset pol = ''ETH'' \<and> ''0x'' @ hex_encode (et_To tx) = pc_ToAddress pol \<and>
       show_nat (et_Value tx) = pc_AmountAtomic pol \<and> et_Data tx = []"
    "\<forall>s. pc_TokenStandard pol = Some s \<longrightarrow> s = ''erc20'' \<and> pc_TokenContractCanonical pol = Some (''0x'' @ hex_encode (et_To tx)) \<and>
       et_Value tx = 0 \<and> et_Data tx = call_bytes (pc_ToAddress pol) (pc_AmountAtomic pol)"
proof -
  obtain tx where tx: "xl_rlpDecode xl (tl raw) = Some tx"
    using assms by (cases "xl_rlpDecode xl (tl raw)") (auto simp: verifyEthereumBytes_def split: if_splits)
  have ok: "type2_ok xl raw tx pol" "budget = show_nat (et_Gas tx * et_MaxFee tx)"
    using assms tx by (simp_all add: verifyEthereumBytes_def Let_def split: if_splits)
  then have "xl_rlpEncode xl tx = Some (tl raw)" "length (et_To tx) = 20"
    "show_nat (et_ChainID tx) = ethereumChainID (pc_Chain pol)" "budget = show_nat (et_Gas tx * et_MaxFee tx)"
    unfolding type2_ok_def by blast+
  moreover have "pc_TokenStandard pol = None \<longrightarrow> pc_Asset pol = ''ETH'' \<and> ''0x'' @ hex_encode (et_To tx) = pc_ToAddress pol \<and>
       show_nat (et_Value tx) = pc_AmountAtomic pol \<and> et_Data tx = []"
    using assms tx by (auto simp: verifyEthereumBytes_def Let_def split: if_splits)
  moreover have "\<forall>s. pc_TokenStandard pol = Some s \<longrightarrow> s = ''erc20'' \<and> pc_TokenContractCanonical pol = Some (''0x'' @ hex_encode (et_To tx)) \<and>
       et_Value tx = 0 \<and> et_Data tx = call_bytes (pc_ToAddress pol) (pc_AmountAtomic pol)"
    using assms tx by (auto simp: verifyEthereumBytes_def Let_def split: if_splits)
  ultimately show ?thesis by (rule that [OF tx])
qed

text \<open>
  C2. A prepared Ethereum transaction that passes the verifier is the one whose Keccak hash is
  signed, is on the approved chain, and pays exactly the approved terms: the approved amount of
  ETH to the approved address with no call data, or the transfer call for that address and
  amount on the approved token contract with no value. The most it can pay in fees is within
  the approved maximum.
\<close>

theorem prepared_ethereum_pays_approved:
  assumes "VerifyPrepared cx xl (Some a) (Some p) (Some pol) digest ''ethereum-transaction'' alg now = Inr auth"
  shows "\<exists>raw tx. hex_decode (pr_UnsignedTransaction p) = Some raw \<and> digest = cx_keccak cx raw \<and>
    xl_rlpDecode xl (tl raw) = Some tx \<and> show_nat (et_ChainID tx) = ethereumChainID (str auth ''chain'') \<and>
    int (et_Gas tx * et_MaxFee tx) \<le> number (str auth ''maxNetworkFeeAtomic'') \<and>
    (if isNull auth ''tokenStandard''
     then str auth ''asset'' = ''ETH'' \<and> ''0x'' @ hex_encode (et_To tx) = str auth ''toAddress'' \<and>
       show_nat (et_Value tx) = str auth ''amountAtomic'' \<and> et_Data tx = []
     else str auth ''tokenStandard'' = ''erc20'' \<and> ''0x'' @ hex_encode (et_To tx) = str auth ''tokenContractCanonical'' \<and>
       et_Value tx = 0 \<and> transferCall (str auth ''toAddress'') (str auth ''amountAtomic'') = Some (et_Data tx))"
proof -
  obtain canonical raw protocol ver where v: "ParseAuthorization cx canonical = Inr auth"
    "list_all (\<lambda>(k, w). str auth k = w) (approved_terms pol p)"
    "nullEqual (raw_field auth ''tokenContractCanonical'') (json_of_string (pc_TokenContractCanonical pol))"
    "number (pr_NetworkFeeBudgetAtomic p) \<le> number (str auth ''maxNetworkFeeAtomic'')"
    "hex_decode (pr_UnsignedTransaction p) = Some raw" "protocolForPayload ''ethereum-transaction'' = Some protocol"
    "supportsChain protocol (str auth ''chain'')" "verifyPrepared cx xl protocol raw p pol auth now = Inr ver"
    "pd_budget ver = pr_NetworkFeeBudgetAtomic p" "pd_digest ver = digest"
    using assms by (rule VerifyPrepared_accepts)
  have eth: "protocol = Ethereum" "isEthereumChain (str auth ''chain'')"
    using v(6,7) by (auto simp: protocolForPayload_def)
  then have e: "verifyEthereumBytes xl raw pol = Inr (pd_budget ver)" "pd_digest ver = cx_keccak cx raw"
    "nullEqual (raw_field auth ''tokenStandard'') (json_of_string (pc_TokenStandard pol))"
    using v(8) by (auto simp: verifyPrepared_def verifyEthereumPrepared_def Let_def)
  obtain tx where tx: "xl_rlpDecode xl (tl raw) = Some tx" "length (et_To tx) = 20"
    "show_nat (et_ChainID tx) = ethereumChainID (pc_Chain pol)" "pd_budget ver = show_nat (et_Gas tx * et_MaxFee tx)"
    "pc_TokenStandard pol = None \<longrightarrow> pc_Asset pol = ''ETH'' \<and> ''0x'' @ hex_encode (et_To tx) = pc_ToAddress pol \<and>
       show_nat (et_Value tx) = pc_AmountAtomic pol \<and> et_Data tx = []"
    "\<forall>s. pc_TokenStandard pol = Some s \<longrightarrow> s = ''erc20'' \<and> pc_TokenContractCanonical pol = Some (''0x'' @ hex_encode (et_To tx)) \<and>
       et_Value tx = 0 \<and> et_Data tx = call_bytes (pc_ToAddress pol) (pc_AmountAtomic pol)"
    using e(1) by (rule verifyEthereumBytes_accepts)
  have terms: "str auth ''chain'' = pc_Chain pol" "str auth ''asset'' = pc_Asset pol" "str auth ''toAddress'' = pc_ToAddress pol"
    "str auth ''amountAtomic'' = pc_AmountAtomic pol"
    using v(2) by (simp_all add: approved_terms_def)
  obtain f key where f: "authorizationValidator cx (str auth ''chain'') = Some f" "f auth key = None"
    using v(1) by (rule ParseAuthorization_accepts)
  note ok = chain_validator_accepts [OF f]
  have fee: "int (et_Gas tx * et_MaxFee tx) \<le> number (str auth ''maxNetworkFeeAtomic'')"
    using v(4,9) tx(4) number_show_nat [of "et_Gas tx * et_MaxFee tx"] by simp
  show ?thesis
  proof (cases "pc_TokenStandard pol")
    case None
    then have "isNull auth ''tokenStandard''" using e(3) nullEqual_null by simp
    with None tx terms v(5,10) e(2) fee show ?thesis by auto
  next
    case (Some s)
    then have s: "s = ''erc20''" "pc_TokenContractCanonical pol = Some (''0x'' @ hex_encode (et_To tx))" "et_Value tx = 0"
      "et_Data tx = call_bytes (pc_ToAddress pol) (pc_AmountAtomic pol)" using tx(6) by blast+
    have t: "str auth ''tokenContractCanonical'' = ''0x'' @ hex_encode (et_To tx)"
      using v(3) s(2) nullEqual_string(1) [OF _ hex_address_printable] by simp
    have "printable ''erc20''" by code_simp
    then have "str auth ''tokenStandard'' = ''erc20''" "\<not> isNull auth ''tokenStandard''"
      using e(3) Some s(1) nullEqual_string by simp_all
    moreover obtain b where "transferCall (str auth ''toAddress'') (str auth ''amountAtomic'') = Some b"
      using transferCall_canonical ok(3,5,7) eth(2) by metis
    ultimately show ?thesis
      using s t tx(1,3) terms v(5,10) e(2) fee by (auto simp: call_bytes_def)
  qed
qed

subsection \<open>TRON\<close>

definition int64 :: "int \<Rightarrow> bool" where
  "int64 x \<longleftrightarrow> - (2 ^ 63) \<le> x \<and> x < 2 ^ 63"

lemma tron_window_exact:
  assumes "int64 (rw_Timestamp tx)" "int64 (rw_Expiration tx)" "0 \<le> ms" "ms < 2 ^ 62"
  shows "tron_window_ok tx ms \<longleftrightarrow> 0 < rw_Timestamp tx \<and> rw_Timestamp tx \<le> ms + 1000 \<and> ms + 60000 < rw_Expiration tx \<and>
    rw_Timestamp tx < rw_Expiration tx \<and> rw_Expiration tx \<le> rw_Timestamp tx + 86340000"
proof (cases "0 < rw_Timestamp tx \<and> rw_Timestamp tx < rw_Expiration tx")
  case True
  have "wrap64 (ms + 1000) = ms + 1000" "wrap64 (rw_Expiration tx - ms) = rw_Expiration tx - ms"
    "wrap64 (rw_Expiration tx - rw_Timestamp tx) = rw_Expiration tx - rw_Timestamp tx"
    using True assms by (auto intro!: wrap64_id simp: int64_def)
  with True show ?thesis by (auto simp: tron_window_ok_def)
qed (auto simp: tron_window_ok_def)

lemma tronAddress_canonical:
  "canonicalTronAddress cx a \<Longrightarrow> \<exists>p. cx_b58decode cx a = Some (p, 0x41) \<and> length p = 20 \<and> tronAddress cx a = CHR 0x41 # p"
proof -
  have "byte_of_nat 0x41 = CHR 0x41" by code_simp
  then show "canonicalTronAddress cx a \<Longrightarrow> ?thesis"
    by (auto simp: canonicalTronAddress_def tronAddress_def split: option.splits)
qed

text \<open>The contract inside a transaction, against the policy.\<close>

definition tron_pays :: "crypto \<Rightarrow> chainlib \<Rightarrow> tronRaw \<Rightarrow> string \<Rightarrow> string \<Rightarrow> string \<Rightarrow> string option \<Rightarrow> bool" where
  "tron_pays cx xl tx from to amount token \<longleftrightarrow>
     (\<exists>c param. rw_Contract tx = [c] \<and> tc_Parameter c = Some param \<and>
       (case token of
          None \<Rightarrow> (\<exists>v. tc_Type c = TransferContract \<and> xl_transferDecode xl (ta_Value param) = Some v \<and>
            tt_OwnerAddress v = tronAddress cx from \<and> tt_ToAddress v = tronAddress cx to \<and>
            show_int (tt_Amount v) = amount \<and> rw_FeeLimit tx = 0)
        | Some contract \<Rightarrow> (\<exists>v h. tc_Type c = TriggerSmartContract \<and> xl_triggerDecode xl (ta_Value param) = Some v \<and>
            tg_OwnerAddress v = tronAddress cx from \<and> hex_decode (TrimPrefix ''0x'' contract) = Some h \<and> length h = 20 \<and>
            tg_ContractAddress v = CHR 0x41 # h \<and> tg_CallValue v = 0 \<and> tg_CallTokenValue v = 0 \<and>
            transferCall (''0x'' @ hex_encode (drop 1 (tronAddress cx to))) amount = Some (tg_Data v))))"

lemma strictProto_Some: "strictProto decode encode unknown raw = Some m \<Longrightarrow> decode raw = Some m \<and> encode m = Some raw \<and> unknown m = []"
  by (auto simp: strictProto_def split: option.splits if_splits)

lemma verifyTronBytes_accepts:
  assumes "verifyTronBytes cx xl raw pol now = None"
  obtains tx c param where "xl_rawDecode xl raw = Some tx" "rw_Contract tx = [c]" "tc_Parameter c = Some param"
    "tron_window_ok tx (unixMilli now)"
    "pc_TokenStandard pol = None \<longrightarrow> (\<exists>v. tc_Type c = TransferContract \<and> xl_transferDecode xl (ta_Value param) = Some v \<and>
       tt_OwnerAddress v = tronAddress cx (pc_FromAddress pol) \<and> tt_ToAddress v = tronAddress cx (pc_ToAddress pol) \<and>
       show_int (tt_Amount v) = pc_AmountAtomic pol \<and> rw_FeeLimit tx = 0 \<and> pc_FeeLimitSun pol = None)"
    "pc_TokenStandard pol \<noteq> None \<longrightarrow> (\<exists>v. tc_Type c = TriggerSmartContract \<and> xl_triggerDecode xl (ta_Value param) = Some v \<and>
       tg_OwnerAddress v = tronAddress cx (pc_FromAddress pol) \<and> tg_CallValue v = 0 \<and> tg_CallTokenValue v = 0 \<and>
       tg_ContractAddress v = (case pc_TokenContractCanonical pol of
         None \<Rightarrow> []
       | Some t \<Rightarrow> CHR 0x41 # hex_prefix (TrimPrefix ''0x'' t)) \<and>
       length (tronAddress cx (pc_ToAddress pol)) = 21 \<and>
       tg_Data v = call_bytes (''0x'' @ hex_encode (drop 1 (tronAddress cx (pc_ToAddress pol)))) (pc_AmountAtomic pol) \<and>
       pc_FeeLimitSun pol = Some (show_int (rw_FeeLimit tx)))"
proof -
  obtain tx where tx: "strictProto (xl_rawDecode xl) (xl_rawEncode xl) rw_Unknown raw = Some tx"
    using assms by (cases "strictProto (xl_rawDecode xl) (xl_rawEncode xl) rw_Unknown raw") (auto simp: verifyTronBytes_def)
  with assms have "length (rw_Contract tx) = 1" "tron_window_ok tx (unixMilli now)"
    by (simp_all add: verifyTronBytes_def)
  then obtain c where c: "rw_Contract tx = [c]" "tron_window_ok tx (unixMilli now)"
    by (cases "rw_Contract tx") auto
  obtain param where p: "tc_Parameter c = Some param"
    using assms tx c by (cases "tc_Parameter c") (auto simp: verifyTronBytes_def)
  have n: "pc_TokenStandard pol = None \<Longrightarrow> \<exists>v. tc_Type c = TransferContract \<and> xl_transferDecode xl (ta_Value param) = Some v \<and>
       tt_OwnerAddress v = tronAddress cx (pc_FromAddress pol) \<and> tt_ToAddress v = tronAddress cx (pc_ToAddress pol) \<and>
       show_int (tt_Amount v) = pc_AmountAtomic pol \<and> rw_FeeLimit tx = 0 \<and> pc_FeeLimitSun pol = None"
    using assms tx c p strictProto_Some [of "xl_transferDecode xl" "xl_transferEncode xl" tt_Unknown "ta_Value param"]
    by (cases "strictProto (xl_transferDecode xl) (xl_transferEncode xl) tt_Unknown (ta_Value param)")
      (auto simp: verifyTronBytes_def)
  have "pc_TokenStandard pol \<noteq> None \<Longrightarrow> (\<exists>v. tc_Type c = TriggerSmartContract \<and> xl_triggerDecode xl (ta_Value param) = Some v \<and>
       tg_OwnerAddress v = tronAddress cx (pc_FromAddress pol) \<and> tg_CallValue v = 0 \<and> tg_CallTokenValue v = 0 \<and>
       tg_ContractAddress v = (case pc_TokenContractCanonical pol of
         None \<Rightarrow> []
       | Some t \<Rightarrow> CHR 0x41 # hex_prefix (TrimPrefix ''0x'' t)) \<and>
       length (tronAddress cx (pc_ToAddress pol)) = 21 \<and>
       tg_Data v = call_bytes (''0x'' @ hex_encode (drop 1 (tronAddress cx (pc_ToAddress pol)))) (pc_AmountAtomic pol) \<and>
       pc_FeeLimitSun pol = Some (show_int (rw_FeeLimit tx)))"
    using assms tx c p strictProto_Some [of "xl_triggerDecode xl" "xl_triggerEncode xl" tg_Unknown "ta_Value param"]
    by (cases "strictProto (xl_triggerDecode xl) (xl_triggerEncode xl) tg_Unknown (ta_Value param)")
      (auto simp: verifyTronBytes_def Let_def)
  then show ?thesis
    using that [of tx c param] strictProto_Some [OF tx] c p n by blast
qed

lemma hex_prefix_decode: "hex_decode s = Some b \<Longrightarrow> hex_prefix s = b"
  by (induction s arbitrary: b rule: hex_decode.induct) (auto split: option.splits)

lemma nullEqual_not_null: "nullEqual (raw_field auth k) (JStr s) \<Longrightarrow> \<not> isNull auth k"
  by (cases "raw_field auth k") (auto simp: nullEqual_def isNull_def marshal_string_def)

lemma address_bytes_canonical: "length p = 20 \<Longrightarrow> canonicalEVMAddress (''0x'' @ hex_encode p)"
  using hex_encode_chars [of _ p] length_hex_decode [OF hex_decode_encode [of p]]
  by (fastforce simp: canonicalEVMAddress_def has_prefix_def list_all_iff is_lower_hex_def)

lemma tron_asset:
  assumes "validateTransferAsset auth ''TRX'' ''trc20'' = None"
  shows "\<not> isNull auth ''tokenStandard'' \<Longrightarrow> str auth ''tokenStandard'' = ''trc20'' \<and> canonicalEVMAddress (str auth ''tokenContractCanonical'')"
  using assms by (simp add: validateTransferAsset_def Let_def split: if_splits)

text \<open>
  C3. A prepared TRON transaction that passes the verifier is the one whose SHA-256 is signed;
  its validity window, computed in 64-bit arithmetic, is the exact one (created at most a second
  ahead, more than a minute and at most 86340 seconds to run); and its only contract pays the
  approved terms from the approved address: the approved amount of TRX to the approved
  address, or the transfer call for that address and amount on the approved token contract.
  The budget it was checked against is within the approved maximum. The decoder returns 64-bit
  timestamps and the policy's token contract is printable text.
\<close>

theorem prepared_tron_pays_approved:
  assumes "VerifyPrepared cx xl (Some a) (Some p) (Some pol) digest ''tron-transaction'' alg now = Inr auth"
    and "0 \<le> unixMilli now" "unixMilli now < 2 ^ 62"
    and "\<And>raw tx. xl_rawDecode xl raw = Some tx \<Longrightarrow> int64 (rw_Timestamp tx) \<and> int64 (rw_Expiration tx)"
    and "\<And>t. pc_TokenContractCanonical pol = Some t \<Longrightarrow> printable t"
  shows "\<exists>raw tx. hex_decode (pr_UnsignedTransaction p) = Some raw \<and> digest = cx_sha cx raw \<and> xl_rawDecode xl raw = Some tx \<and>
    0 < rw_Timestamp tx \<and> rw_Timestamp tx \<le> unixMilli now + 1000 \<and> unixMilli now + 60000 < rw_Expiration tx \<and>
    rw_Expiration tx \<le> rw_Timestamp tx + 86340000 \<and>
    tron_pays cx xl tx (str auth ''fromAddress'') (str auth ''toAddress'') (str auth ''amountAtomic'')
      (if isNull auth ''tokenStandard'' then None else Some (str auth ''tokenContractCanonical'')) \<and>
    number (pr_NetworkFeeBudgetAtomic p) \<le> number (str auth ''maxNetworkFeeAtomic'')"
proof -
  obtain canonical raw protocol ver where v: "ParseAuthorization cx canonical = Inr auth"
    "list_all (\<lambda>(k, w). str auth k = w) (approved_terms pol p)"
    "nullEqual (raw_field auth ''tokenContractCanonical'') (json_of_string (pc_TokenContractCanonical pol))"
    "number (pr_NetworkFeeBudgetAtomic p) \<le> number (str auth ''maxNetworkFeeAtomic'')"
    "hex_decode (pr_UnsignedTransaction p) = Some raw" "protocolForPayload ''tron-transaction'' = Some protocol"
    "supportsChain protocol (str auth ''chain'')" "verifyPrepared cx xl protocol raw p pol auth now = Inr ver"
    "pd_digest ver = digest"
    using assms(1) by (rule VerifyPrepared_accepts)
  have tron: "protocol = Tron" "\<not> isEthereumChain (str auth ''chain'')"
    using v(6,7) by (auto simp: protocolForPayload_def isTronChain_def isEthereumChain_def ethereumChainID_def)
  then have e: "verifyTronBytes cx xl raw pol now = None" "pd_digest ver = cx_sha cx raw"
    "nullEqual (raw_field auth ''tokenStandard'') (json_of_string (canonicalTronPolicyToken pol))"
    using v(8) by (auto simp: verifyPrepared_def verifyTronPrepared_def Let_def split: option.splits)
  obtain tx c param where tx: "xl_rawDecode xl raw = Some tx" "rw_Contract tx = [c]" "tc_Parameter c = Some param"
    "tron_window_ok tx (unixMilli now)"
    "pc_TokenStandard pol = None \<longrightarrow> (\<exists>v. tc_Type c = TransferContract \<and> xl_transferDecode xl (ta_Value param) = Some v \<and>
       tt_OwnerAddress v = tronAddress cx (pc_FromAddress pol) \<and> tt_ToAddress v = tronAddress cx (pc_ToAddress pol) \<and>
       show_int (tt_Amount v) = pc_AmountAtomic pol \<and> rw_FeeLimit tx = 0 \<and> pc_FeeLimitSun pol = None)"
    "pc_TokenStandard pol \<noteq> None \<longrightarrow> (\<exists>v. tc_Type c = TriggerSmartContract \<and> xl_triggerDecode xl (ta_Value param) = Some v \<and>
       tg_OwnerAddress v = tronAddress cx (pc_FromAddress pol) \<and> tg_CallValue v = 0 \<and> tg_CallTokenValue v = 0 \<and>
       tg_ContractAddress v = (case pc_TokenContractCanonical pol of
         None \<Rightarrow> []
       | Some t \<Rightarrow> CHR 0x41 # hex_prefix (TrimPrefix ''0x'' t)) \<and>
       length (tronAddress cx (pc_ToAddress pol)) = 21 \<and>
       tg_Data v = call_bytes (''0x'' @ hex_encode (drop 1 (tronAddress cx (pc_ToAddress pol)))) (pc_AmountAtomic pol) \<and>
       pc_FeeLimitSun pol = Some (show_int (rw_FeeLimit tx)))"
    using e(1) by (rule verifyTronBytes_accepts)
  note window = tron_window_exact [OF conjunct1 [OF assms(4) [OF tx(1)]] conjunct2 [OF assms(4) [OF tx(1)]] assms(2,3)]
  have terms: "str auth ''fromAddress'' = pc_FromAddress pol" "str auth ''toAddress'' = pc_ToAddress pol"
    "str auth ''amountAtomic'' = pc_AmountAtomic pol"
    using v(2) by (simp_all add: approved_terms_def)
  obtain f key where f: "authorizationValidator cx (str auth ''chain'') = Some f" "f auth key = None"
    using v(1) by (rule ParseAuthorization_accepts)
  note ok = chain_validator_accepts [OF f]
  have pays: "tron_pays cx xl tx (str auth ''fromAddress'') (str auth ''toAddress'') (str auth ''amountAtomic'')
      (if isNull auth ''tokenStandard'' then None else Some (str auth ''tokenContractCanonical''))"
  proof (cases "pc_TokenStandard pol")
    case None
    then have "isNull auth ''tokenStandard''"
      using e(3) nullEqual_null by (simp add: canonicalTronPolicyToken_def)
    with None tx terms show ?thesis by (auto simp: tron_pays_def)
  next
    case (Some s)
    then have nn: "\<not> isNull auth ''tokenStandard''"
      using e(3) nullEqual_not_null by (auto simp: canonicalTronPolicyToken_def json_of_string_def split: if_splits)
    with tron_asset ok(8) tron(2) have evm: "canonicalEVMAddress (str auth ''tokenContractCanonical'')" by blast
    then have ne: "str auth ''tokenContractCanonical'' \<noteq> ''''" by (auto simp: canonicalEVMAddress_def)
    obtain t where t: "pc_TokenContractCanonical pol = Some t" "str auth ''tokenContractCanonical'' = t"
    proof (cases "pc_TokenContractCanonical pol")
      case None
      then have "str auth ''tokenContractCanonical'' = ''''"
        using v(3) nullEqual_null [of auth "''tokenContractCanonical''"]
        by (simp add: str_def isNull_def raw_string_def json_parse_print [of JNull, simplified])
      with ne show ?thesis by simp
    next
      case (Some t)
      then show ?thesis using that v(3) nullEqual_string(1) [of auth _ t] assms(5) by simp
    qed
    obtain h where h: "hex_decode (TrimPrefix ''0x'' t) = Some h" "length h = 20"
    proof -
      obtain d where d: "t = ''0x'' @ d" "length d = 40" "list_all is_lower_hex d"
        using canonicalEVMAddress_hex [OF evm] t(2) by blast
      then obtain h where "hex_decode d = Some h" using hex_decode_lower by fastforce
      then show ?thesis using that d length_hex_decode [of d h] TrimPrefix_0x [of d] by simp
    qed
    obtain q where q: "length q = 20" "tronAddress cx (pc_ToAddress pol) = CHR 0x41 # q"
      using tronAddress_canonical ok(8) tron(2) terms(2) by metis
    obtain b where b: "transferCall (''0x'' @ hex_encode q) (pc_AmountAtomic pol) = Some b"
      using transferCall_canonical [OF address_bytes_canonical [OF q(1)]] ok(3,5) terms(3) by metis
    have "hex_prefix (TrimPrefix ''0x'' t) = h" using hex_prefix_decode [OF h(1)] .
    then show ?thesis
      using tx(2,3,6) Some nn t h q b terms by (auto simp: tron_pays_def call_bytes_def)
  qed
  show ?thesis
    using v(4,5,9) e(2) tx(1,4) window pays by blast
qed

section \<open>Witnesses\<close>

definition ex_tx :: unsignedType2 where
  "ex_tx = \<lparr>et_ChainID = 11155111, et_Nonce = 0, et_Priority = 1, et_MaxFee = 2, et_Gas = 3, et_To = replicate 20 (CHR 0x11),
     et_Value = 5, et_Data = [], et_AccessList = []\<rparr>"

definition ex_tron :: tronRaw where
  "ex_tron = \<lparr>rw_RefBlockBytes = ''ab'', rw_RefBlockNum = 0, rw_RefBlockHash = ''abcdefgh'', rw_Expiration = 200000, rw_Auths = [],
     rw_Data = [], rw_Contract = [\<lparr>tc_Type = TransferContract,
       tc_Parameter = Some \<lparr>ta_TypeUrl = ''type.googleapis.com/protocol.TransferContract'', ta_Value = ''v'', ta_Unknown = []\<rparr>,
       tc_Provider = [], tc_ContractName = [], tc_PermissionId = 0, tc_Unknown = []\<rparr>], rw_Scripts = [],
     rw_Timestamp = 100000, rw_FeeLimit = 0, rw_Unknown = []\<rparr>"

definition ex_chainlib :: chainlib where
  "ex_chainlib = \<lparr>xl_rlpDecode = (\<lambda>_. Some ex_tx), xl_rlpEncode = (\<lambda>_. Some [CHR 0xC0]),
     xl_rawDecode = (\<lambda>_. Some ex_tron), xl_rawEncode = (\<lambda>_. Some [CHR 0x02, CHR 0xC0]),
     xl_transferDecode = (\<lambda>_. Some \<lparr>tt_OwnerAddress = CHR 0x41 # replicate 20 (CHR ''a''),
       tt_ToAddress = CHR 0x41 # replicate 20 (CHR ''a''), tt_Amount = 5, tt_Unknown = []\<rparr>),
     xl_transferEncode = (\<lambda>_. Some ''v''), xl_triggerDecode = (\<lambda>_. None), xl_triggerEncode = (\<lambda>_. None), xl_signedSize = 69\<rparr>"

definition ex_exec :: approvedExecution where
  "ex_exec = \<lparr>ae_Version = 1, ae_RequestID = ''r1'', ae_OutgoingID = ''o1'', ae_Authorization = ex_auth_raw,
     ae_AuthorizationHash = concat (replicate 32 ''aa''), ae_DecisionReceipt = []\<rparr>"

definition ex_transfer :: preparedTransfer where
  "ex_transfer = \<lparr>pr_Version = 1, pr_Encoding = ''hex'', pr_UnsignedTransaction = ''02c0'', pr_NetworkFeeAsset = ''ETH'',
     pr_NetworkFeeBudgetAtomic = ''6'', pr_FeeEvidence = ''null''\<rparr>"

definition ex_terms :: policy_context where
  "ex_terms = \<lparr>pc_AmountAtomic = ''5'', pc_Asset = ''ETH'', pc_Chain = ''ethereum:sepolia'', pc_ChainID = ''11155111'',
     pc_FeeLimitSun = None, pc_FromAddress = ex_address, pc_GasLimit = ''3'', pc_MaxFeePerGas = ''2'',
     pc_MaxPriorityFeePerGas = ''1'', pc_Nonce = ''0'', pc_ToAddress = ex_address, pc_TokenContractCanonical = None,
     pc_TokenDecimals = None, pc_TokenStandard = None, pc_TransactionType = 2, pc_Version = 1\<rparr>"

lemma ex_chain_id: "show_nat 11155111 = ''11155111''"
proof -
  have "digit_char 1 = CHR ''1''" "digit_char 5 = CHR ''5''" by code_simp+
  then show ?thesis by (simp add: show_nat_ge_10 show_nat_less_10)
qed

lemma ex_bytes_ok: "verifyEthereumBytes ex_chainlib [CHR 0x02, CHR 0xC0] ex_terms = Inr ''6''"
proof -
  have "ethereumChainID ''ethereum:sepolia'' = ''11155111''" by code_simp
  moreover have "show_nat 0 = ''0''" "show_nat 3 = ''3''" "show_nat 2 = ''2''" "show_nat 1 = ''1''" "show_nat 5 = ''5''"
    "show_nat 6 = ''6''" "''0x'' @ hex_encode (replicate 20 (CHR 0x11)) = ex_address" "byte_val (CHR 0x02) = 2"
    by code_simp+
  ultimately show ?thesis
    by (simp add: verifyEthereumBytes_def type2_ok_def ex_chainlib_def ex_tx_def ex_terms_def ex_chain_id
        maxProducerSafeInteger_def guard_eval Let_def)
qed

lemma ex_auth_terms:
  "str (printed ex_auth) ''requestId'' = ''r1''" "str (printed ex_auth) ''maxNetworkFeeAtomic'' = ''100''"
  "list_all (\<lambda>(k, w). str (printed ex_auth) k = w) (approved_terms ex_terms ex_transfer)"
  "raw_field (printed ex_auth) ''tokenStandard'' = Some ''null''" "raw_field (printed ex_auth) ''tokenDecimals'' = Some ''null''"
  "raw_field (printed ex_auth) ''tokenContractCanonical'' = Some ''null''"
  "rawObject (printed ex_auth) ''requestedChainParams'' = []"
  unfolding ex_auth_eval approved_terms_def list.pred_inject prod.case raw_field_printed by code_simp+

lemma ex_prepared_ok:
  "VerifyPrepared ex_crypto ex_chainlib (Some ex_exec) (Some ex_transfer) (Some ex_terms) (replicate 32 (CHR 0x11))
     ''ethereum-transaction'' ''keccak256'' 0 = Inr (printed ex_auth)"
proof -
  have jcs: "cx_jcs ex_crypto = Some" "cx_sha ex_crypto = (\<lambda>_. replicate 32 (CHR 0xAA))"
    "cx_keccak ex_crypto = (\<lambda>_. replicate 32 (CHR 0x11))" by (simp_all add: ex_crypto_def)
  have "hex_encode (replicate 32 (CHR 0xAA)) = concat (replicate 32 ''aa'')" using ex_hash [of "[]"] by (simp add: hash_def ex_crypto_def)
  moreover have "ValidReference ''o1''" "canonicalUint ''6''"
    "number ''6'' \<le> number ''100''" "hex_decode ''02c0'' = Some [CHR 0x02, CHR 0xC0]" "hex_encode [CHR 0x02, CHR 0xC0] = ''02c0''"
    "protocolForPayload ''ethereum-transaction'' = Some Ethereum" "hashAlgorithm Ethereum = ''keccak256''"
    "supportsChain Ethereum ''ethereum:sepolia''"
    by code_simp+
  moreover have "list_ex (\<lambda>(k, w). str (printed ex_auth) k \<noteq> w) (approved_terms ex_terms ex_transfer) = False"
    using ex_auth_terms(3) by (auto simp: list_all_iff list_ex_iff)
  moreover have "verifyPrepared ex_crypto ex_chainlib Ethereum [CHR 0x02, CHR 0xC0] ex_transfer ex_terms (printed ex_auth) 0 =
      Inr \<lparr>pd_digest = replicate 32 (CHR 0x11), pd_budget = ''6''\<rparr>"
    using ex_auth_terms(4,7)
    by (simp add: verifyPrepared_def verifyEthereumPrepared_def ex_bytes_ok ex_transfer_def ex_terms_def nullEqual_def
        json_of_string_def guard_eval Let_def jcs authObject_rawObject) (simp add: ex_terms_def [symmetric] ex_bytes_ok guard_eval)
  ultimately show ?thesis
    using ex_auth_terms ex_auth_parses jcs
    by (simp add: VerifyPrepared_def ex_exec_def authString_str guard_eval)
      (simp add: ex_transfer_def ex_terms_def nullEqual_def json_of_int_def json_of_string_def guard_eval)
qed

theorem prepared_ethereum_pays_approved_witness:
  "\<exists>raw tx. hex_decode (pr_UnsignedTransaction ex_transfer) = Some raw \<and> xl_rlpDecode ex_chainlib (tl raw) = Some tx \<and>
     int (et_Gas tx * et_MaxFee tx) \<le> number (str (printed ex_auth) ''maxNetworkFeeAtomic'')"
  using prepared_ethereum_pays_approved [OF ex_prepared_ok] by blast

subsection \<open>TRON\<close>

definition ex_tron_crypto :: crypto where
  "ex_tron_crypto = ex_crypto\<lparr>cx_keccak := \<lambda>_. replicate 32 (CHR ''a'')\<rparr>"

definition ex_tron_derivation :: "(string \<times> json) list" where
  "ex_tron_derivation = [(''profileId'', JStr ''p''), (''profileTemplateId'', JStr ''t''), (''profileVersion'', JNum ''1''),
     (''chain'', JStr ''tron:nile''), (''algorithm'', JStr ''ECDSA''), (''curve'', JStr ''secp256k1''),
     (''scheme'', JStr ''bip32_secp256k1''), (''accountPath'', JStr ''m''), (''childPath'', JStr ''0''),
     (''fullPath'', JStr ''m/0''), (''addressEncoding'', JStr ''tron_base58''), (''expectedAddress'', JStr (replicate 20 (CHR ''a''))),
     (''expectedPublicKey'', JStr (''04'' @ replicate 128 (CHR ''0''))), (''publicKeyFormat'', JStr ''uncompressed_hex''),
     (''descriptorVersion'', JNum ''1''), (''keyVersion'', JNum ''1'')]"

definition ex_tron_auth :: "(string \<times> json) list" where
  "ex_tron_auth = [(''version'', JNum ''1''), (''orgId'', JStr ''org''), (''requestId'', JStr ''r1''),
     (''ledgerTransactionId'', JStr ''l''), (''clientReference'', JNull), (''accountId'', JStr ''a''), (''walletId'', JStr ''w''),
     (''keyId'', JStr ''k''), (''descriptorFingerprint'', JStr (replicate 43 (CHR ''A''))),
     (''derivationContextHash'', JStr (replicate 64 (CHR ''0''))), (''derivationContext'', JObj ex_tron_derivation),
     (''chain'', JStr ''tron:nile''), (''fromAddress'', JStr (replicate 20 (CHR ''a''))), (''toAddress'', JStr (replicate 20 (CHR ''a''))),
     (''asset'', JStr ''TRX''), (''tokenStandard'', JNull), (''tokenContractCanonical'', JNull), (''tokenDecimals'', JNull),
     (''amountAtomic'', JStr ''5''), (''transferKind'', JStr ''EXTERNAL_WITHDRAWAL''), (''internalRecipient'', JNull),
     (''networkFeeAsset'', JStr ''TRX''), (''maxNetworkFeeAtomic'', JStr ''1000''), (''requestedChainParams'', JNull)]"

lemma ex_tron_printable: "printable_members ex_tron_auth" "printable_members ex_tron_derivation"
  by (simp_all add: ex_tron_auth_def ex_tron_derivation_def text_eval)

lemma ex_tron_object:
  "parse_object ex_tron_crypto (print_json (JObj ex_tron_auth)) 16384 True = Inr (printed ex_tron_auth)"
proof -
  have "keys_distinct (JObj ex_tron_auth)" "text_bound (JObj ex_tron_auth) \<le> 16384"
    by code_simp+
  moreover have "numbers_ok (JObj ex_tron_auth)"
    by (simp add: ex_tron_auth_def ex_tron_derivation_def)
  ultimately show ?thesis
    using ex_tron_printable(1)
    by (intro parse_object_printed) (simp_all add: ex_tron_crypto_def ex_crypto_def del: print_json.simps)
qed

lemma ex_tron_derivation_object: "rawObject (printed ex_tron_auth) ''derivationContext'' = printed ex_tron_derivation"
proof -
  have "map_of (rev ex_tron_auth) ''derivationContext'' = Some (JObj ex_tron_derivation)" by code_simp
  then show ?thesis by (simp add: rawObject_printed ex_tron_printable)
qed

lemmas ex_tron_eval = printed_eval [OF ex_tron_printable(1)] printed_eval [OF ex_tron_printable(2)]
  ex_tron_derivation_object closed_printed

lemma ex_tron_key: "authorization_key ex_tron_crypto (printed ex_tron_auth) = Inr (CHR 0x04 # replicate 64 (CHR 0x00))"
proof -
  have "closed (printed ex_tron_derivation) derivation_names"
    unfolding ex_tron_eval by code_simp
  moreover have "derivation_fields_ok (printed ex_tron_derivation)"
    unfolding derivation_fields_ok_def bounded_printed [OF ex_tron_printable(2)] unfolding ex_tron_eval
    by (simp add: ex_tron_derivation_def version_names_def parse_one)
  moreover have "hex_decode (str (printed ex_tron_derivation) ''expectedPublicKey'') = Some (CHR 0x04 # replicate 64 (CHR 0x00))"
    unfolding ex_tron_eval by code_simp
  moreover have "str (printed ex_tron_derivation) ''algorithm'' = ''ECDSA''" "str (printed ex_tron_derivation) ''curve'' = ''secp256k1''"
    "str (printed ex_tron_derivation) ''scheme'' = ''bip32_secp256k1''"
    "str (printed ex_tron_derivation) ''publicKeyFormat'' = ''uncompressed_hex''"
    "str (printed ex_tron_derivation) ''chain'' = str (printed ex_tron_auth) ''chain''"
    "str (printed ex_tron_derivation) ''expectedAddress'' = str (printed ex_tron_auth) ''fromAddress''"
    "str (printed ex_tron_auth) ''derivationContextHash'' = replicate 64 (CHR ''0'')"
    unfolding ex_tron_eval by code_simp+
  ultimately show ?thesis
    by (simp add: authorization_key_def ex_tron_derivation_object guard_eval ex_tron_crypto_def ex_crypto_def byte_val_def)
qed

lemma ex_tron_parses: "ParseAuthorization ex_tron_crypto (print_json (JObj ex_tron_auth)) = Inr (printed ex_tron_auth)"
proof -
  have "closed (printed ex_tron_auth) authorization_names" "integer (printed ex_tron_auth) ''version'' = 1"
    "list_all (\<lambda>k. bounded (str (printed ex_tron_auth) k) 128)
       [''orgId'', ''requestId'', ''ledgerTransactionId'', ''accountId'', ''walletId'', ''keyId'']"
    "isNull (printed ex_tron_auth) ''clientReference''"
    "parseSHA256Digest (str (printed ex_tron_auth) ''descriptorFingerprint'') \<noteq> None"
    "hex256 (str (printed ex_tron_auth) ''derivationContextHash'')" "str (printed ex_tron_auth) ''chain'' = ''tron:nile''"
    unfolding list.pred_inject bounded_printed [OF ex_tron_printable(1)] unfolding ex_tron_eval by code_simp+
  moreover have "validateTronAuthorization ex_tron_crypto (printed ex_tron_auth) (CHR 0x04 # replicate 64 (CHR 0x00)) = None"
    "check_recipient (printed ex_tron_auth) = None"
    unfolding validateTronAuthorization_def validateTransferAsset_def check_recipient_def Let_def ex_tron_eval
    by code_simp+
  ultimately show ?thesis
    by (simp add: ParseAuthorization_def ex_tron_object ex_tron_key guard_eval authorizationValidator_def del: print_json.simps)
qed

definition ex_quote :: "(string \<times> json) list" where
  "ex_quote = [(''version'', JNum ''1''), (''destinationAccountExists'', JBool True),
     (''chainParameters'', JObj [(''transactionFeeSunPerBandwidth'', JStr ''1''), (''createAccountFeeSun'', JStr ''0''),
        (''createNewAccountFeeInSystemContractSun'', JStr ''0''), (''createNewAccountBandwidthRate'', JStr ''1'')]),
     (''amountAtomic'', JStr ''135''), (''signedTransactionBytes'', JNum ''71''), (''bandwidthBytes'', JNum ''135'')]"

definition ex_tron_exec :: approvedExecution where
  "ex_tron_exec = ex_exec\<lparr>ae_Authorization := print_json (JObj ex_tron_auth)\<rparr>"

definition ex_tron_transfer :: preparedTransfer where
  "ex_tron_transfer = \<lparr>pr_Version = 1, pr_Encoding = ''hex'', pr_UnsignedTransaction = ''02c0'', pr_NetworkFeeAsset = ''TRX'',
     pr_NetworkFeeBudgetAtomic = ''135'', pr_FeeEvidence = print_json (JObj ex_quote)\<rparr>"

definition ex_tron_terms :: policy_context where
  "ex_tron_terms = ex_terms\<lparr>pc_Asset := ''TRX'', pc_Chain := ''tron:nile'', pc_FromAddress := replicate 20 (CHR ''a''),
     pc_ToAddress := replicate 20 (CHR ''a'')\<rparr>"

lemma ex_quote_decodes:
  "Option.bind (json_parse (print_json (JObj ex_quote))) decode_feeQuote =
     Some \<lparr>fq_Version = 1, fq_DestinationAccountExists = True,
       fq_ChainParameters = \<lparr>fp_TransactionFeeSunPerBandwidth = ''1'', fp_CreateAccountFeeSun = ''0'',
         fp_CreateNewAccountFeeInSystemContractSun = ''0'', fp_CreateNewAccountBandwidthRate = ''1''\<rparr>,
       fq_AmountAtomic = ''135'', fq_SignedTransactionBytes = 71, fq_BandwidthBytes = 135\<rparr>"
proof -
  have "printable_json (JObj ex_quote)" by code_simp
  then have "json_parse (print_json (JObj ex_quote)) = Some (JObj ex_quote)" by (rule json_parse_print)
  moreover have "parse_int64 ''1'' = Some 1" "parse_int64 ''71'' = Some 71" "parse_int64 ''135'' = Some 135" by code_simp+
  ultimately show ?thesis
    by (simp add: decode_feeQuote_def decode_feeParameters_def closed_members_def ex_quote_def as_int_def as_string_def as_bool_def)
qed

lemma ex_tron_bytes: "verifyTronBytes ex_tron_crypto ex_chainlib [CHR 0x02, CHR 0xC0] ex_tron_terms (100000 * millisecond) = None"
proof -
  have "byte_of_nat 65 = CHR 0x41" by code_simp
  then have addr: "tronAddress ex_tron_crypto (replicate 20 (CHR ''a'')) = CHR 0x41 # replicate 20 (CHR ''a'')"
    by (simp add: tronAddress_def ex_tron_crypto_def ex_crypto_def)
  have five: "show_int 5 = ''5''" by code_simp
  have window: "tron_window_ok ex_tron (unixMilli (100000 * millisecond))"
    by (simp add: tron_window_ok_def ex_tron_def wrap64_def unixMilli_def millisecond_def)
  have raw: "strictProto (xl_rawDecode ex_chainlib) (xl_rawEncode ex_chainlib) rw_Unknown [CHR 0x02, CHR 0xC0] = Some ex_tron"
    by (simp add: strictProto_def ex_chainlib_def ex_tron_def)
  have terms: "pc_TokenStandard ex_tron_terms = None" "pc_FromAddress ex_tron_terms = replicate 20 (CHR ''a'')"
    "pc_ToAddress ex_tron_terms = replicate 20 (CHR ''a'')" "pc_AmountAtomic ex_tron_terms = ''5''"
    "pc_FeeLimitSun ex_tron_terms = None" "pc_Asset ex_tron_terms = ''TRX''"
    by (simp_all add: ex_tron_terms_def ex_terms_def)
  have transfer: "strictProto (xl_transferDecode ex_chainlib) (xl_transferEncode ex_chainlib) tt_Unknown ''v'' =
      Some \<lparr>tt_OwnerAddress = CHR 0x41 # replicate 20 (CHR ''a''), tt_ToAddress = CHR 0x41 # replicate 20 (CHR ''a''),
        tt_Amount = 5, tt_Unknown = []\<rparr>"
    by (simp add: strictProto_def ex_chainlib_def)
  have "rw_FeeLimit ex_tron = 0" "rw_RefBlockBytes ex_tron = ''ab''" "rw_RefBlockHash ex_tron = ''abcdefgh''" "rw_RefBlockNum ex_tron = 0"
    "rw_Auths ex_tron = []" "rw_Data ex_tron = []" "rw_Scripts ex_tron = []" "0 \<le> maxProducerSafeInteger"
    "\<exists>c. rw_Contract ex_tron = [c] \<and> tc_Type c = TransferContract \<and> tc_Provider c = [] \<and> tc_ContractName c = [] \<and>
      tc_PermissionId c = 0 \<and> tc_Unknown c = [] \<and> tc_Parameter c =
        Some \<lparr>ta_TypeUrl = ''type.googleapis.com/protocol.TransferContract'', ta_Value = ''v'', ta_Unknown = []\<rparr>"
    by (simp_all add: ex_tron_def maxProducerSafeInteger_def)
  then show ?thesis
    using window by (auto simp: verifyTronBytes_def raw terms addr five transfer maxProducerSafeInteger_def)
qed

lemma ex_tron_budget: "tronBudget ex_chainlib [CHR 0x02, CHR 0xC0] ex_tron_terms
    \<lparr>fq_Version = 1, fq_DestinationAccountExists = True,
       fq_ChainParameters = \<lparr>fp_TransactionFeeSunPerBandwidth = ''1'', fp_CreateAccountFeeSun = ''0'',
         fp_CreateNewAccountFeeInSystemContractSun = ''0'', fp_CreateNewAccountBandwidthRate = ''1''\<rparr>,
       fq_AmountAtomic = ''135'', fq_SignedTransactionBytes = 71, fq_BandwidthBytes = 135\<rparr> = ''135''"
proof -
  have "canonicalUint ''1''" "canonicalUint ''0''" "canonicalUint ''135''" "number ''1'' = 1" "show_int 135 = ''135''"
    by code_simp+
  then show ?thesis
    by (simp add: tronBudget_def ex_chainlib_def ex_tron_terms_def ex_terms_def varintSize.simps Let_def)
qed

lemma ex_tron_terms_ok:
  "str (printed ex_tron_auth) ''requestId'' = ''r1''" "str (printed ex_tron_auth) ''maxNetworkFeeAtomic'' = ''1000''"
  "list_all (\<lambda>(k, w). str (printed ex_tron_auth) k = w) (approved_terms ex_tron_terms ex_tron_transfer)"
  "raw_field (printed ex_tron_auth) ''tokenStandard'' = Some ''null''" "raw_field (printed ex_tron_auth) ''tokenDecimals'' = Some ''null''"
  "raw_field (printed ex_tron_auth) ''tokenContractCanonical'' = Some ''null''"
  "rawObject (printed ex_tron_auth) ''requestedChainParams'' = []"
  unfolding ex_tron_eval approved_terms_def list.pred_inject prod.case raw_field_printed
  by (simp_all add: ex_tron_auth_def ex_tron_terms_def ex_terms_def ex_tron_transfer_def)

lemma ex_tron_prepared_ok:
  "VerifyPrepared ex_tron_crypto ex_chainlib (Some ex_tron_exec) (Some ex_tron_transfer) (Some ex_tron_terms)
     (replicate 32 (CHR 0xAA)) ''tron-transaction'' ''sha256'' (100000 * millisecond) = Inr (printed ex_tron_auth)"
proof -
  have jcs: "cx_jcs ex_tron_crypto = Some" "cx_sha ex_tron_crypto = (\<lambda>_. replicate 32 (CHR 0xAA))"
    by (simp_all add: ex_tron_crypto_def ex_crypto_def)
  have "hex_encode (replicate 32 (CHR 0xAA)) = concat (replicate 32 ''aa'')" using ex_hash [of "[]"] by (simp add: hash_def ex_crypto_def)
  moreover have "ValidReference ''o1''" "canonicalUint ''135''"
    "number ''135'' \<le> number ''1000''" "hex_decode ''02c0'' = Some [CHR 0x02, CHR 0xC0]" "hex_encode [CHR 0x02, CHR 0xC0] = ''02c0''"
    "protocolForPayload ''tron-transaction'' = Some Tron" "hashAlgorithm Tron = ''sha256''" "supportsChain Tron ''tron:nile''"
    by code_simp+
  moreover have "list_ex (\<lambda>(k, w). str (printed ex_tron_auth) k \<noteq> w) (approved_terms ex_tron_terms ex_tron_transfer) = False"
    using ex_tron_terms_ok(3) by (auto simp: list_all_iff list_ex_iff)
  moreover have "nullEqual (Some ''null'') (json_of_string (canonicalTronPolicyToken ex_tron_terms))"
    by (simp add: canonicalTronPolicyToken_def ex_tron_terms_def ex_terms_def nullEqual_def json_of_string_def)
  then have "verifyPrepared ex_tron_crypto ex_chainlib Tron [CHR 0x02, CHR 0xC0] ex_tron_transfer ex_tron_terms (printed ex_tron_auth)
      (100000 * millisecond) = Inr \<lparr>pd_digest = replicate 32 (CHR 0xAA), pd_budget = ''135''\<rparr>"
    using ex_tron_terms_ok(4,7) ex_quote_decodes ex_tron_bytes ex_tron_budget jcs(2)
    by (simp add: verifyPrepared_def verifyTronPrepared_def ex_tron_transfer_def guard_eval Let_def authObject_rawObject
        del: print_json.simps)
  moreover have "pr_NetworkFeeBudgetAtomic ex_tron_transfer = ''135''" "pr_UnsignedTransaction ex_tron_transfer = ''02c0''"
    "pr_Version ex_tron_transfer = 1" "pr_Encoding ex_tron_transfer = ''hex''" "pc_Chain ex_tron_terms = ''tron:nile''"
    "pc_TokenDecimals ex_tron_terms = None" "pc_TokenContractCanonical ex_tron_terms = None"
    by (simp_all add: ex_tron_transfer_def ex_tron_terms_def ex_terms_def)
  ultimately show ?thesis
    using ex_tron_terms_ok ex_tron_parses jcs
    by (simp del: print_json.simps add: VerifyPrepared_def ex_tron_exec_def ex_exec_def authString_str guard_eval nullEqual_def
        json_of_int_def json_of_string_def print_json.simps(1))
qed

theorem prepared_tron_pays_approved_witness:
  "\<exists>raw tx. hex_decode (pr_UnsignedTransaction ex_tron_transfer) = Some raw \<and> xl_rawDecode ex_chainlib raw = Some tx \<and>
     rw_Expiration tx \<le> rw_Timestamp tx + 86340000"
proof -
  have "0 \<le> unixMilli (100000 * millisecond)" "unixMilli (100000 * millisecond) < 2 ^ 62"
    by (simp_all add: unixMilli_def millisecond_def)
  moreover have "int64 (rw_Timestamp tx) \<and> int64 (rw_Expiration tx)" if "xl_rawDecode ex_chainlib raw = Some tx" for raw tx
    using that by (auto simp: ex_chainlib_def ex_tron_def int64_def)
  moreover have "printable t" if "pc_TokenContractCanonical ex_tron_terms = Some t" for t
    using that by (simp add: ex_tron_terms_def ex_terms_def)
  ultimately show ?thesis
    using prepared_tron_pays_approved [OF ex_tron_prepared_ok] by blast
qed

end
