(* ===== verification/Journal.thy ===== *)
theory Journal
  imports ApprovalWire
begin

text \<open>
  The durable approval journal (\<open>src/internal/approval\<close>: \<open>files.go\<close>, \<open>journal.go\<close>,
  \<open>journal_read.go\<close>, \<open>journal_records.go\<close>, \<open>fs_unix.go\<close>). The directory is a map from
  file names to files, kept twice: as the running process sees it and as it survives a power
  loss. A rename is visible at once and durable after the directory is synced. Every operation
  takes the outcomes of its system calls (\<open>jio\<close>) as an argument, so that each I/O failure of
  the code is a branch; the operations hold the journal mutex and are single steps.
  \<open>validEndpoint\<close> (\<open>net/url\<close>) and the wire cryptography are parameters.
\<close>

section \<open>Files\<close>

datatype journal_err = ErrIntegrity | ErrConflict | ErrNotExist | ErrExist | ErrIO | ErrWire wire_err

record jfile =
  jf_data :: bytes
  jf_private :: bool

type_synonym dir = "string \<Rightarrow> jfile option"

datatype pub_fault = FCreateTemp | FChmod | FWrite | FShortWrite | FSync | FClose | FPublish | FSyncDirectory

record jio =
  io_check :: "journal_err err"
  io_read :: "string \<Rightarrow> bool"
  io_publish :: "string \<Rightarrow> pub_fault option"
  io_putsync :: "string \<Rightarrow> bool"
  io_loadsync :: bool
  io_listing :: "string list"
  io_scan :: "nat \<Rightarrow> bool"

record journal =
  jn_closed :: bool
  jn_files :: dir
  jn_durable :: dir
  jn_scan :: "string list option"

record jctx =
  jc_crypto :: crypto
  jc_endpoint :: "string \<Rightarrow> bool"

definition digest :: "jctx \<Rightarrow> bytes \<Rightarrow> string" where
  "digest jc raw = hex_encode (cx_sha (jc_crypto jc) raw)"

definition recordKey :: "jctx \<Rightarrow> string \<Rightarrow> string \<Rightarrow> string" where
  "recordKey jc org request = digest jc (org @ [CHR 0x00] @ request)"

definition path :: "jctx \<Rightarrow> string \<Rightarrow> string \<Rightarrow> string \<Rightarrow> string" where
  "path jc org request kind = recordKey jc org request @ ''.'' @ kind @ ''.json''"

definition check :: "jio \<Rightarrow> journal \<Rightarrow> journal_err err" where
  "check io j = (if jn_closed j then Some ErrIntegrity else io_check io)"

definition readJournalFile :: "jio \<Rightarrow> journal \<Rightarrow> string \<Rightarrow> (journal_err, bytes) result" where
  "readJournalFile io j name = (case jn_files j name of
     None \<Rightarrow> Inl ErrNotExist
   | Some f \<Rightarrow>
       if \<not> jf_private f \<or> length (jf_data f) < 1 \<or> length (jf_data f) > 32768 then Inl ErrIntegrity
       else if io_read io name then Inl ErrIO
       else Inr (jf_data f))"

definition SyncDirectory :: "bool \<Rightarrow> journal \<Rightarrow> journal_err err \<times> journal" where
  "SyncDirectory fails j = (if fails then (Some ErrIO, j) else (None, j\<lparr>jn_durable := jn_files j\<rparr>))"

text \<open>
  \<open>publishJournalFile\<close>: a temporary file is written and synced, then renamed without
  replacing; only the rename touches the names of the journal.
\<close>

definition publishJournalFile :: "jio \<Rightarrow> string \<Rightarrow> bytes \<Rightarrow> journal \<Rightarrow> journal_err err \<times> journal" where
  "publishJournalFile io name raw j =
     (if io_publish io name \<noteq> None \<and> io_publish io name \<noteq> Some FSyncDirectory then (Some ErrIO, j)
      else if jn_files j name \<noteq> None then (Some ErrExist, j)
      else (let j' = j\<lparr>jn_files := (jn_files j)(name \<mapsto> \<lparr>jf_data = raw, jf_private = True\<rparr>)\<rparr>
            in SyncDirectory (io_publish io name = Some FSyncDirectory) j'))"

definition publish :: "jio \<Rightarrow> string \<Rightarrow> bytes \<Rightarrow> journal \<Rightarrow> journal_err err \<times> journal" where
  "publish io name raw j = (case check io j of
     Some e \<Rightarrow> (Some e, j)
   | None \<Rightarrow> publishJournalFile io name raw j)"

definition put :: "jio \<Rightarrow> string \<Rightarrow> bytes \<Rightarrow> journal \<Rightarrow> journal_err err \<times> journal" where
  "put io name raw j =
     (if length raw = 0 \<or> length raw > 32768 then (Some ErrIntegrity, j)
      else (case publish io name raw j of (e, j') \<Rightarrow>
              if e = Some ErrExist
              then (case readJournalFile io j' name of
                      Inl re \<Rightarrow> (Some re, j')
                    | Inr old \<Rightarrow> if old \<noteq> raw then (Some ErrConflict, j') else SyncDirectory (io_putsync io name) j')
              else (e, j')))"

section \<open>Records\<close>

record admission =
  ad_Version :: int
  ad_OrgID :: string
  ad_RequestID :: string
  ad_AuthorizationHash :: string
  ad_Mode :: string
  ad_Endpoint :: "string option"
  ad_AdmittedAt :: string

record savedReceipt =
  sv_Version :: int
  sv_OrgID :: string
  sv_RequestID :: string
  sv_AuthorizationHash :: string
  sv_SigningKeyID :: string
  sv_PublicKey :: bytes
  sv_Bytes :: bytes

record executionBinding =
  eb_Version :: int
  eb_OrgID :: string
  eb_RequestID :: string
  eb_OutgoingID :: string
  eb_AuthorizationHash :: string
  eb_ExecutionDigest :: string
  eb_PayloadType :: string
  eb_HashAlgorithm :: string

record executionKnown =
  ek_Version :: int
  ek_OrgID :: string
  ek_RequestID :: string
  ek_AuthorizationHash :: string
  ek_BindingHash :: string

record deliveryAck =
  da_Version :: int
  da_OrgID :: string
  da_RequestID :: string
  da_ReceiptHash :: string
  da_Application :: bytes

definition admissionFields :: "string list" where
  "admissionFields = [''version'', ''orgId'', ''requestId'', ''authorizationHash'', ''mode'', ''endpoint'', ''admittedAt'']"

definition receiptFields :: "string list" where
  "receiptFields = [''version'', ''orgId'', ''requestId'', ''authorizationHash'', ''signingKeyId'', ''publicKey'', ''bytes'']"

definition acknowledgementFields :: "string list" where
  "acknowledgementFields = [''version'', ''orgId'', ''requestId'', ''receiptHash'', ''application'']"

definition executionFields :: "string list" where
  "executionFields = [''version'', ''orgId'', ''requestId'', ''outgoingId'', ''authorizationHash'', ''executionDigest'',
     ''payloadType'', ''hashAlgorithm'']"

definition executionKnownFields :: "string list" where
  "executionKnownFields = [''version'', ''orgId'', ''requestId'', ''authorizationHash'', ''bindingHash'']"

text \<open>\<open>json.Marshal\<close> of the records: members in field order, byte slices (never nil here) in base64.\<close>

definition json_bytes :: "bytes \<Rightarrow> json" where
  "json_bytes b = JStr (std_encode b)"

definition marshal_admission :: "admission \<Rightarrow> bytes" where
  "marshal_admission a = print_json (JObj
     [(''version'', JNum (show_int (ad_Version a))), (''orgId'', JStr (ad_OrgID a)), (''requestId'', JStr (ad_RequestID a)),
      (''authorizationHash'', JStr (ad_AuthorizationHash a)), (''mode'', JStr (ad_Mode a)),
      (''endpoint'', case ad_Endpoint a of None \<Rightarrow> JNull | Some e \<Rightarrow> JStr e), (''admittedAt'', JStr (ad_AdmittedAt a))])"

definition marshal_receipt :: "savedReceipt \<Rightarrow> bytes" where
  "marshal_receipt r = print_json (JObj
     [(''version'', JNum (show_int (sv_Version r))), (''orgId'', JStr (sv_OrgID r)), (''requestId'', JStr (sv_RequestID r)),
      (''authorizationHash'', JStr (sv_AuthorizationHash r)), (''signingKeyId'', JStr (sv_SigningKeyID r)),
      (''publicKey'', json_bytes (sv_PublicKey r)), (''bytes'', json_bytes (sv_Bytes r))])"

definition marshal_ack :: "deliveryAck \<Rightarrow> bytes" where
  "marshal_ack a = print_json (JObj
     [(''version'', JNum (show_int (da_Version a))), (''orgId'', JStr (da_OrgID a)), (''requestId'', JStr (da_RequestID a)),
      (''receiptHash'', JStr (da_ReceiptHash a)), (''application'', json_bytes (da_Application a))])"

definition json_execution :: "executionBinding \<Rightarrow> (string \<times> json) list" where
  "json_execution x =
     [(''version'', JNum (show_int (eb_Version x))), (''orgId'', JStr (eb_OrgID x)), (''requestId'', JStr (eb_RequestID x)),
      (''outgoingId'', JStr (eb_OutgoingID x)), (''authorizationHash'', JStr (eb_AuthorizationHash x)),
      (''executionDigest'', JStr (eb_ExecutionDigest x)), (''payloadType'', JStr (eb_PayloadType x)),
      (''hashAlgorithm'', JStr (eb_HashAlgorithm x))]"

definition marshal_execution :: "executionBinding \<Rightarrow> bytes" where
  "marshal_execution x = print_json (JObj (json_execution x))"

definition marshal_known :: "executionKnown \<Rightarrow> bytes" where
  "marshal_known k = print_json (JObj
     [(''version'', JNum (show_int (ek_Version k))), (''orgId'', JStr (ek_OrgID k)), (''requestId'', JStr (ek_RequestID k)),
      (''authorizationHash'', JStr (ek_AuthorizationHash k)), (''bindingHash'', JStr (ek_BindingHash k))])"

text \<open>
  \<open>decodeRecord\<close>: one object without repeated keys, with exactly the given member names,
  each decoded at the type of its field (null leaves the zero value); any failure is
  \<open>ErrIntegrity\<close>.
\<close>

definition record_members :: "string list \<Rightarrow> bytes \<Rightarrow> (string \<times> json) list option" where
  "record_members names raw = (case json_parse raw of
     Some (JObj ms) \<Rightarrow>
       if rejectDuplicateKeys (tokens (JObj ms)) True = None \<and> length ms = length names \<and> list_all (\<lambda>k. map_of ms k \<noteq> None) names
       then Some ms else None
   | _ \<Rightarrow> None)"

definition dec_string :: "json option \<Rightarrow> string option" where
  "dec_string v = (case v of Some (JStr s) \<Rightarrow> Some s | Some JNull \<Rightarrow> Some '''' | _ \<Rightarrow> None)"

definition dec_int :: "json option \<Rightarrow> int option" where
  "dec_int v = (case v of Some (JNum s) \<Rightarrow> parse_int64 s | Some JNull \<Rightarrow> Some 0 | _ \<Rightarrow> None)"

definition dec_bytes :: "json option \<Rightarrow> bytes option" where
  "dec_bytes v = (case v of Some (JStr s) \<Rightarrow> std_decode s | Some JNull \<Rightarrow> Some [] | _ \<Rightarrow> None)"

definition dec_pointer :: "json option \<Rightarrow> string option option" where
  "dec_pointer v = (case v of Some (JStr s) \<Rightarrow> Some (Some s) | Some JNull \<Rightarrow> Some None | _ \<Rightarrow> None)"

definition decode_admission :: "bytes \<Rightarrow> admission option" where
  "decode_admission raw = Option.bind (record_members admissionFields raw) (\<lambda>ms.
     case (dec_int (map_of ms ''version''), dec_string (map_of ms ''orgId''), dec_string (map_of ms ''requestId''),
           dec_string (map_of ms ''authorizationHash''), dec_string (map_of ms ''mode''), dec_pointer (map_of ms ''endpoint''),
           dec_string (map_of ms ''admittedAt'')) of
       (Some v, Some org, Some request, Some h, Some mode, Some endpoint, Some at) \<Rightarrow>
         Some \<lparr>ad_Version = v, ad_OrgID = org, ad_RequestID = request, ad_AuthorizationHash = h, ad_Mode = mode,
               ad_Endpoint = endpoint, ad_AdmittedAt = at\<rparr>
     | _ \<Rightarrow> None)"

definition decode_receipt :: "bytes \<Rightarrow> savedReceipt option" where
  "decode_receipt raw = Option.bind (record_members receiptFields raw) (\<lambda>ms.
     case (dec_int (map_of ms ''version''), dec_string (map_of ms ''orgId''), dec_string (map_of ms ''requestId''),
           dec_string (map_of ms ''authorizationHash''), dec_string (map_of ms ''signingKeyId''), dec_bytes (map_of ms ''publicKey''),
           dec_bytes (map_of ms ''bytes'')) of
       (Some v, Some org, Some request, Some h, Some key, Some pub, Some b) \<Rightarrow>
         Some \<lparr>sv_Version = v, sv_OrgID = org, sv_RequestID = request, sv_AuthorizationHash = h, sv_SigningKeyID = key,
               sv_PublicKey = pub, sv_Bytes = b\<rparr>
     | _ \<Rightarrow> None)"

definition decode_ack :: "bytes \<Rightarrow> deliveryAck option" where
  "decode_ack raw = Option.bind (record_members acknowledgementFields raw) (\<lambda>ms.
     case (dec_int (map_of ms ''version''), dec_string (map_of ms ''orgId''), dec_string (map_of ms ''requestId''),
           dec_string (map_of ms ''receiptHash''), dec_bytes (map_of ms ''application'')) of
       (Some v, Some org, Some request, Some h, Some b) \<Rightarrow>
         Some \<lparr>da_Version = v, da_OrgID = org, da_RequestID = request, da_ReceiptHash = h, da_Application = b\<rparr>
     | _ \<Rightarrow> None)"

definition decode_execution :: "bytes \<Rightarrow> executionBinding option" where
  "decode_execution raw = Option.bind (record_members executionFields raw) (\<lambda>ms.
     case (dec_int (map_of ms ''version''), dec_string (map_of ms ''orgId''), dec_string (map_of ms ''requestId''),
           dec_string (map_of ms ''outgoingId''), dec_string (map_of ms ''authorizationHash''), dec_string (map_of ms ''executionDigest''),
           dec_string (map_of ms ''payloadType''), dec_string (map_of ms ''hashAlgorithm'')) of
       (Some v, Some org, Some request, Some out, Some h, Some d, Some t, Some alg) \<Rightarrow>
         Some \<lparr>eb_Version = v, eb_OrgID = org, eb_RequestID = request, eb_OutgoingID = out, eb_AuthorizationHash = h,
               eb_ExecutionDigest = d, eb_PayloadType = t, eb_HashAlgorithm = alg\<rparr>
     | _ \<Rightarrow> None)"

definition decode_known :: "bytes \<Rightarrow> executionKnown option" where
  "decode_known raw = Option.bind (record_members executionKnownFields raw) (\<lambda>ms.
     case (dec_int (map_of ms ''version''), dec_string (map_of ms ''orgId''), dec_string (map_of ms ''requestId''),
           dec_string (map_of ms ''authorizationHash''), dec_string (map_of ms ''bindingHash'')) of
       (Some v, Some org, Some request, Some h, Some b) \<Rightarrow>
         Some \<lparr>ek_Version = v, ek_OrgID = org, ek_RequestID = request, ek_AuthorizationHash = h, ek_BindingHash = b\<rparr>
     | _ \<Rightarrow> None)"

section \<open>Validation\<close>

definition admission_validate :: "jctx \<Rightarrow> admission \<Rightarrow> journal_err err" where
  "admission_validate jc a =
     (if ad_Version a \<noteq> 1 \<or> \<not> ValidReference (ad_OrgID a) \<or> \<not> ValidReference (ad_RequestID a) \<or>
         \<not> hex256 (ad_AuthorizationHash a) \<or> \<not> timestamp (ad_AdmittedAt a) then Some ErrIntegrity
      else if ad_Mode a = ''auto_approve'' \<and> ad_Endpoint a = None then None
      else if ad_Mode a = ''external'' \<and> (case ad_Endpoint a of None \<Rightarrow> False | Some e \<Rightarrow> jc_endpoint jc e) then None
      else Some ErrIntegrity)"

definition equalJSON :: "admission \<Rightarrow> admission \<Rightarrow> bool" where
  "equalJSON a b = (marshal_admission a = marshal_admission b)"

definition field :: "wobj \<Rightarrow> string \<Rightarrow> string" where
  "field v k = raw_string (raw_field v k)"

definition validateReceipt :: "jctx \<Rightarrow> admission \<Rightarrow> savedReceipt \<Rightarrow> journal_err err" where
  "validateReceipt jc a r =
     (if sv_Version r \<noteq> 1 \<or> sv_OrgID r \<noteq> ad_OrgID a \<or> sv_RequestID r \<noteq> ad_RequestID a \<or>
         sv_AuthorizationHash r \<noteq> ad_AuthorizationHash a then Some ErrIntegrity
      else (case VerifyReceipt (jc_crypto jc) (sv_Bytes r)
                \<lparr>tv_OrgID = ad_OrgID a, tv_RequestID = ad_RequestID a, tv_AuthorizationHash = ad_AuthorizationHash a,
                 tv_SigningKeyID = sv_SigningKeyID r, tv_PublicKey = sv_PublicKey r, tv_Eligible = True\<rparr> of
              Inl e \<Rightarrow> Some (ErrWire e)
            | Inr v \<Rightarrow> fail_if (field (rt_Envelope v) ''source'' \<noteq> ad_Mode a) ErrIntegrity))"

definition validateApplication :: "jctx \<Rightarrow> bytes \<Rightarrow> string \<Rightarrow> journal_err err" where
  "validateApplication jc raw request = (case ParseDecisionApplication (jc_crypto jc) raw of
     Inl e \<Rightarrow> Some (ErrWire e)
   | Inr v \<Rightarrow> fail_if (field v ''requestId'' \<noteq> request) ErrIntegrity)"

definition validateDigest :: "string \<Rightarrow> journal_err err" where
  "validateDigest s = fail_if (\<not> ValidExecutionDigest s) ErrIntegrity"

record jstate =
  js_Admission :: "admission option"
  js_Receipt :: "savedReceipt option"
  js_Application :: bytes
  js_Execution :: "executionBinding option"

definition validateExecution :: "jctx \<Rightarrow> jstate \<Rightarrow> executionBinding \<Rightarrow> journal_err err" where
  "validateExecution jc s x = (case (js_Admission s, js_Receipt s) of
     (Some a, Some r) \<Rightarrow>
       if js_Application s = [] then Some ErrIntegrity
       else (case ParseDecisionApplication (jc_crypto jc) (js_Application s) of
               Inl _ \<Rightarrow> Some ErrIntegrity
             | Inr v \<Rightarrow>
                 if field v ''disposition'' \<noteq> ''APPLIED'' then Some ErrIntegrity
                 else (case ParseReceipt (jc_crypto jc) (sv_Bytes r) of
                         Inl _ \<Rightarrow> Some ErrIntegrity
                       | Inr rc \<Rightarrow>
                           if field (rt_Envelope rc) ''decision'' \<noteq> ''APPROVED'' then Some ErrIntegrity
                           else if eb_Version x \<noteq> 1 \<or> eb_OrgID x \<noteq> ad_OrgID a \<or> eb_RequestID x \<noteq> ad_RequestID a \<or>
                             eb_AuthorizationHash x \<noteq> ad_AuthorizationHash a \<or> \<not> ValidReference (eb_OutgoingID x)
                           then Some ErrIntegrity
                           else if \<not> ValidPayloadHash (eb_PayloadType x) (eb_HashAlgorithm x) then Some ErrIntegrity
                           else validateDigest (eb_ExecutionDigest x)))
   | _ \<Rightarrow> Some ErrIntegrity)"

section \<open>Loading\<close>

definition read_record :: "(bytes \<Rightarrow> 'r option) \<Rightarrow> jio \<Rightarrow> journal \<Rightarrow> string \<Rightarrow> (journal_err, 'r option) result" where
  "read_record decode io j name = (case readJournalFile io j name of
     Inl e \<Rightarrow> if e = ErrNotExist then Inr None else Inl e
   | Inr raw \<Rightarrow> (case decode raw of None \<Rightarrow> Inl ErrIntegrity | Some r \<Rightarrow> Inr (Some r)))"

definition loadAdmission :: "jctx \<Rightarrow> jio \<Rightarrow> journal \<Rightarrow> string \<Rightarrow> string \<Rightarrow> (journal_err, admission option) result" where
  "loadAdmission jc io j org request =
     bind_res (read_record decode_admission io j (path jc org request ''admission'')) (\<lambda>found. case found of
       None \<Rightarrow> Inr None
     | Some a \<Rightarrow> check_res (fail_if (ad_OrgID a \<noteq> org \<or> ad_RequestID a \<noteq> request \<or> admission_validate jc a \<noteq> None) ErrIntegrity)
         (Inr (Some a)))"

definition loadReceipt ::
  "jctx \<Rightarrow> jio \<Rightarrow> journal \<Rightarrow> string \<Rightarrow> string \<Rightarrow> admission option \<Rightarrow> (journal_err, savedReceipt option) result" where
  "loadReceipt jc io j org request admission =
     bind_res (read_record decode_receipt io j (path jc org request ''receipt'')) (\<lambda>found. case found of
       None \<Rightarrow> Inr None
     | Some r \<Rightarrow> (case admission of
           None \<Rightarrow> Inl ErrIntegrity
         | Some a \<Rightarrow> check_res (fail_if (validateReceipt jc a r \<noteq> None) ErrIntegrity) (Inr (Some r))))"

definition loadAcknowledgement ::
  "jctx \<Rightarrow> jio \<Rightarrow> journal \<Rightarrow> string \<Rightarrow> string \<Rightarrow> savedReceipt option \<Rightarrow> (journal_err, bytes) result" where
  "loadAcknowledgement jc io j org request receipt =
     bind_res (read_record decode_ack io j (path jc org request ''ack'')) (\<lambda>found. case found of
       None \<Rightarrow> Inr []
     | Some a \<Rightarrow> (case receipt of
           None \<Rightarrow> Inl ErrIntegrity
         | Some r \<Rightarrow>
             check_res (fail_if (da_Version a \<noteq> 1 \<or> da_OrgID a \<noteq> org \<or> da_RequestID a \<noteq> request \<or>
                da_ReceiptHash a \<noteq> digest jc (sv_Bytes r)) ErrIntegrity)
             (check_res (validateApplication jc (da_Application a) request) (Inr (da_Application a)))))"

definition loadExecution ::
  "jctx \<Rightarrow> jio \<Rightarrow> journal \<Rightarrow> string \<Rightarrow> string \<Rightarrow> jstate \<Rightarrow> (journal_err, executionBinding option) result" where
  "loadExecution jc io j org request state =
     bind_res (read_record decode_execution io j (path jc org request ''execution'')) (\<lambda>execution.
     bind_res (read_record decode_known io j (path jc org request ''execution-known'')) (\<lambda>known.
     (case (execution, known) of
        (None, None) \<Rightarrow> Inr None
      | (Some x, Some k) \<Rightarrow>
          check_res (validateExecution jc state x)
          (bind_res (readJournalFile io j (path jc org request ''execution'')) (\<lambda>raw.
           check_res (fail_if (ek_Version k \<noteq> 1 \<or> ek_OrgID k \<noteq> org \<or> ek_RequestID k \<noteq> request \<or>
              (case js_Admission state of None \<Rightarrow> True | Some a \<Rightarrow> ek_AuthorizationHash k \<noteq> ad_AuthorizationHash a)) ErrIntegrity)
           (check_res (fail_if (ek_BindingHash k \<noteq> digest jc raw) ErrIntegrity) (Inr (Some x)))))
      | _ \<Rightarrow> Inl ErrIntegrity)))"

definition read_state :: "jctx \<Rightarrow> jio \<Rightarrow> journal \<Rightarrow> string \<Rightarrow> string \<Rightarrow> (journal_err, jstate) result" where
  "read_state jc io j org request =
     check_res (fail_if (\<not> ValidReference org \<or> \<not> ValidReference request) ErrIntegrity)
     (check_res (check io j)
     (bind_res (loadAdmission jc io j org request) (\<lambda>a.
      bind_res (loadReceipt jc io j org request a) (\<lambda>r.
      bind_res (loadAcknowledgement jc io j org request r) (\<lambda>app.
      bind_res (loadExecution jc io j org request
        \<lparr>js_Admission = a, js_Receipt = r, js_Application = app, js_Execution = None\<rparr>) (\<lambda>x.
      Inr \<lparr>js_Admission = a, js_Receipt = r, js_Application = app, js_Execution = x\<rparr>))))))"

text \<open>The state is returned only after the directory is synced.\<close>

definition loadStateLocked :: "jctx \<Rightarrow> jio \<Rightarrow> journal \<Rightarrow> string \<Rightarrow> string \<Rightarrow> (journal_err, jstate) result \<times> journal" where
  "loadStateLocked jc io j org request = (case read_state jc io j org request of
     Inl e \<Rightarrow> (Inl e, j)
   | Inr s \<Rightarrow> (case SyncDirectory (io_loadsync io) j of
       (Some e, j') \<Rightarrow> (Inl e, j')
     | (None, j') \<Rightarrow> (Inr s, j')))"

section \<open>Operations\<close>

definition Admit :: "jctx \<Rightarrow> jio \<Rightarrow> admission \<Rightarrow> journal \<Rightarrow> journal_err err \<times> journal" where
  "Admit jc io a j = (case admission_validate jc a of
     Some e \<Rightarrow> (Some e, j)
   | None \<Rightarrow> (case loadStateLocked jc io j (ad_OrgID a) (ad_RequestID a) of
       (Inl e, j') \<Rightarrow> (Some e, j')
     | (Inr state, j') \<Rightarrow> (case js_Admission state of
         Some old \<Rightarrow> (fail_if (\<not> equalJSON old (a\<lparr>ad_AdmittedAt := ad_AdmittedAt old\<rparr>)) ErrConflict, j')
       | None \<Rightarrow> put io (path jc (ad_OrgID a) (ad_RequestID a) ''admission'') (marshal_admission a) j')))"

definition SaveReceipt :: "jctx \<Rightarrow> jio \<Rightarrow> savedReceipt \<Rightarrow> journal \<Rightarrow> journal_err err \<times> journal" where
  "SaveReceipt jc io r j = (case loadStateLocked jc io j (sv_OrgID r) (sv_RequestID r) of
     (Inl e, j') \<Rightarrow> (Some e, j')
   | (Inr state, j') \<Rightarrow> (case js_Admission state of
       None \<Rightarrow> (Some ErrIntegrity, j')
     | Some a \<Rightarrow> (case validateReceipt jc a r of
         Some e \<Rightarrow> (Some e, j')
       | None \<Rightarrow> put io (path jc (sv_OrgID r) (sv_RequestID r) ''receipt'') (marshal_receipt r) j')))"

definition Acknowledge :: "jctx \<Rightarrow> jio \<Rightarrow> string \<Rightarrow> string \<Rightarrow> bytes \<Rightarrow> journal \<Rightarrow> journal_err err \<times> journal" where
  "Acknowledge jc io org request application j = (case loadStateLocked jc io j org request of
     (Inl e, j') \<Rightarrow> (Some e, j')
   | (Inr state, j') \<Rightarrow> (case js_Receipt state of
       None \<Rightarrow> (Some ErrIntegrity, j')
     | Some r \<Rightarrow> (case validateApplication jc application request of
         Some e \<Rightarrow> (Some e, j')
       | None \<Rightarrow> put io (path jc org request ''ack'')
           (marshal_ack \<lparr>da_Version = 1, da_OrgID = org, da_RequestID = request, da_ReceiptHash = digest jc (sv_Bytes r),
              da_Application = application\<rparr>) j')))"

definition known_of :: "jctx \<Rightarrow> executionBinding \<Rightarrow> executionKnown" where
  "known_of jc x = \<lparr>ek_Version = 1, ek_OrgID = eb_OrgID x, ek_RequestID = eb_RequestID x,
     ek_AuthorizationHash = eb_AuthorizationHash x, ek_BindingHash = digest jc (marshal_execution x)\<rparr>"

definition BindExecution :: "jctx \<Rightarrow> jio \<Rightarrow> executionBinding \<Rightarrow> journal \<Rightarrow> journal_err err \<times> journal" where
  "BindExecution jc io x j = (case loadStateLocked jc io j (eb_OrgID x) (eb_RequestID x) of
     (Inl e, j') \<Rightarrow> (Some e, j')
   | (Inr state, j') \<Rightarrow> (case validateExecution jc state x of
       Some e \<Rightarrow> (Some e, j')
     | None \<Rightarrow>
         (case put io (path jc (eb_OrgID x) (eb_RequestID x) ''execution-known'') (marshal_known (known_of jc x)) j' of
            (Some e, j'') \<Rightarrow> (Some e, j'')
          | (None, j'') \<Rightarrow> put io (path jc (eb_OrgID x) (eb_RequestID x) ''execution'') (marshal_execution x) j'')))"

definition Load :: "jctx \<Rightarrow> jio \<Rightarrow> string \<Rightarrow> string \<Rightarrow> journal \<Rightarrow> (journal_err, jstate) result \<times> journal" where
  "Load jc io org request j = loadStateLocked jc io j org request"

definition Close :: "journal \<Rightarrow> journal" where
  "Close j = (if jn_closed j then j else j\<lparr>jn_closed := True, jn_scan := None\<rparr>)"

section \<open>Pending receipts\<close>

text \<open>
  The scan reads at most \<open>limit\<close> names of the open directory stream and returns the first
  receipt that has no acknowledgement; a bad record is reported and skipped. The result is
  the receipts, the joined errors, and what is left of the stream (nothing at its end).
\<close>

type_synonym scan_result = "(journal_err, savedReceipt list \<times> journal_err list \<times> string list option) result"

fun scan_receipts :: "jctx \<Rightarrow> jio \<Rightarrow> nat \<Rightarrow> nat \<Rightarrow> string list \<Rightarrow> journal_err list \<Rightarrow> journal \<Rightarrow> scan_result \<times> journal" where
  "scan_receipts jc io 0 i names errs j = (Inr ([], errs, Some names), j)"
| "scan_receipts jc io (Suc n) i names errs j =
     (if io_scan io i then (Inl ErrIO, j)
      else (case names of
              [] \<Rightarrow> (Inr ([], errs, None), j)
            | name # rest \<Rightarrow>
                if \<not> has_prefix (rev ''.receipt.json'') (rev name) then scan_receipts jc io n (Suc i) rest errs j
                else (case readJournalFile io j name of
                        Inl e \<Rightarrow> scan_receipts jc io n (Suc i) rest (errs @ [e]) j
                      | Inr raw \<Rightarrow>
                          (case decode_receipt raw of
                             None \<Rightarrow> scan_receipts jc io n (Suc i) rest (errs @ [ErrIntegrity]) j
                           | Some r \<Rightarrow>
                               if name \<noteq> path jc (sv_OrgID r) (sv_RequestID r) ''receipt''
                               then scan_receipts jc io n (Suc i) rest (errs @ [ErrIntegrity]) j
                               else (case loadStateLocked jc io j (sv_OrgID r) (sv_RequestID r) of
                                       (Inl e, j') \<Rightarrow> scan_receipts jc io n (Suc i) rest (errs @ [e]) j'
                                     | (Inr state, j') \<Rightarrow>
                                         if js_Application state = []
                                         then (Inr (case js_Receipt state of Some r' \<Rightarrow> [r'] | None \<Rightarrow> [], errs, Some rest), j')
                                         else scan_receipts jc io n (Suc i) rest errs j')))))"

definition PendingReceipts :: "jctx \<Rightarrow> jio \<Rightarrow> int \<Rightarrow> journal \<Rightarrow> (journal_err, savedReceipt list \<times> journal_err list) result \<times> journal" where
  "PendingReceipts jc io limit j =
     (if limit < 1 \<or> limit > 1000 then (Inl ErrIntegrity, j)
      else (case check io j of
              Some e \<Rightarrow> (Inl e, j)
            | None \<Rightarrow>
                (let names = (case jn_scan j of Some ns \<Rightarrow> ns | None \<Rightarrow> io_listing io) in
                 (case scan_receipts jc io (nat limit) 0 names [] (j\<lparr>jn_scan := Some names\<rparr>) of
                    (Inl e, j') \<Rightarrow> (Inl e, j')
                  | (Inr (receipts, errs, left), j') \<Rightarrow> (Inr (receipts, errs), j'\<lparr>jn_scan := left\<rparr>)))))"

section \<open>Histories\<close>

text \<open>
  A history interleaves the operations, with any outcome of their system calls, and power
  losses, after which every durable record and any of the others are found again.
\<close>

inductive jstep :: "jctx \<Rightarrow> journal \<Rightarrow> journal \<Rightarrow> bool" for jc where
  JAdmit: "Admit jc io a j = (e, j') \<Longrightarrow> jstep jc j j'"
| JSaveReceipt: "SaveReceipt jc io r j = (e, j') \<Longrightarrow> jstep jc j j'"
| JAcknowledge: "Acknowledge jc io org request app j = (e, j') \<Longrightarrow> jstep jc j j'"
| JBindExecution: "BindExecution jc io x j = (e, j') \<Longrightarrow> jstep jc j j'"
| JLoad: "Load jc io org request j = (r, j') \<Longrightarrow> jstep jc j j'"
| JPending: "PendingReceipts jc io limit j = (rs, j') \<Longrightarrow> jstep jc j j'"
| JClose: "jstep jc j (Close j)"
| JCrash: "jn_durable j \<subseteq>\<^sub>m files \<Longrightarrow> files \<subseteq>\<^sub>m jn_files j \<Longrightarrow>
    jstep jc j \<lparr>jn_closed = False, jn_files = files, jn_durable = jn_durable j, jn_scan = None\<rparr>"

definition record_name :: "string \<Rightarrow> string \<Rightarrow> string" where
  "record_name key kind = key @ ''.'' @ kind @ ''.json''"

definition record_order :: "(string \<times> string) list" where
  "record_order = [(''receipt'', ''admission''), (''ack'', ''receipt''), (''execution-known'', ''ack''),
     (''execution'', ''execution-known'')]"

definition journal_inv :: "journal \<Rightarrow> bool" where
  "journal_inv j \<longleftrightarrow> jn_durable j \<subseteq>\<^sub>m jn_files j \<and>
     (\<forall>(later, earlier) \<in> set record_order. \<forall>key. CHR ''.'' \<notin> set key \<longrightarrow>
        jn_files j (record_name key later) \<noteq> None \<longrightarrow> jn_durable j (record_name key earlier) \<noteq> None)"

definition empty_journal :: journal where
  "empty_journal = \<lparr>jn_closed = False, jn_files = Map.empty, jn_durable = Map.empty, jn_scan = None\<rparr>"

section \<open>Lemmas\<close>

lemma path_record: "path jc org request kind = record_name (recordKey jc org request) kind"
  by (simp add: path_def record_name_def)

lemma recordKey_no_dot: "CHR ''.'' \<notin> set (recordKey jc org request)"
  using hex_encode_chars [of "CHR ''.''"] by (auto simp: recordKey_def digest_def is_lower_hex_def byte_val_def)

lemma record_name_inj:
  assumes "CHR ''.'' \<notin> set k" "CHR ''.'' \<notin> set k'" "record_name k l = record_name k' l'"
  shows "k = k' \<and> l = l'"
proof -
  have "k @ CHR ''.'' # (l @ ''.json'') = k' @ CHR ''.'' # (l' @ ''.json'')"
    using assms(3) by (simp add: record_name_def)
  then show ?thesis using split_first [OF assms(1,2)] by auto
qed

lemma map_le_upd: "m n = None \<Longrightarrow> m \<subseteq>\<^sub>m m(n \<mapsto> v)"
  by (auto simp: map_le_def)

lemma SyncDirectory_cases:
  "SyncDirectory fails j = (e, j') \<Longrightarrow> (e \<noteq> None \<and> j' = j) \<or> (e = None \<and> j' = j\<lparr>jn_durable := jn_files j\<rparr>)"
  by (auto simp: SyncDirectory_def split: if_splits)

text \<open>The effect of \<open>put\<close>: at most the named record appears, and success means it is durable.\<close>

definition put_effect :: "string \<Rightarrow> bytes \<Rightarrow> journal_err err \<Rightarrow> journal \<Rightarrow> journal \<Rightarrow> bool" where
  "put_effect name raw e j j' \<longleftrightarrow>
     (jn_files j' = jn_files j \<or> (jn_files j name = None \<and> jn_files j' = (jn_files j)(name \<mapsto> \<lparr>jf_data = raw, jf_private = True\<rparr>))) \<and>
     (jn_durable j' = jn_durable j \<or> jn_durable j' = jn_files j') \<and> jn_scan j' = jn_scan j \<and> jn_closed j' = jn_closed j \<and>
     (e = None \<longrightarrow> jn_durable j' = jn_files j' \<and> map_option jf_data (jn_durable j' name) = Some raw)"

lemma publish_effect:
  assumes "publish io name raw j = (e, j')"
  shows "put_effect name raw e j j'" and "e = Some ErrExist \<Longrightarrow> j' = j"
proof -
  have "put_effect name raw e j j' \<and> (e = Some ErrExist \<longrightarrow> j' = j)"
  proof (cases "check io j")
    case (Some x)
    then show ?thesis using assms by (auto simp: publish_def put_effect_def)
  next
    case None
    then show ?thesis
      using assms
      by (auto simp: publish_def publishJournalFile_def put_effect_def SyncDirectory_def Let_def split: if_splits)
  qed
  then show "put_effect name raw e j j'" "e = Some ErrExist \<Longrightarrow> j' = j" by blast+
qed

lemma put_has_effect: "put io name raw j = (e, j') \<Longrightarrow> put_effect name raw e j j'"
proof -
  assume p: "put io name raw j = (e, j')"
  obtain e1 j1 where p1: "publish io name raw j = (e1, j1)" by fastforce
  note eff = publish_effect [OF p1]
  show ?thesis
  proof (cases "length raw = 0 \<or> length raw > 32768 \<or> e1 \<noteq> Some ErrExist")
    case True
    then show ?thesis using p p1 eff(1) by (auto simp: put_def put_effect_def split: if_splits)
  next
    case False
    then have j1: "j1 = j" using eff(2) by simp
    show ?thesis
    proof (cases "readJournalFile io j name")
      case (Inl re)
      then show ?thesis using p p1 False j1 by (auto simp: put_def put_effect_def)
    next
      case (Inr old)
      then have "map_option jf_data (jn_files j name) = Some old"
        by (auto simp: readJournalFile_def split: option.splits if_splits)
      with Inr show ?thesis
        using p p1 False j1 by (auto simp: put_def put_effect_def SyncDirectory_def split: if_splits)
    qed
  qed
qed

lemma load_effect:
  assumes "loadStateLocked jc io j org request = (r, j')"
  shows "j' = j \<or> j' = j\<lparr>jn_durable := jn_files j\<rparr>"
    and "r = Inr s \<Longrightarrow> j' = j\<lparr>jn_durable := jn_files j\<rparr> \<and> read_state jc io j org request = Inr s"
  using assms by (auto simp: loadStateLocked_def SyncDirectory_def split: sum.splits if_splits)

lemma inv_synced: "journal_inv j \<Longrightarrow> journal_inv (j\<lparr>jn_durable := jn_files j\<rparr>)"
  by (fastforce simp: journal_inv_def map_le_def dom_def)

lemma durable_kept_synced: "journal_inv j \<Longrightarrow> jn_durable j \<subseteq>\<^sub>m jn_durable (j\<lparr>jn_durable := jn_files j\<rparr>)"
  by (simp add: journal_inv_def)

text \<open>A record may be added once the record before it in the order is durable.\<close>

lemma inv_put:
  assumes inv: "journal_inv j" and put: "put_effect (record_name key kind) raw e j j'" and key: "CHR ''.'' \<notin> set key"
    and before: "\<And>earlier. (kind, earlier) \<in> set record_order \<Longrightarrow> jn_durable j (record_name key earlier) \<noteq> None"
  shows "journal_inv j'" and "jn_durable j \<subseteq>\<^sub>m jn_durable j'"
proof -
  have cases: "jn_files j' = jn_files j \<or> (jn_files j (record_name key kind) = None \<and>
      jn_files j' = (jn_files j)(record_name key kind \<mapsto> \<lparr>jf_data = raw, jf_private = True\<rparr>))"
    "jn_durable j' = jn_durable j \<or> jn_durable j' = jn_files j'"
    using put unfolding put_effect_def by blast+
  have le: "jn_durable j \<subseteq>\<^sub>m jn_files j" using inv by (simp add: journal_inv_def)
  have "jn_files j \<subseteq>\<^sub>m jn_files j'" using cases(1) map_le_upd by (elim disjE conjE) simp_all
  with le have "jn_durable j \<subseteq>\<^sub>m jn_files j'" by (rule map_le_trans)
  with cases(2) have d: "jn_durable j \<subseteq>\<^sub>m jn_durable j'" "jn_durable j' \<subseteq>\<^sub>m jn_files j'" by auto
  then show "jn_durable j \<subseteq>\<^sub>m jn_durable j'" by simp
  have "jn_durable j' (record_name k earlier) \<noteq> None"
    if o: "(later, earlier) \<in> set record_order" and k: "CHR ''.'' \<notin> set k" and f: "jn_files j' (record_name k later) \<noteq> None"
    for later earlier k
  proof -
    have "jn_durable j (record_name k earlier) \<noteq> None"
    proof (cases "jn_files j (record_name k later) = None")
      case True
      then have "record_name k later = record_name key kind" using f cases(1) by (auto split: if_splits)
      with record_name_inj k key have "k = key" "later = kind" by blast+
      then show ?thesis using before o by simp
    next
      case False
      then show ?thesis using inv o k by (fastforce simp: journal_inv_def)
    qed
    then show ?thesis using d(1) by (auto simp: map_le_def dom_def)
  qed
  then show "journal_inv j'" using d(2) by (auto simp: journal_inv_def)
qed

lemma read_record_Some:
  "read_record decode io j name = Inr (Some r) \<Longrightarrow> \<exists>f. jn_files j name = Some f \<and> decode (jf_data f) = Some r"
  by (auto simp: read_record_def readJournalFile_def split: sum.splits option.splits if_splits)

lemma loadAdmission_Some:
  assumes "loadAdmission jc io j org request = Inr (Some a)"
  shows "jn_files j (path jc org request ''admission'') \<noteq> None \<and> ad_OrgID a = org \<and> ad_RequestID a = request \<and>
    admission_validate jc a = None"
  using assms read_record_Some [of decode_admission io j]
  by (fastforce simp: loadAdmission_def split: option.splits)

lemma loadReceipt_Some:
  assumes "loadReceipt jc io j org request ad = Inr (Some r)"
  shows "jn_files j (path jc org request ''receipt'') \<noteq> None \<and> (\<exists>a. ad = Some a \<and> validateReceipt jc a r = None)"
  using assms read_record_Some [of decode_receipt io j]
  by (fastforce simp: loadReceipt_def split: option.splits)

lemma loadAcknowledgement_Some:
  assumes "loadAcknowledgement jc io j org request rc = Inr app" "app \<noteq> []"
  shows "jn_files j (path jc org request ''ack'') \<noteq> None \<and> rc \<noteq> None \<and> validateApplication jc app request = None"
  using assms read_record_Some [of decode_ack io j]
  by (fastforce simp: loadAcknowledgement_def split: option.splits)

lemma loadExecution_Some:
  assumes "loadExecution jc io j org request s = Inr (Some x)"
  shows "(\<exists>f. jn_files j (path jc org request ''execution'') = Some f \<and> decode_execution (jf_data f) = Some x) \<and>
    validateExecution jc s x = None"
  using assms read_record_Some [of decode_execution io j]
  by (auto simp: loadExecution_def split: option.splits)

text \<open>Everything a loaded state reports rests on a file, and each part on the one before it.\<close>

lemma read_state_loaded:
  assumes "read_state jc io j org request = Inr s"
  shows "loadAdmission jc io j org request = Inr (js_Admission s)"
    "loadReceipt jc io j org request (js_Admission s) = Inr (js_Receipt s)"
    "loadAcknowledgement jc io j org request (js_Receipt s) = Inr (js_Application s)"
    "loadExecution jc io j org request (s\<lparr>js_Execution := None\<rparr>) = Inr (js_Execution s)"
  using assms by (auto simp: read_state_def)

lemma validateExecution_None:
  "validateExecution jc s x = None \<Longrightarrow> \<exists>a r v rc. js_Admission s = Some a \<and> js_Receipt s = Some r \<and> js_Application s \<noteq> [] \<and>
     ParseDecisionApplication (jc_crypto jc) (js_Application s) = Inr v \<and> str v ''disposition'' = ''APPLIED'' \<and>
     ParseReceipt (jc_crypto jc) (sv_Bytes r) = Inr rc \<and> str (rt_Envelope rc) ''decision'' = ''APPROVED'' \<and>
     eb_OrgID x = ad_OrgID a \<and> eb_RequestID x = ad_RequestID a \<and> eb_AuthorizationHash x = ad_AuthorizationHash a \<and>
     ValidPayloadHash (eb_PayloadType x) (eb_HashAlgorithm x) \<and> ValidExecutionDigest (eb_ExecutionDigest x)"
  unfolding field_def str_def
  by (auto simp: validateExecution_def field_def validateDigest_def split: option.splits sum.splits if_splits)

lemma load_inv:
  assumes "journal_inv j" "loadStateLocked jc io j org request = (r, j')"
  shows "journal_inv j'" "jn_durable j \<subseteq>\<^sub>m jn_durable j'" "jn_files j' = jn_files j"
  using load_effect(1) [OF assms(2)] inv_synced [OF assms(1)] durable_kept_synced [OF assms(1)] assms(1) by auto

lemma Admit_keeps:
  assumes inv: "journal_inv j" and op: "Admit jc io a j = (e, j')"
  shows "journal_inv j' \<and> jn_durable j \<subseteq>\<^sub>m jn_durable j'"
proof -
  obtain r j1 where l: "loadStateLocked jc io j (ad_OrgID a) (ad_RequestID a) = (r, j1)" by fastforce
  note keep = load_inv [OF inv l]
  show ?thesis
  proof (cases "admission_validate jc a = None \<and> (\<exists>s. r = Inr s \<and> js_Admission s = None)")
    case True
    then have "put io (path jc (ad_OrgID a) (ad_RequestID a) ''admission'') (marshal_admission a) j1 = (e, j')"
      using op l by (auto simp: Admit_def)
    from put_has_effect [OF this] have eff: "put_effect (record_name (recordKey jc (ad_OrgID a) (ad_RequestID a)) ''admission'')
        (marshal_admission a) e j1 j'" by (simp add: path_record)
    from inv_put [OF keep(1) eff recordKey_no_dot] keep(2) show ?thesis
      by (auto simp: record_order_def intro: map_le_trans)
  next
    case False
    then have "j' = j \<or> j' = j1" using op l by (auto simp: Admit_def split: option.splits sum.splits)
    then show ?thesis using keep inv by auto
  qed
qed

lemma durable_after_load:
  assumes "loadStateLocked jc io j org request = (Inr s, j1)" "jn_files j (path jc org request kind) \<noteq> None"
  shows "jn_durable j1 (record_name (recordKey jc org request) kind) \<noteq> None"
  using load_effect(2) [OF assms(1)] assms(2) by (simp add: path_record)

lemma SaveReceipt_keeps:
  assumes inv: "journal_inv j" and op: "SaveReceipt jc io r j = (e, j')"
  shows "journal_inv j' \<and> jn_durable j \<subseteq>\<^sub>m jn_durable j'"
proof -
  obtain res j1 where l: "loadStateLocked jc io j (sv_OrgID r) (sv_RequestID r) = (res, j1)" by fastforce
  note keep = load_inv [OF inv l]
  show ?thesis
  proof (cases "\<exists>s a. res = Inr s \<and> js_Admission s = Some a \<and> validateReceipt jc a r = None")
    case True
    then obtain s a where s: "res = Inr s" "js_Admission s = Some a" "validateReceipt jc a r = None" by blast
    then have "put io (path jc (sv_OrgID r) (sv_RequestID r) ''receipt'') (marshal_receipt r) j1 = (e, j')"
      using op l by (auto simp: SaveReceipt_def)
    from put_has_effect [OF this] have eff: "put_effect (record_name (recordKey jc (sv_OrgID r) (sv_RequestID r)) ''receipt'')
        (marshal_receipt r) e j1 j'" by (simp add: path_record)
    have "read_state jc io j (sv_OrgID r) (sv_RequestID r) = Inr s" using load_effect(2) [OF l] s(1) by blast
    then have "loadAdmission jc io j (sv_OrgID r) (sv_RequestID r) = Inr (Some a)" using read_state_loaded(1) s(2) by metis
    then have "jn_durable j1 (record_name (recordKey jc (sv_OrgID r) (sv_RequestID r)) ''admission'') \<noteq> None"
      using durable_after_load [OF l [unfolded s(1)]] loadAdmission_Some by blast
    with inv_put [OF keep(1) eff recordKey_no_dot] keep(2) show ?thesis
      by (auto simp: record_order_def intro: map_le_trans)
  next
    case False
    then have "j' = j1" using op l by (auto simp: SaveReceipt_def split: option.splits sum.splits)
    then show ?thesis using keep by auto
  qed
qed

lemma Acknowledge_keeps:
  assumes inv: "journal_inv j" and op: "Acknowledge jc io org request app j = (e, j')"
  shows "journal_inv j' \<and> jn_durable j \<subseteq>\<^sub>m jn_durable j'"
proof -
  obtain res j1 where l: "loadStateLocked jc io j org request = (res, j1)" by fastforce
  note keep = load_inv [OF inv l]
  show ?thesis
  proof (cases "\<exists>s r. res = Inr s \<and> js_Receipt s = Some r \<and> validateApplication jc app request = None")
    case True
    then obtain s r where s: "res = Inr s" "js_Receipt s = Some r" "validateApplication jc app request = None" by blast
    let ?raw = "marshal_ack \<lparr>da_Version = 1, da_OrgID = org, da_RequestID = request, da_ReceiptHash = digest jc (sv_Bytes r),
              da_Application = app\<rparr>"
    have "put io (path jc org request ''ack'') ?raw j1 = (e, j')" using op l s by (simp add: Acknowledge_def)
    from put_has_effect [OF this] have eff: "put_effect (record_name (recordKey jc org request) ''ack'') ?raw e j1 j'"
      by (simp add: path_record)
    have "read_state jc io j org request = Inr s" using load_effect(2) [OF l] s(1) by blast
    then have "loadReceipt jc io j org request (js_Admission s) = Inr (Some r)" using read_state_loaded(2) s(2) by metis
    then have "jn_durable j1 (record_name (recordKey jc org request) ''receipt'') \<noteq> None"
      using durable_after_load [OF l [unfolded s(1)]] loadReceipt_Some by blast
    with inv_put [OF keep(1) eff recordKey_no_dot] keep(2) show ?thesis
      by (auto simp: record_order_def intro: map_le_trans)
  next
    case False
    then have "j' = j1" using op l by (auto simp: Acknowledge_def split: option.splits sum.splits)
    then show ?thesis using keep by auto
  qed
qed

text \<open>Binding an execution writes the guard record first and the binding second.\<close>

lemma BindExecution_run:
  assumes inv: "journal_inv j" and op: "BindExecution jc io x j = (e, j')"
  shows "journal_inv j' \<and> jn_durable j \<subseteq>\<^sub>m jn_durable j'"
    and "e = None \<Longrightarrow> map_option jf_data (jn_durable j' (path jc (eb_OrgID x) (eb_RequestID x) ''execution'')) =
        Some (marshal_execution x) \<and> (\<exists>s. read_state jc io j (eb_OrgID x) (eb_RequestID x) = Inr s \<and> validateExecution jc s x = None)"
proof -
  let ?name = "record_name (recordKey jc (eb_OrgID x) (eb_RequestID x))"
  obtain res j1 where l: "loadStateLocked jc io j (eb_OrgID x) (eb_RequestID x) = (res, j1)" by fastforce
  note keep = load_inv [OF inv l]
  obtain e1 j2 where p1: "put io (?name ''execution-known'') (marshal_known (known_of jc x)) j1 = (e1, j2)" by fastforce
  note eff1 = put_has_effect [OF p1]
  have "(journal_inv j' \<and> jn_durable j \<subseteq>\<^sub>m jn_durable j') \<and>
    (e = None \<longrightarrow> map_option jf_data (jn_durable j' (?name ''execution'')) = Some (marshal_execution x) \<and>
      (\<exists>s. read_state jc io j (eb_OrgID x) (eb_RequestID x) = Inr s \<and> validateExecution jc s x = None))"
  proof (cases "\<exists>s. res = Inr s \<and> validateExecution jc s x = None")
    case True
    then obtain s where s: "res = Inr s" "validateExecution jc s x = None" by blast
    have rs: "read_state jc io j (eb_OrgID x) (eb_RequestID x) = Inr s" using load_effect(2) [OF l] s(1) by blast
    have "js_Application s \<noteq> []" using validateExecution_None [OF s(2)] by blast
    with read_state_loaded(3) [OF rs] have "jn_files j (path jc (eb_OrgID x) (eb_RequestID x) ''ack'') \<noteq> None"
      using loadAcknowledgement_Some by blast
    then have "jn_durable j1 (?name ''ack'') \<noteq> None" using durable_after_load [OF l [unfolded s(1)]] by blast
    then have inv1: "journal_inv j2" "jn_durable j1 \<subseteq>\<^sub>m jn_durable j2"
      using inv_put [OF keep(1) eff1 recordKey_no_dot] by (auto simp: record_order_def)
    show ?thesis
    proof (cases e1)
      case (Some err)
      then show ?thesis
        using op l s p1 inv1 keep(2) by (auto simp: BindExecution_def path_record intro: map_le_trans)
    next
      case None
      then have p2: "put io (?name ''execution'') (marshal_execution x) j2 = (e, j')"
        using op l s p1 by (simp add: BindExecution_def path_record)
      note eff2 = put_has_effect [OF p2]
      have "jn_durable j2 (?name ''execution-known'') \<noteq> None" using eff1 None by (auto simp: put_effect_def)
      then have "journal_inv j'" "jn_durable j2 \<subseteq>\<^sub>m jn_durable j'"
        using inv_put [OF inv1(1) eff2 recordKey_no_dot] by (auto simp: record_order_def)
      moreover have "e = None \<longrightarrow> map_option jf_data (jn_durable j' (?name ''execution'')) = Some (marshal_execution x)"
        using eff2 unfolding put_effect_def by blast
      ultimately show ?thesis using inv1(2) keep(2) rs s(2) map_le_trans by blast
    qed
  next
    case False
    then have "j' = j1 \<and> e \<noteq> None"
    proof (cases res)
      case (Inr s)
      with False obtain err where v: "validateExecution jc s x = Some err" by auto
      then show ?thesis using op by (simp add: BindExecution_def l Inr v) blast
    qed (use op l in \<open>auto simp: BindExecution_def\<close>)
    then show ?thesis using keep by auto
  qed
  then show "journal_inv j' \<and> jn_durable j \<subseteq>\<^sub>m jn_durable j'"
    "e = None \<Longrightarrow> map_option jf_data (jn_durable j' (path jc (eb_OrgID x) (eb_RequestID x) ''execution'')) =
        Some (marshal_execution x) \<and> (\<exists>s. read_state jc io j (eb_OrgID x) (eb_RequestID x) = Inr s \<and> validateExecution jc s x = None)"
    by (simp_all add: path_record)
qed

lemma inv_scan: "journal_inv (j\<lparr>jn_scan := ns\<rparr>) \<longleftrightarrow> journal_inv j"
  by (simp add: journal_inv_def)

lemma scan_keeps:
  "journal_inv j \<Longrightarrow> journal_inv (snd (scan_receipts jc io n i names errs j)) \<and>
     jn_durable j \<subseteq>\<^sub>m jn_durable (snd (scan_receipts jc io n i names errs j))"
proof (induction n arbitrary: i names errs j)
  case (Suc n)
  show ?case
  proof (cases names)
    case (Cons name rest)
    have IH: "journal_inv j' \<Longrightarrow> jn_durable j \<subseteq>\<^sub>m jn_durable j' \<Longrightarrow>
        journal_inv (snd (scan_receipts jc io n i' rest errs' j')) \<and>
        jn_durable j \<subseteq>\<^sub>m jn_durable (snd (scan_receipts jc io n i' rest errs' j'))" for i' errs' j'
      using Suc.IH map_le_trans by blast
    have K: "journal_inv j' \<and> jn_durable j \<subseteq>\<^sub>m jn_durable j' \<and>
        journal_inv (snd (scan_receipts jc io n i' rest errs' j')) \<and>
        jn_durable j \<subseteq>\<^sub>m jn_durable (snd (scan_receipts jc io n i' rest errs' j'))"
      if "loadStateLocked jc io j org request = (r, j')" for org request r j' i' errs'
      using load_inv [OF Suc.prems that] IH by blast
    show ?thesis
      using Suc.prems IH [OF Suc.prems map_le_refl] K by (auto simp: Cons split: sum.split option.split prod.split)
  qed (use Suc.prems in simp)
qed simp

lemma Pending_keeps:
  assumes "journal_inv j" "PendingReceipts jc io limit j = (rs, j')"
  shows "journal_inv j' \<and> jn_durable j \<subseteq>\<^sub>m jn_durable j'"
proof -
  let ?ns = "case jn_scan j of Some ns \<Rightarrow> ns | None \<Rightarrow> io_listing io"
  obtain r j1 where s: "scan_receipts jc io (nat limit) 0 ?ns [] (j\<lparr>jn_scan := Some ?ns\<rparr>) = (r, j1)" by fastforce
  have "journal_inv j1 \<and> jn_durable j \<subseteq>\<^sub>m jn_durable j1"
    using scan_keeps [of "j\<lparr>jn_scan := Some ?ns\<rparr>" jc io "nat limit" 0 ?ns "[]"] assms(1) s by (simp add: inv_scan)
  moreover have "j' = j \<or> j' = j1 \<or> (\<exists>left. j' = j1\<lparr>jn_scan := left\<rparr>)"
    using assms(2) s by (auto simp: PendingReceipts_def Let_def split: if_splits option.splits sum.splits)
  ultimately show ?thesis using assms(1) by (auto simp: inv_scan)
qed

lemma jstep_keeps: "jstep jc j j' \<Longrightarrow> journal_inv j \<Longrightarrow> journal_inv j' \<and> jn_durable j \<subseteq>\<^sub>m jn_durable j'"
proof (induction rule: jstep.induct)
  case (JAdmit io a j e j')
  then show ?case using Admit_keeps by blast
next
  case (JSaveReceipt io r j e j')
  then show ?case using SaveReceipt_keeps by blast
next
  case (JAcknowledge io org request app j e j')
  then show ?case using Acknowledge_keeps by blast
next
  case (JBindExecution io x j e j')
  then show ?case using BindExecution_run(1) by blast
next
  case (JLoad io org request j r j')
  then show ?case using load_inv(1,2) unfolding Load_def by blast
next
  case (JPending io limit j rs j')
  then show ?case using Pending_keeps by blast
next
  case (JClose j)
  then show ?case by (simp add: Close_def journal_inv_def)
next
  case (JCrash j files)
  then show ?case by (fastforce simp: journal_inv_def map_le_def dom_def)
qed

lemma empty_journal_inv: "journal_inv empty_journal"
  by (simp add: journal_inv_def empty_journal_def)

section \<open>Write-once records\<close>

text \<open>
  What a client of a durable write-once store relies on: a completed write is stored, and
  nothing that happens later changes what is stored. Two completed writes of one key then
  wrote the same value.
\<close>

locale write_once =
  fixes invar :: "'s \<Rightarrow> bool"
    and stored :: "'s \<Rightarrow> 'k \<Rightarrow> 'v option"
    and step :: "'s \<Rightarrow> 's \<Rightarrow> bool"
    and written :: "'k \<Rightarrow> 'v \<Rightarrow> 's \<Rightarrow> 's \<Rightarrow> bool"
  assumes step_inv: "step s s' \<Longrightarrow> invar s \<Longrightarrow> invar s'"
    and step_keeps: "step s s' \<Longrightarrow> invar s \<Longrightarrow> stored s k = Some v \<Longrightarrow> stored s' k = Some v"
    and written_step: "written k v s s' \<Longrightarrow> step s s'"
    and written_stored: "written k v s s' \<Longrightarrow> invar s \<Longrightarrow> stored s' k = Some v"
begin

lemma steps_keep: "step\<^sup>*\<^sup>* s s' \<Longrightarrow> invar s \<Longrightarrow> invar s' \<and> (stored s k = Some v \<longrightarrow> stored s' k = Some v)"
  by (induction rule: rtranclp_induct) (auto intro: step_inv step_keeps)

lemma writes_agree:
  assumes "written k v s s1" "step\<^sup>*\<^sup>* s1 s2" "written k w s2 s3" "invar s"
  shows "v = w"
proof -
  have "invar s1" using step_inv written_step assms(1,4) by blast
  moreover have "stored s1 k = Some v" using written_stored assms(1,4) by blast
  ultimately have "invar s2" "stored s2 k = Some v" using steps_keep [OF assms(2)] by blast+
  then have "stored s3 k = Some v" using step_keeps written_step assms(3) by blast
  moreover have "stored s3 k = Some w" using written_stored assms(3) \<open>invar s2\<close> by blast
  ultimately show ?thesis by simp
qed

end

definition stored_record :: "journal \<Rightarrow> string \<Rightarrow> bytes option" where
  "stored_record j name = map_option jf_data (jn_durable j name)"

definition bound :: "jctx \<Rightarrow> string \<Rightarrow> bytes \<Rightarrow> journal \<Rightarrow> journal \<Rightarrow> bool" where
  "bound jc name raw j j' \<longleftrightarrow> (\<exists>io x. BindExecution jc io x j = (None, j') \<and>
     name = path jc (eb_OrgID x) (eb_RequestID x) ''execution'' \<and> raw = marshal_execution x)"

interpretation jn: write_once journal_inv stored_record "jstep jc" "bound jc" for jc
proof
  fix s s' :: journal and k v
  show "jstep jc s s' \<Longrightarrow> journal_inv s \<Longrightarrow> journal_inv s'" using jstep_keeps by blast
  show "jstep jc s s' \<Longrightarrow> journal_inv s \<Longrightarrow> stored_record s k = Some v \<Longrightarrow> stored_record s' k = Some v"
    using jstep_keeps [of jc s s'] by (auto simp: stored_record_def map_le_def dom_def)
  show "bound jc k v s s' \<Longrightarrow> jstep jc s s'" unfolding bound_def using JBindExecution by blast
  show "bound jc k v s s' \<Longrightarrow> journal_inv s \<Longrightarrow> stored_record s' k = Some v"
    unfolding bound_def stored_record_def using BindExecution_run(2) by blast
qed

end
