(* ===== verification/JournalRun.thy ===== *)
theory JournalRun
  imports Journal
begin

text \<open>
  What the approval journal guarantees: records are read back as written, evidence is
  durable in order and never changes, one execution is bound per approval, and a partly
  published binding stops every operation.
\<close>

section \<open>Records are read back as written\<close>

lemma printable_b64: "printable (std_encode b)"
proof -
  have "0x20 \<le> byte_val (b64_char StdAlphabet n) \<and> byte_val (b64_char StdAlphabet n) \<le> 0x7E" if "n < 64" for n
    using that by (auto simp: b64_char_def) (auto simp: byte_val_def)
  moreover have "printable (padding n)" for n
    by (auto simp: padding_def printable_def byte_val_def)
  ultimately show ?thesis
    using sextets_small [of b] by (auto simp: std_encode_def printable_def list_all_iff)
qed

lemma dec_eval [simp]:
  "dec_string (Some (JStr s)) = Some s" "dec_int (Some (JNum s)) = parse_int64 s"
  "dec_bytes (Some (json_bytes b)) = Some b" "dec_pointer (Some (JStr s)) = Some (Some s)" "dec_pointer (Some JNull) = Some None"
  by (simp_all add: dec_string_def dec_int_def dec_bytes_def dec_pointer_def json_bytes_def std_decode_encode)

lemma one_text: "show_int 1 = ''1''" "parse_int64 ''1'' = Some 1" "canonical_digits ''1''"
  by code_simp+

lemma record_members_print:
  assumes "printable_members ms" "keys_distinct (JObj ms)" "map fst ms = names"
  shows "record_members names (print_json (JObj ms)) = Some ms"
proof -
  have "json_parse (print_json (JObj ms)) = Some (JObj ms)" using assms(1) by (intro json_parse_print) simp
  moreover have "rejectDuplicateKeys (tokens (JObj ms)) True = None" using assms(2) by (simp only: rejectDuplicateKeys_iff)
  moreover have "length ms = length names" "list_all (\<lambda>k. map_of ms k \<noteq> None) names"
    using assms(3) by (auto simp: list_all_iff map_of_eq_None_iff)
  ultimately show ?thesis by (simp add: record_members_def del: print_json.simps tokens.simps)
qed

definition printable_admission :: "admission \<Rightarrow> bool" where
  "printable_admission a \<longleftrightarrow> ad_Version a = 1 \<and> list_all printable [ad_OrgID a, ad_RequestID a, ad_AuthorizationHash a, ad_Mode a,
     ad_AdmittedAt a] \<and> (case ad_Endpoint a of None \<Rightarrow> True | Some e \<Rightarrow> printable e)"

definition printable_receipt :: "savedReceipt \<Rightarrow> bool" where
  "printable_receipt r \<longleftrightarrow> sv_Version r = 1 \<and> list_all printable [sv_OrgID r, sv_RequestID r, sv_AuthorizationHash r, sv_SigningKeyID r]"

definition printable_ack :: "deliveryAck \<Rightarrow> bool" where
  "printable_ack a \<longleftrightarrow> da_Version a = 1 \<and> list_all printable [da_OrgID a, da_RequestID a, da_ReceiptHash a]"

definition printable_execution :: "executionBinding \<Rightarrow> bool" where
  "printable_execution x \<longleftrightarrow> eb_Version x = 1 \<and> list_all printable [eb_OrgID x, eb_RequestID x, eb_OutgoingID x, eb_AuthorizationHash x,
     eb_ExecutionDigest x, eb_PayloadType x, eb_HashAlgorithm x]"

definition printable_known :: "executionKnown \<Rightarrow> bool" where
  "printable_known k \<longleftrightarrow> ek_Version k = 1 \<and> list_all printable [ek_OrgID k, ek_RequestID k, ek_AuthorizationHash k, ek_BindingHash k]"

lemma literal_printable:
  "list_all printable [''version'', ''orgId'', ''requestId'', ''authorizationHash'', ''mode'', ''endpoint'', ''admittedAt'',
     ''signingKeyId'', ''publicKey'', ''bytes'', ''receiptHash'', ''application'', ''outgoingId'', ''executionDigest'', ''payloadType'',
     ''hashAlgorithm'', ''bindingHash'']"
  by code_simp

lemmas printable_literals [simp] = literal_printable [simplified]

lemma decode_marshal_admission: "printable_admission a \<Longrightarrow> decode_admission (marshal_admission a) = Some a"
  unfolding marshal_admission_def decode_admission_def printable_admission_def
  by (subst record_members_print)
    (auto simp: admissionFields_def one_text split: option.splits)

lemma decode_marshal_receipt: "printable_receipt r \<Longrightarrow> decode_receipt (marshal_receipt r) = Some r"
  unfolding marshal_receipt_def decode_receipt_def printable_receipt_def
  by (subst record_members_print)
    (auto simp: receiptFields_def one_text, simp_all add: json_bytes_def printable_b64)

lemma decode_marshal_ack: "printable_ack a \<Longrightarrow> decode_ack (marshal_ack a) = Some a"
  unfolding marshal_ack_def decode_ack_def printable_ack_def
  by (subst record_members_print)
    (auto simp: acknowledgementFields_def one_text, simp_all add: json_bytes_def printable_b64)

lemma decode_marshal_execution: "printable_execution x \<Longrightarrow> decode_execution (marshal_execution x) = Some x"
  unfolding marshal_execution_def json_execution_def decode_execution_def printable_execution_def
  by (subst record_members_print) (auto simp: executionFields_def one_text)

lemma decode_marshal_known: "printable_known k \<Longrightarrow> decode_known (marshal_known k) = Some k"
  unfolding marshal_known_def decode_known_def printable_known_def
  by (subst record_members_print) (auto simp: executionKnownFields_def one_text)

section \<open>A run without faults\<close>

definition calm :: jio where
  "calm = \<lparr>io_check = None, io_read = \<lambda>_. False, io_publish = \<lambda>_. None, io_putsync = \<lambda>_. False, io_loadsync = False,
     io_listing = [], io_scan = \<lambda>_. False\<rparr>"

definition sealed :: "bytes \<Rightarrow> jfile" where
  "sealed raw = \<lparr>jf_data = raw, jf_private = True\<rparr>"

definition fits :: "bytes \<Rightarrow> bool" where
  "fits raw \<longleftrightarrow> 1 \<le> length raw \<and> length raw \<le> 32768"

definition with_files :: "dir \<Rightarrow> journal \<Rightarrow> journal" where
  "with_files fs j = j\<lparr>jn_files := fs, jn_durable := fs\<rparr>"

lemma with_files_simps [simp]:
  "jn_files (with_files fs j) = fs" "jn_durable (with_files fs j) = fs" "jn_closed (with_files fs j) = jn_closed j"
  "with_files gs (with_files fs j) = with_files gs j"
  by (simp_all add: with_files_def)

lemma path_eq_iff [simp]: "path jc org request k = path jc org request k' \<longleftrightarrow> k = k'"
  by (simp add: path_def)

lemma put_calm:
  "\<not> jn_closed j \<Longrightarrow> jn_files j name = None \<Longrightarrow> fits raw \<Longrightarrow>
   put calm name raw j = (None, with_files ((jn_files j)(name \<mapsto> sealed raw)) j)"
  by (auto simp: put_def publish_def check_def calm_def publishJournalFile_def SyncDirectory_def fits_def with_files_def
      sealed_def Let_def)

lemma put_calm_again:
  "\<not> jn_closed j \<Longrightarrow> jn_files j name = Some (sealed raw) \<Longrightarrow> fits raw \<Longrightarrow>
   put calm name raw j = (None, with_files (jn_files j) j)"
  by (auto simp: put_def publish_def check_def calm_def publishJournalFile_def SyncDirectory_def fits_def with_files_def
      sealed_def Let_def readJournalFile_def)

lemma read_calm:
  "jn_files j name = None \<Longrightarrow> read_record decode calm j name = Inr None"
  "jn_files j name = Some (sealed raw) \<Longrightarrow> fits raw \<Longrightarrow> decode raw = Some r \<Longrightarrow> read_record decode calm j name = Inr (Some r)"
  by (auto simp: read_record_def readJournalFile_def calm_def sealed_def fits_def)

lemma load_calm:
  "read_state jc calm j org request = Inr s \<Longrightarrow> loadStateLocked jc calm j org request = (Inr s, with_files (jn_files j) j)"
  by (simp add: loadStateLocked_def SyncDirectory_def calm_def with_files_def)

text \<open>What a directory holding a prefix of the records of a request loads as.\<close>

definition holds :: "jctx \<Rightarrow> dir \<Rightarrow> string \<Rightarrow> string \<Rightarrow> admission option \<Rightarrow> savedReceipt option \<Rightarrow> bytes \<Rightarrow> executionBinding option \<Rightarrow> bool" where
  "holds jc fs org request a r app x \<longleftrightarrow>
     fs (path jc org request ''admission'') = map_option (sealed \<circ> marshal_admission) a \<and>
     fs (path jc org request ''receipt'') = map_option (sealed \<circ> marshal_receipt) r \<and>
     fs (path jc org request ''ack'') = (case (app, r) of (_ # _, Some r') \<Rightarrow>
        Some (sealed (marshal_ack \<lparr>da_Version = 1, da_OrgID = org, da_RequestID = request, da_ReceiptHash = digest jc (sv_Bytes r'),
           da_Application = app\<rparr>)) | _ \<Rightarrow> None) \<and>
     fs (path jc org request ''execution'') = map_option (sealed \<circ> marshal_execution) x \<and>
     fs (path jc org request ''execution-known'') = map_option (sealed \<circ> marshal_known \<circ> known_of jc) x"

definition ack_of :: "jctx \<Rightarrow> string \<Rightarrow> string \<Rightarrow> savedReceipt \<Rightarrow> bytes \<Rightarrow> deliveryAck" where
  "ack_of jc org request r app = \<lparr>da_Version = 1, da_OrgID = org, da_RequestID = request, da_ReceiptHash = digest jc (sv_Bytes r),
     da_Application = app\<rparr>"

text \<open>The records of one request, each valid against the ones before it, printable and small enough.\<close>

definition evidence :: "jctx \<Rightarrow> string \<Rightarrow> string \<Rightarrow> admission \<Rightarrow> savedReceipt \<Rightarrow> bytes \<Rightarrow> executionBinding \<Rightarrow> bool" where
  "evidence jc org request a r app x \<longleftrightarrow> ValidReference org \<and> ValidReference request \<and> ad_OrgID a = org \<and> ad_RequestID a = request \<and>
     admission_validate jc a = None \<and> printable_admission a \<and> fits (marshal_admission a) \<and>
     validateReceipt jc a r = None \<and> printable_receipt r \<and> fits (marshal_receipt r) \<and>
     app \<noteq> [] \<and> validateApplication jc app request = None \<and> fits (marshal_ack (ack_of jc org request r app)) \<and>
     validateExecution jc \<lparr>js_Admission = Some a, js_Receipt = Some r, js_Application = app, js_Execution = None\<rparr> x = None \<and>
     printable_execution x \<and> fits (marshal_execution x) \<and> fits (marshal_known (known_of jc x))"

lemma digest_text: "printable (digest jc raw)"
  unfolding digest_def printable_def list_all_iff using hex_encode_chars lower_hex_printable by blast

lemma evidence_printable:
  assumes "evidence jc org request a r app x"
  shows "printable org" "printable request" "printable_ack (ack_of jc org request r app)" "printable_known (known_of jc x)"
  using assms digest_text
  by (auto simp: evidence_def printable_admission_def printable_ack_def ack_of_def printable_known_def known_of_def
      printable_execution_def)

lemma evidence_ids:
  assumes "evidence jc org request a r app x"
  shows "sv_OrgID r = org" "sv_RequestID r = request" "eb_OrgID x = org" "eb_RequestID x = request"
    "eb_AuthorizationHash x = ad_AuthorizationHash a"
proof -
  show "eb_OrgID x = org" "eb_RequestID x = request" "eb_AuthorizationHash x = ad_AuthorizationHash a"
    using validateExecution_None [of jc "\<lparr>js_Admission = Some a, js_Receipt = Some r, js_Application = app, js_Execution = None\<rparr>" x] assms
    by (auto simp: evidence_def)
  show "sv_OrgID r = org" "sv_RequestID r = request"
    using assms by (auto simp: evidence_def validateReceipt_def split: if_splits)
qed

lemma read_state_holds:
  assumes ev: "evidence jc org request a r app x" and j: "\<not> jn_closed j" "holds jc (jn_files j) org request a' r' app' x'"
    and pre: "a' \<in> {None, Some a}" "r' \<in> {None, Some r}" "app' \<in> {[], app}" "x' \<in> {None, Some x}"
      "x' \<noteq> None \<longrightarrow> app' \<noteq> []" "app' \<noteq> [] \<longrightarrow> r' \<noteq> None" "r' \<noteq> None \<longrightarrow> a' \<noteq> None"
  shows "read_state jc calm j org request = Inr \<lparr>js_Admission = a', js_Receipt = r', js_Application = app', js_Execution = x'\<rparr>"
proof -
  have a: "loadAdmission jc calm j org request = Inr a'"
    using pre(1) j(2) ev
    by (auto simp: loadAdmission_def holds_def read_calm evidence_def decode_marshal_admission guard_eval)
  have r: "loadReceipt jc calm j org request a' = Inr r'"
    using pre(2,7) pre(1) j(2) ev
    by (auto simp: loadReceipt_def holds_def read_calm evidence_def decode_marshal_receipt guard_eval)
  have app: "loadAcknowledgement jc calm j org request r' = Inr app'"
  proof (cases "app' = []")
    case True
    then show ?thesis using j(2) by (simp add: loadAcknowledgement_def holds_def read_calm guard_eval)
  next
    case False
    then have "app' = app" "r' = Some r" using pre by auto
    moreover have "jn_files j (path jc org request ''ack'') = Some (sealed (marshal_ack (ack_of jc org request r app)))"
      using j(2) calculation False by (cases app) (simp_all add: holds_def ack_of_def)
    ultimately show ?thesis
      using ev evidence_printable(3) [OF ev]
      by (simp add: loadAcknowledgement_def read_calm evidence_def decode_marshal_ack guard_eval) (simp add: ack_of_def guard_eval)
  qed
  have "loadExecution jc calm j org request \<lparr>js_Admission = a', js_Receipt = r', js_Application = app', js_Execution = None\<rparr> = Inr x'"
  proof (cases x')
    case None
    then show ?thesis using j(2) by (simp add: loadExecution_def holds_def read_calm guard_eval)
  next
    case (Some y)
    then have "x' = Some x" "app' = app" "r' = Some r" "a' = Some a" using pre by auto
    moreover have "readJournalFile calm j (path jc org request ''execution'') = Inr (marshal_execution x)"
      using j(2) calculation(1) ev by (auto simp: holds_def readJournalFile_def calm_def evidence_def fits_def sealed_def)
    ultimately show ?thesis
      using j(2) ev evidence_printable(4) [OF ev] evidence_ids [OF ev]
      by (simp add: loadExecution_def holds_def read_calm evidence_def decode_marshal_execution decode_marshal_known guard_eval)
        (simp add: known_of_def guard_eval)
  qed
  with a r app j(1) ev show ?thesis
    by (simp add: read_state_def check_def calm_def [of] evidence_def guard_eval)
qed

lemma run_Admit:
  assumes ev: "evidence jc org request a r app x" and j: "\<not> jn_closed j" "holds jc (jn_files j) org request None None [] None"
  shows "\<exists>fs. Admit jc calm a j = (None, with_files fs j) \<and> holds jc fs org request (Some a) None [] None"
proof -
  have "read_state jc calm j org request = Inr \<lparr>js_Admission = None, js_Receipt = None, js_Application = [], js_Execution = None\<rparr>"
    by (rule read_state_holds [OF ev j]) simp_all
  then have "Admit jc calm a j = (None, with_files ((jn_files j)(path jc org request ''admission'' \<mapsto> sealed (marshal_admission a))) j)"
    using ev j by (simp add: Admit_def evidence_def load_calm put_calm holds_def)
  then show ?thesis using j(2) by (auto simp: holds_def)
qed

lemma run_SaveReceipt:
  assumes ev: "evidence jc org request a r app x" and j: "\<not> jn_closed j" "holds jc (jn_files j) org request (Some a) None [] None"
  shows "\<exists>fs. SaveReceipt jc calm r j = (None, with_files fs j) \<and> holds jc fs org request (Some a) (Some r) [] None"
proof -
  have "read_state jc calm j org request = Inr \<lparr>js_Admission = Some a, js_Receipt = None, js_Application = [], js_Execution = None\<rparr>"
    by (rule read_state_holds [OF ev j]) simp_all
  then have "SaveReceipt jc calm r j = (None, with_files ((jn_files j)(path jc org request ''receipt'' \<mapsto> sealed (marshal_receipt r))) j)"
    using ev j evidence_ids [OF ev] by (simp add: SaveReceipt_def evidence_def load_calm put_calm holds_def)
  then show ?thesis using j(2) by (auto simp: holds_def)
qed

lemma run_Acknowledge:
  assumes ev: "evidence jc org request a r app x" and j: "\<not> jn_closed j" "holds jc (jn_files j) org request (Some a) (Some r) [] None"
  shows "\<exists>fs. Acknowledge jc calm org request app j = (None, with_files fs j) \<and> holds jc fs org request (Some a) (Some r) app None"
proof -
  have "read_state jc calm j org request = Inr \<lparr>js_Admission = Some a, js_Receipt = Some r, js_Application = [], js_Execution = None\<rparr>"
    by (rule read_state_holds [OF ev j]) simp_all
  then have "Acknowledge jc calm org request app j =
      (None, with_files ((jn_files j)(path jc org request ''ack'' \<mapsto> sealed (marshal_ack (ack_of jc org request r app)))) j)"
    using ev j by (simp add: Acknowledge_def evidence_def load_calm put_calm holds_def ack_of_def)
  moreover have "app \<noteq> []" using ev by (simp add: evidence_def)
  ultimately show ?thesis using j(2) by (cases app) (auto simp: holds_def ack_of_def)
qed

lemma run_BindExecution:
  assumes ev: "evidence jc org request a r app x" and j: "\<not> jn_closed j" "holds jc (jn_files j) org request (Some a) (Some r) app None"
  shows "\<exists>fs. BindExecution jc calm x j = (None, with_files fs j) \<and> holds jc fs org request (Some a) (Some r) app (Some x)"
proof -
  have app: "app \<noteq> []" using ev by (simp add: evidence_def)
  have "read_state jc calm j org request = Inr \<lparr>js_Admission = Some a, js_Receipt = Some r, js_Application = app, js_Execution = None\<rparr>"
    by (rule read_state_holds [OF ev j]) simp_all
  then have "BindExecution jc calm x j = (None, with_files ((jn_files j)
      (path jc org request ''execution-known'' \<mapsto> sealed (marshal_known (known_of jc x)),
       path jc org request ''execution'' \<mapsto> sealed (marshal_execution x))) j)"
    using ev j evidence_ids [OF ev] by (simp add: BindExecution_def evidence_def load_calm put_calm holds_def)
  then show ?thesis using j(2) app by (auto simp: holds_def)
qed

lemma run_BindExecution_again:
  assumes ev: "evidence jc org request a r app x" and j: "\<not> jn_closed j" "holds jc (jn_files j) org request (Some a) (Some r) app (Some x)"
  shows "BindExecution jc calm x j = (None, with_files (jn_files j) j)"
proof -
  have app: "app \<noteq> []" using ev by (simp add: evidence_def)
  then have "read_state jc calm j org request = Inr \<lparr>js_Admission = Some a, js_Receipt = Some r, js_Application = app, js_Execution = Some x\<rparr>"
    by (intro read_state_holds [OF ev j]) simp_all
  moreover have "validateExecution jc \<lparr>js_Admission = Some a, js_Receipt = Some r, js_Application = app, js_Execution = Some x\<rparr> x =
      validateExecution jc \<lparr>js_Admission = Some a, js_Receipt = Some r, js_Application = app, js_Execution = None\<rparr> x"
    by (simp add: validateExecution_def)
  ultimately show ?thesis
    using ev j evidence_ids [OF ev] by (simp add: BindExecution_def evidence_def load_calm put_calm_again holds_def)
qed

lemma run_Load:
  assumes ev: "evidence jc org request a r app x" and j: "\<not> jn_closed j" "holds jc (jn_files j) org request (Some a) (Some r) app (Some x)"
  shows "fst (Load jc calm org request j) =
    Inr \<lparr>js_Admission = Some a, js_Receipt = Some r, js_Application = app, js_Execution = Some x\<rparr>"
proof -
  have "app \<noteq> []" using ev by (simp add: evidence_def)
  then have "read_state jc calm j org request = Inr \<lparr>js_Admission = Some a, js_Receipt = Some r, js_Application = app, js_Execution = Some x\<rparr>"
    by (intro read_state_holds [OF ev j]) simp_all
  then show ?thesis by (simp add: Load_def load_calm)
qed

lemma marshal_execution_inject:
  assumes "printable_execution x1" "printable_execution x2" "marshal_execution x1 = marshal_execution x2"
  shows "x1 = x2"
proof -
  have "Some x1 = Some x2"
    using decode_marshal_execution [OF assms(1)] decode_marshal_execution [OF assms(2)] unfolding assms(3) by (rule box_equals [OF refl])
  then show ?thesis by (rule option.inject [THEN iffD1])
qed

lemma bindings_agree:
  assumes "journal_inv j" "BindExecution jc io1 x1 j = (None, j1)" "(jstep jc)\<^sup>*\<^sup>* j1 j2"
    "BindExecution jc io2 x2 j2 = (None, j3)" "eb_OrgID x1 = eb_OrgID x2" "eb_RequestID x1 = eb_RequestID x2"
  shows "marshal_execution x1 = marshal_execution x2"
proof -
  let ?name = "path jc (eb_OrgID x1) (eb_RequestID x1) ''execution''"
  have "bound jc ?name (marshal_execution x1) j j1" "bound jc ?name (marshal_execution x2) j2 j3"
    unfolding bound_def using assms(2,4,5,6) by metis+
  with jn.writes_agree assms(1,3) show ?thesis by blast
qed

section \<open>Properties\<close>


text \<open>
  C4. In every history of the journal, with any I/O failures and any power losses, evidence is
  durable in order: a receipt exists only when its admission is durable, an acknowledgement only
  when its receipt is, the guard of a binding only when the acknowledgement is, and a binding only
  when its guard is; and a durable record is never changed or lost by anything that follows.
\<close>

theorem journal_evidence_durable:
  assumes "(jstep jc)\<^sup>*\<^sup>* empty_journal j"
  shows "(\<forall>(later, earlier) \<in> set record_order. jn_files j (path jc org request later) \<noteq> None \<longrightarrow>
       jn_durable j (path jc org request earlier) \<noteq> None) \<and>
    (\<forall>j' name raw. (jstep jc)\<^sup>*\<^sup>* j j' \<and> stored_record j name = Some raw \<longrightarrow> stored_record j' name = Some raw)"
proof -
  have inv: "journal_inv j" using jn.steps_keep [OF assms empty_journal_inv] by blast
  then have "\<forall>(later, earlier) \<in> set record_order. jn_files j (path jc org request later) \<noteq> None \<longrightarrow>
      jn_durable j (path jc org request earlier) \<noteq> None"
    unfolding journal_inv_def path_record using recordKey_no_dot by blast
  then show ?thesis using jn.steps_keep [OF _ inv] by blast
qed

text \<open>
  C1. One approval binds one execution: whatever happens in between, failures and power losses
  included, two bindings that succeed for the same request wrote the same bytes, and so bind the
  same outgoing transaction, digest and payload type when their fields are printable text.
\<close>

theorem execution_bound_once:
  assumes "(jstep jc)\<^sup>*\<^sup>* empty_journal j" "BindExecution jc io1 x1 j = (None, j1)" "(jstep jc)\<^sup>*\<^sup>* j1 j2"
    "BindExecution jc io2 x2 j2 = (None, j3)" "eb_OrgID x1 = eb_OrgID x2" "eb_RequestID x1 = eb_RequestID x2"
  shows "marshal_execution x1 = marshal_execution x2 \<and> (printable_execution x1 \<and> printable_execution x2 \<longrightarrow> x1 = x2)"
proof -
  have "journal_inv j" using jn.steps_keep [OF assms(1) empty_journal_inv] by blast
  then have "marshal_execution x1 = marshal_execution x2" using assms(2-6) by (rule bindings_agree)
  then show ?thesis using marshal_execution_inject by blast
qed

text \<open>
  C35. A partly published binding (only one of its two records present) is never repaired or used:
  loading the request fails, and so do acknowledging it and binding it again, leaving the journal
  exactly as it was.
\<close>

theorem partial_binding_refused:
  assumes "(jn_files j (path jc org request ''execution'') = None) \<noteq> (jn_files j (path jc org request ''execution-known'') = None)"
    "eb_OrgID x = org" "eb_RequestID x = request"
  shows "isl (fst (Load jc io org request j)) \<and>
    (\<exists>e. Acknowledge jc io org request app j = (Some e, j)) \<and> (\<exists>e. BindExecution jc io x j = (Some e, j))"
proof -
  have none: "read_record decode io j name \<noteq> Inr None" if "jn_files j name \<noteq> None" for decode :: "bytes \<Rightarrow> 'r option" and name
    using that by (auto simp: read_record_def readJournalFile_def split: sum.splits option.splits if_splits)
  have some: "read_record decode io j name = Inr None" if "jn_files j name = None" for decode :: "bytes \<Rightarrow> 'r option" and name
    using that by (simp add: read_record_def readJournalFile_def)
  have "loadExecution jc io j org request s \<noteq> Inr y" for s y
    using assms(1) none [of _ decode_execution] none [of _ decode_known] some [of _ decode_execution] some [of _ decode_known]
    by (auto simp: loadExecution_def split: option.splits)
  then have "\<not> (\<exists>s. read_state jc io j org request = Inr s)" using read_state_loaded(4) by metis
  then obtain e where "read_state jc io j org request = Inl e" by (cases "read_state jc io j org request") auto
  then have "loadStateLocked jc io j org request = (Inl e, j)" by (simp add: loadStateLocked_def)
  with assms(2,3) show ?thesis by (simp add: Load_def Acknowledge_def BindExecution_def)
qed

end
