(* ===== verification/JournalExample.thy ===== *)
theory JournalExample
  imports JournalRun
begin

text \<open>
  One approval carried through the journal, and the witnesses of its properties: the
  hypotheses of the theorems of JournalRun hold together.
\<close>

definition ex_jctx :: jctx where
  "ex_jctx = \<lparr>jc_crypto = ex_crypto, jc_endpoint = \<lambda>_. False\<rparr>"

definition ex_authHash :: string where
  "ex_authHash = replicate 64 (CHR ''a'')"

definition ex_admission :: admission where
  "ex_admission = \<lparr>ad_Version = 1, ad_OrgID = ''org'', ad_RequestID = ''r1'', ad_AuthorizationHash = ex_authHash,
     ad_Mode = ''auto_approve'', ad_Endpoint = None, ad_AdmittedAt = ''2026-01-01T00:00:00.000Z''\<rparr>"

definition ex_envelope :: "(string \<times> json) list" where
  "ex_envelope = [(''version'', JNum ''1''), (''domain'', JStr ''brosettlement.co-signer.approval-decision''),
     (''audience'', JStr ''brosettlement-transfer-approval''), (''orgId'', JStr ''org''), (''requestId'', JStr ''r1''),
     (''authorizationHash'', JStr ex_authHash), (''decision'', JStr ''APPROVED''), (''reason'', JNull), (''source'', JStr ''auto_approve''),
     (''externalDecisionReference'', JNull), (''decidedAt'', JStr ''2026-01-01T00:00:00.000Z''), (''signingKeyId'', JStr ''k1'')]"

definition ex_envelope_raw :: bytes where
  "ex_envelope_raw = print_json (JObj ex_envelope)"

definition ex_signature :: bytes where
  "ex_signature = replicate 64 (CHR 0x00)"

definition ex_receipt :: "(string \<times> json) list" where
  "ex_receipt = [(''version'', JNum ''1''), (''envelopeBase64'', JStr (std_encode ex_envelope_raw)),
     (''signatureBase64'', JStr (std_encode ex_signature))]"

definition ex_receipt_raw :: bytes where
  "ex_receipt_raw = print_json (JObj ex_receipt)"

definition ex_application :: "(string \<times> json) list" where
  "ex_application = [(''version'', JNum ''1''), (''requestId'', JStr ''r1''), (''outcome'', JStr ''ACCEPTED''),
     (''disposition'', JStr ''APPLIED'')]"

definition ex_application_raw :: bytes where
  "ex_application_raw = print_json (JObj ex_application)"

definition ex_saved :: savedReceipt where
  "ex_saved = \<lparr>sv_Version = 1, sv_OrgID = ''org'', sv_RequestID = ''r1'', sv_AuthorizationHash = ex_authHash, sv_SigningKeyID = ''k1'',
     sv_PublicKey = replicate 32 (CHR 0x00), sv_Bytes = ex_receipt_raw\<rparr>"

definition ex_binding :: executionBinding where
  "ex_binding = \<lparr>eb_Version = 1, eb_OrgID = ''org'', eb_RequestID = ''r1'', eb_OutgoingID = ''o1'', eb_AuthorizationHash = ex_authHash,
     eb_ExecutionDigest = std_encode (replicate 32 (CHR 0x11)), eb_PayloadType = ''ethereum-transaction'',
     eb_HashAlgorithm = ''keccak256''\<rparr>"

lemma ex_envelope_printable: "printable_members ex_envelope"
  by (simp add: ex_envelope_def ex_authHash_def text_eval)

lemma ex_envelope_length: "length ex_envelope_raw \<le> 510"
  by code_simp

lemma ex_envelope_parses: "ParseDecisionEnvelope ex_crypto ex_envelope_raw = Inr (printed ex_envelope)"
proof -
  have "parse_object ex_crypto ex_envelope_raw 4096 True = Inr (printed ex_envelope)"
    unfolding ex_envelope_raw_def
  proof (rule parse_object_printed [OF ex_envelope_printable])
    show "keys_distinct (JObj ex_envelope)" by code_simp
    show "text_bound (JObj ex_envelope) \<le> int 4096" unfolding of_nat_numeral by code_simp
    show "numbers_ok (JObj ex_envelope) \<and> cx_jcs ex_crypto (print_json (JObj ex_envelope)) = Some (print_json (JObj ex_envelope))"
      by (simp add: ex_envelope_def ex_crypto_def del: print_json.simps)
  qed
  moreover have "closed (printed ex_envelope) envelope_names" "integer (printed ex_envelope) ''version'' = 1"
    "str (printed ex_envelope) ''domain'' = ''brosettlement.co-signer.approval-decision''"
    "str (printed ex_envelope) ''audience'' = ''brosettlement-transfer-approval''"
    "list_all (\<lambda>k. bounded (str (printed ex_envelope) k) 128) [''orgId'', ''requestId'', ''signingKeyId'']"
    "hex256 (str (printed ex_envelope) ''authorizationHash'')"
    "str (printed ex_envelope) ''decision'' = ''APPROVED''" "validReason (printed ex_envelope) ''reason'' False"
    "str (printed ex_envelope) ''source'' = ''auto_approve''" "isNull (printed ex_envelope) ''externalDecisionReference''"
    unfolding closed_printed validReason_def list.pred_inject printed_eval [OF ex_envelope_printable] by code_simp+
  moreover have "timestamp (str (printed ex_envelope) ''decidedAt'')"
    unfolding printed_eval [OF ex_envelope_printable] by (simp add: ex_envelope_def ex_timestamp)
  ultimately show ?thesis by (simp add: ParseDecisionEnvelope_def guard_eval)
qed

lemma length_std_encode: "length (std_encode b) \<le> 2 * length b + 4"
proof -
  have "length (to_sextets b) \<le> 2 * length b" by (induction b rule: to_sextets.induct) auto
  then show ?thesis by (simp add: std_encode_def padding_def)
qed

lemma b64_char_marshal:
  assumes "n < 64"
  shows "marshal_char (b64_char StdAlphabet n) = [b64_char StdAlphabet n]"
proof -
  let ?c = "b64_char StdAlphabet n"
  have "byte_val ?c \<ge> 0x2B \<and> byte_val ?c \<noteq> 0x3C \<and> byte_val ?c \<noteq> 0x3E \<and> byte_val ?c \<noteq> 0x5C \<and> byte_val ?c < 0x7F"
    using assms by (auto simp: b64_char_def) (auto simp: byte_val_def)
  then show ?thesis by (auto simp: marshal_char_def) (auto simp: byte_val_def)
qed

lemma marshal_base64: "marshal_string (std_encode b) = [CHR 0x22] @ std_encode b @ [CHR 0x22]"
proof -
  have pad: "marshal_char (CHR ''='') = ''=''" by code_simp
  have "list_all (\<lambda>c. marshal_char c = [c]) (map (b64_char StdAlphabet) (to_sextets b))"
    using sextets_small [of b] by (auto simp: list_all_iff b64_char_marshal)
  moreover have "list_all (\<lambda>c. marshal_char c = [c]) (padding n)" for n using pad by (simp add: padding_def)
  ultimately have "list_all (\<lambda>c. marshal_char c = [c]) (std_encode b)" by (auto simp: std_encode_def)
  then have "concat (map marshal_char (std_encode b)) = std_encode b" by (induction "std_encode b" rule: list.induct) (auto simp: list_all_iff cong: map_cong)
  then show ?thesis by (simp add: marshal_string_printable printable_b64)
qed

lemma ex_lengths: "length ex_receipt_raw \<le> 1220" "length ex_application_raw \<le> 200"
proof -
  have "length (marshal_string ''version'') = 9" "length (marshal_string ''envelopeBase64'') = 16"
    "length (marshal_string ''signatureBase64'') = 17" by code_simp+
  moreover have "length ex_signature = 64" by (simp add: ex_signature_def)
  ultimately show "length ex_receipt_raw \<le> 1220"
    using length_std_encode [of ex_envelope_raw] length_std_encode [of ex_signature] ex_envelope_length
    by (simp add: ex_receipt_raw_def ex_receipt_def marshal_base64)
  show "length ex_application_raw \<le> 200" by code_simp
qed

lemma ex_receipt_printable: "printable_members ex_receipt"
proof -
  have "list_all printable [''version'', ''envelopeBase64'', ''signatureBase64''] \<and> canonical_digits ''1''" by code_simp
  then show ?thesis by (simp add: ex_receipt_def printable_b64)
qed

lemma ex_receipt_parses: "ParseReceipt ex_crypto ex_receipt_raw =
  Inr \<lparr>rt_Envelope = printed ex_envelope, rt_EnvelopeBytes = ex_envelope_raw, rt_Signature = ex_signature\<rparr>"
proof -
  have "parse_object ex_crypto ex_receipt_raw 8192 False = Inr (printed ex_receipt)"
    unfolding ex_receipt_raw_def
  proof (rule parse_object_printed [OF ex_receipt_printable])
    show "keys_distinct (JObj ex_receipt)" by (simp add: ex_receipt_def)
    have "length ex_signature = 64" by (simp add: ex_signature_def)
    then show "text_bound (JObj ex_receipt) \<le> int 8192"
      using length_std_encode [of ex_envelope_raw] length_std_encode [of ex_signature] ex_envelope_length
      by (simp add: ex_receipt_def)
  qed simp
  moreover have "closed (printed ex_receipt) [''version'', ''envelopeBase64'', ''signatureBase64'']" "integer (printed ex_receipt) ''version'' = 1"
    "str (printed ex_receipt) ''envelopeBase64'' = std_encode ex_envelope_raw" "str (printed ex_receipt) ''signatureBase64'' = std_encode ex_signature"
    unfolding closed_printed printed_eval [OF ex_receipt_printable] by (simp_all add: ex_receipt_def one_text)
  ultimately show ?thesis
    by (simp add: ParseReceipt_def guard_eval wire_base64_def standardBase64_def std_decode_encode ex_envelope_parses)
      (simp add: ex_signature_def)
qed

lemma ex_application_parses: "ParseDecisionApplication ex_crypto ex_application_raw = Inr (printed ex_application)"
proof -
  have p: "printable_members ex_application" by code_simp
  have "parse_object ex_crypto ex_application_raw 4096 False = Inr (printed ex_application)"
    unfolding ex_application_raw_def
  proof (rule parse_object_printed [OF p])
    show "keys_distinct (JObj ex_application)" by code_simp
    show "text_bound (JObj ex_application) \<le> int 4096" unfolding of_nat_numeral by code_simp
  qed simp
  moreover have "closed (printed ex_application) [''version'', ''requestId'', ''outcome'', ''disposition'']"
    "integer (printed ex_application) ''version'' = 1" "bounded (str (printed ex_application) ''requestId'') 128"
    "application_ok (str (printed ex_application) ''outcome'') (str (printed ex_application) ''disposition'')"
    unfolding closed_printed printed_eval [OF p] by code_simp+
  ultimately show ?thesis by (simp add: ParseDecisionApplication_def guard_eval)
qed

lemma ex_fields:
  "field (printed ex_envelope) ''source'' = ''auto_approve''" "field (printed ex_envelope) ''decision'' = ''APPROVED''"
  "field (printed ex_application) ''requestId'' = ''r1''" "field (printed ex_application) ''disposition'' = ''APPLIED''"
  by code_simp+

lemma fits_printed:
  assumes "printable_members ms" "text_bound (JObj ms) \<le> 32768"
  shows "fits (print_json (JObj ms))"
proof -
  have "int (length (print_json (JObj ms))) \<le> 32768" using printed_text(1) [of "JObj ms"] assms by simp
  then show ?thesis by (simp add: fits_def)
qed

lemma ex_texts:
  "list_all printable [''org'', ''r1'', ''o1'', ''k1'', ex_authHash, ''auto_approve'', ''2026-01-01T00:00:00.000Z'',
     ''ethereum-transaction'', ''keccak256''] \<and> length ex_authHash = 64"
  by code_simp

lemma length_digest: "length (digest ex_jctx raw) = 64"
  by (simp add: digest_def ex_jctx_def ex_crypto_def)

lemma ex_fits:
  "fits (marshal_admission ex_admission)" "fits (marshal_receipt ex_saved)"
  "fits (marshal_ack (ack_of ex_jctx ''org'' ''r1'' ex_saved ex_application_raw))"
  "fits (marshal_execution ex_binding)" "fits (marshal_known (known_of ex_jctx ex_binding))"
proof -
  have z: "length ex_authHash = 64" "printable ex_authHash" using ex_texts by simp_all
  have b: "length (std_encode (replicate 32 (CHR 0x00))) \<le> 68" "length (std_encode (replicate 32 (CHR 0x11))) \<le> 68"
    "length (std_encode ex_receipt_raw) \<le> 2444" "length (std_encode ex_application_raw) \<le> 404"
    using length_std_encode [of "replicate 32 (CHR 0x00)"] length_std_encode [of "replicate 32 (CHR 0x11)"]
      length_std_encode [of ex_receipt_raw] length_std_encode [of ex_application_raw] ex_lengths by simp_all
  show "fits (marshal_admission ex_admission)"
    unfolding marshal_admission_def using ex_texts z by (intro fits_printed) (simp_all add: ex_admission_def one_text)
  show "fits (marshal_receipt ex_saved)"
    unfolding marshal_receipt_def using ex_texts z b by (intro fits_printed) (simp_all add: ex_saved_def one_text json_bytes_def printable_b64)
  show "fits (marshal_ack (ack_of ex_jctx ''org'' ''r1'' ex_saved ex_application_raw))"
    unfolding marshal_ack_def using ex_texts z b
    by (intro fits_printed) (simp_all add: ack_of_def one_text json_bytes_def printable_b64 digest_text length_digest)
  show "fits (marshal_execution ex_binding)"
    unfolding marshal_execution_def using ex_texts z b
    by (intro fits_printed) (simp_all add: ex_binding_def json_execution_def one_text printable_b64)
  show "fits (marshal_known (known_of ex_jctx ex_binding))"
    unfolding marshal_known_def using ex_texts z b
    by (intro fits_printed) (simp_all add: ex_binding_def known_of_def one_text digest_text length_digest)
qed

lemma ex_evidence: "evidence ex_jctx ''org'' ''r1'' ex_admission ex_saved ex_application_raw ex_binding"
proof -
  have refs: "ValidReference ''org'' \<and> ValidReference ''r1'' \<and> ValidReference ''o1'' \<and> hex256 ex_authHash \<and>
      ValidPayloadHash ''ethereum-transaction'' ''keccak256''"
    by code_simp
  have env: "list_all (\<lambda>(k, w). str (printed ex_envelope) k = w) [(''orgId'', ''org''), (''requestId'', ''r1''), (''authorizationHash'', ex_authHash), (''signingKeyId'', ''k1'')]"
    unfolding list.pred_inject prod.case printed_eval [OF ex_envelope_printable] by code_simp
  have "validateReceipt ex_jctx ex_admission ex_saved = None"
    using env by (simp add: validateReceipt_def ex_jctx_def ex_admission_def ex_saved_def VerifyReceipt_def ex_receipt_parses
        guard_eval ex_fields ex_crypto_def [THEN arg_cong [where f = cx_verify]])
  moreover have "admission_validate ex_jctx ex_admission = None"
    using refs ex_timestamp by (simp add: admission_validate_def ex_admission_def)
  moreover have "validateApplication ex_jctx ex_application_raw ''r1'' = None"
    by (simp add: validateApplication_def ex_jctx_def ex_application_parses ex_fields guard_eval)
  moreover have "ex_application_raw \<noteq> []" by (simp add: ex_application_raw_def)
  moreover have "validateExecution ex_jctx \<lparr>js_Admission = Some ex_admission, js_Receipt = Some ex_saved,
      js_Application = ex_application_raw, js_Execution = None\<rparr> ex_binding = None"
    using refs \<open>ex_application_raw \<noteq> []\<close>
    by (simp add: validateExecution_def ex_jctx_def ex_application_parses ex_fields ex_saved_def ex_receipt_parses ex_binding_def
        ex_admission_def validateDigest_def ValidExecutionDigest_def standardBase64_def std_decode_encode guard_eval)
  moreover have "printable_admission ex_admission" "printable_receipt ex_saved" "printable_execution ex_binding"
    using ex_texts by (simp_all add: printable_admission_def printable_receipt_def printable_execution_def ex_admission_def ex_saved_def
        ex_binding_def printable_b64)
  ultimately show ?thesis
    unfolding evidence_def using ex_fits refs by (simp add: ex_admission_def)
qed

lemma ex_run:
  "\<exists>j3 j4. (jstep ex_jctx)\<^sup>*\<^sup>* empty_journal j3 \<and> BindExecution ex_jctx calm ex_binding j3 = (None, j4) \<and> \<not> jn_closed j4 \<and>
     holds ex_jctx (jn_files j4) ''org'' ''r1'' (Some ex_admission) (Some ex_saved) ex_application_raw (Some ex_binding)"
proof -
  let ?j = empty_journal
  have j: "\<not> jn_closed ?j" "holds ex_jctx (jn_files ?j) ''org'' ''r1'' None None [] None"
    by (simp_all add: empty_journal_def holds_def)
  obtain f1 where f1: "Admit ex_jctx calm ex_admission ?j = (None, with_files f1 ?j)" "holds ex_jctx f1 ''org'' ''r1'' (Some ex_admission) None [] None"
    using run_Admit [OF ex_evidence j] by blast
  obtain f2 where f2: "SaveReceipt ex_jctx calm ex_saved (with_files f1 ?j) = (None, with_files f2 ?j)"
    "holds ex_jctx f2 ''org'' ''r1'' (Some ex_admission) (Some ex_saved) [] None"
    using run_SaveReceipt [OF ex_evidence, of "with_files f1 ?j"] f1(2) j(1) by auto
  obtain f3 where f3: "Acknowledge ex_jctx calm ''org'' ''r1'' ex_application_raw (with_files f2 ?j) = (None, with_files f3 ?j)"
    "holds ex_jctx f3 ''org'' ''r1'' (Some ex_admission) (Some ex_saved) ex_application_raw None"
    using run_Acknowledge [OF ex_evidence, of "with_files f2 ?j"] f2(2) j(1) by auto
  obtain f4 where f4: "BindExecution ex_jctx calm ex_binding (with_files f3 ?j) = (None, with_files f4 ?j)"
    "holds ex_jctx f4 ''org'' ''r1'' (Some ex_admission) (Some ex_saved) ex_application_raw (Some ex_binding)"
    using run_BindExecution [OF ex_evidence, of "with_files f3 ?j"] f3(2) j(1) by auto
  have "(jstep ex_jctx)\<^sup>*\<^sup>* ?j (with_files f3 ?j)"
    using JAdmit [OF f1(1)] JSaveReceipt [OF f2(1)] JAcknowledge [OF f3(1)] by (meson converse_rtranclp_into_rtranclp r_into_rtranclp)
  with f4 j(1) show ?thesis by (intro exI [of _ "with_files f3 ?j"] exI [of _ "with_files f4 ?j"]) simp
qed


lemma journal_evidence_durable_witness:
  "\<exists>j. (jstep ex_jctx)\<^sup>*\<^sup>* empty_journal j \<and> jn_files j (path ex_jctx ''org'' ''r1'' ''execution'') \<noteq> None \<and>
     jn_durable j (path ex_jctx ''org'' ''r1'' ''execution-known'') \<noteq> None \<and> jn_durable j (path ex_jctx ''org'' ''r1'' ''receipt'') \<noteq> None"
proof -
  obtain j3 j4 where r: "(jstep ex_jctx)\<^sup>*\<^sup>* empty_journal j3" "BindExecution ex_jctx calm ex_binding j3 = (None, j4)"
    and h: "holds ex_jctx (jn_files j4) ''org'' ''r1'' (Some ex_admission) (Some ex_saved) ex_application_raw (Some ex_binding)"
    using ex_run by blast
  have j4: "(jstep ex_jctx)\<^sup>*\<^sup>* empty_journal j4" using r JBindExecution by (metis rtranclp.rtrancl_into_rtrancl)
  have "ex_application_raw \<noteq> []" using ex_evidence by (simp add: evidence_def)
  then obtain c cs where c: "ex_application_raw = c # cs" by (meson neq_Nil_conv)
  have files: "jn_files j4 (path ex_jctx ''org'' ''r1'' ''execution'') \<noteq> None \<and> jn_files j4 (path ex_jctx ''org'' ''r1'' ''ack'') \<noteq> None"
    using h unfolding holds_def c by (simp only: prod.case list.case option.case option.map) blast
  moreover have "(''execution'', ''execution-known'') \<in> set record_order" "(''ack'', ''receipt'') \<in> set record_order"
    by (simp_all add: record_order_def)
  ultimately have "jn_durable j4 (path ex_jctx ''org'' ''r1'' ''execution-known'') \<noteq> None \<and>
      jn_durable j4 (path ex_jctx ''org'' ''r1'' ''receipt'') \<noteq> None"
    using conjunct1 [OF journal_evidence_durable [OF j4, of "''org''" "''r1''"]] by blast
  with j4 files show ?thesis by blast
qed

lemma execution_bound_once_witness:
  "\<exists>j j1 j3. (jstep ex_jctx)\<^sup>*\<^sup>* empty_journal j \<and> BindExecution ex_jctx calm ex_binding j = (None, j1) \<and>
     BindExecution ex_jctx calm ex_binding j1 = (None, j3) \<and> marshal_execution ex_binding = marshal_execution ex_binding"
proof -
  obtain j j1 where r: "(jstep ex_jctx)\<^sup>*\<^sup>* empty_journal j" "BindExecution ex_jctx calm ex_binding j = (None, j1)" "\<not> jn_closed j1"
    "holds ex_jctx (jn_files j1) ''org'' ''r1'' (Some ex_admission) (Some ex_saved) ex_application_raw (Some ex_binding)"
    using ex_run by blast
  have b: "BindExecution ex_jctx calm ex_binding j1 = (None, with_files (jn_files j1) j1)"
    by (rule run_BindExecution_again [OF ex_evidence r(3,4)])
  from execution_bound_once [OF r(1,2) rtranclp.rtrancl_refl b refl refl] r(1,2) b show ?thesis by blast
qed

lemma partial_binding_refused_witness:
  "isl (fst (Load ex_jctx calm ''org'' ''r1''
      (empty_journal\<lparr>jn_files := [path ex_jctx ''org'' ''r1'' ''execution-known'' \<mapsto> sealed (marshal_known (known_of ex_jctx ex_binding))]\<rparr>)))"
proof -
  let ?j = "empty_journal\<lparr>jn_files := [path ex_jctx ''org'' ''r1'' ''execution-known'' \<mapsto> sealed (marshal_known (known_of ex_jctx ex_binding))]\<rparr>"
  have "(jn_files ?j (path ex_jctx ''org'' ''r1'' ''execution'') = None) \<noteq> (jn_files ?j (path ex_jctx ''org'' ''r1'' ''execution-known'') = None)"
    by simp
  then show ?thesis using partial_binding_refused [of ?j ex_jctx "''org''" "''r1''" ex_binding calm] by (simp add: ex_binding_def)
qed

end
