(* ===== verification/Spec2Isabelle.thy ===== *)
theory Spec2Isabelle
  imports Router Transport Scheduler Terminal Prepared JournalExample
begin

text \<open>
  Verification of the BroSettlement MPC co-signer.
\<close>

end
